theory Spec2Isabelle
  imports Main
begin

section \<open>The syntax tree handed to the rules\<close>

text \<open>
  The rules of eslint-plugin-qunit are visitors over an ESTree syntax tree. A node is a
  JavaScript object: it has an identity (two nodes with the same content are still two
  objects, and the rules compare nodes with \<^verbatim>\<open>===\<close>), a \<^verbatim>\<open>type\<close> tag and
  \<^verbatim>\<open>loc.start.line\<close>. The first argument of every constructor below is the pair
  (object identity, start line); the constructors are the node types the rules read, and
  \<open>OtherNode\<close> stands for every other node type, with its type tag and its children
  in visiting order.
\<close>

type_synonym ninfo = "nat \<times> nat"

text \<open>The \<^verbatim>\<open>value\<close> of a Literal node. A regular-expression literal evaluates to
  a fresh object, which is compared by identity.\<close>

datatype jsval = VBool bool | VNum int | VStr string | VNull | VRegExp nat

datatype node =
    Identifier ninfo string
  | Literal ninfo jsval
  | MemberExpression ninfo node node
  | CallExpression ninfo node "node list"
  | UnaryExpression ninfo string node
  | AssignmentExpression ninfo node node
  | VariableDeclaration ninfo "node list"
  | VariableDeclarator ninfo node "node option"
  | FunctionExpression ninfo "node list" node
  | ArrowFunctionExpression ninfo "node list" node
  | ObjectExpression ninfo "node list"
  | Property ninfo node node
  | ExpressionStatement ninfo node
  | BlockStatement ninfo "node list"
  | WhileStatement ninfo node node
  | DoWhileStatement ninfo node node
  | ForStatement ninfo "node option" "node option" "node option" node
  | ForInStatement ninfo node node node
  | ForOfStatement ninfo node node node
  | Program ninfo "node list"
  | OtherNode ninfo string "node list"

fun ninfo_of :: "node \<Rightarrow> ninfo" where
  "ninfo_of (Identifier i _) = i"
| "ninfo_of (Literal i _) = i"
| "ninfo_of (MemberExpression i _ _) = i"
| "ninfo_of (CallExpression i _ _) = i"
| "ninfo_of (UnaryExpression i _ _) = i"
| "ninfo_of (AssignmentExpression i _ _) = i"
| "ninfo_of (VariableDeclaration i _) = i"
| "ninfo_of (VariableDeclarator i _ _) = i"
| "ninfo_of (FunctionExpression i _ _) = i"
| "ninfo_of (ArrowFunctionExpression i _ _) = i"
| "ninfo_of (ObjectExpression i _) = i"
| "ninfo_of (Property i _ _) = i"
| "ninfo_of (ExpressionStatement i _) = i"
| "ninfo_of (BlockStatement i _) = i"
| "ninfo_of (WhileStatement i _ _) = i"
| "ninfo_of (DoWhileStatement i _ _) = i"
| "ninfo_of (ForStatement i _ _ _ _) = i"
| "ninfo_of (ForInStatement i _ _ _) = i"
| "ninfo_of (ForOfStatement i _ _ _) = i"
| "ninfo_of (Program i _) = i"
| "ninfo_of (OtherNode i _ _) = i"

definition loc_start_line :: "node \<Rightarrow> nat" where
  "loc_start_line n = snd (ninfo_of n)"

text \<open>\<^verbatim>\<open>n.type === "Identifier" && n.name === s\<close>\<close>

definition isIdentifierNamed :: "node \<Rightarrow> string \<Rightarrow> bool" where
  "isIdentifierNamed n s = (case n of Identifier _ x \<Rightarrow> x = s | _ \<Rightarrow> False)"

text \<open>\<^verbatim>\<open>n.type === "Identifier" && names.has(n.name)\<close>\<close>

definition isIdentifierIn :: "node \<Rightarrow> string list \<Rightarrow> bool" where
  "isIdentifierIn n names = (case n of Identifier _ x \<Rightarrow> List.member names x | _ \<Rightarrow> False)"

definition isLiteral :: "node \<Rightarrow> bool" where
  "isLiteral n = (case n of Literal _ _ \<Rightarrow> True | _ \<Rightarrow> False)"

definition isFunctionLike :: "node \<Rightarrow> bool" where
  "isFunctionLike n = (case n of FunctionExpression _ _ _ \<Rightarrow> True
                        | ArrowFunctionExpression _ _ _ \<Rightarrow> True | _ \<Rightarrow> False)"

text \<open>\<^verbatim>\<open>Array.prototype.find\<close>: the first element satisfying the predicate, or
  \<^verbatim>\<open>undefined\<close>.\<close>

fun find_first :: "('a \<Rightarrow> bool) \<Rightarrow> 'a list \<Rightarrow> 'a option" where
  "find_first p [] = None"
| "find_first p (x # xs) = (if p x then Some x else find_first p xs)"

text \<open>\<^verbatim>\<open>Array.prototype.join\<close>\<close>

fun join :: "string \<Rightarrow> string list \<Rightarrow> string" where
  "join sep [] = []"
| "join sep [x] = x"
| "join sep (x # y # ys) = x @ sep @ join sep (y # ys)"

text \<open>\<^verbatim>\<open>Number.prototype.toString\<close> on a non-negative integer.\<close>

fun nat_toString :: "nat \<Rightarrow> string" where
  "nat_toString n =
     (if n < 10 then [''0123456789'' ! n]
      else nat_toString (n div 10) @ [''0123456789'' ! (n mod 10)])"

declare nat_toString.simps [simp del]

section \<open>What a rule reports\<close>

datatype error = AssertionError string | TypeError string | RangeError string

text \<open>A fix is a list of text replacements (\<^verbatim>\<open>fixer.replaceText(node, text)\<close>);
  \<open>None\<close> is a report without a fix function or one whose fix function returned
  \<^verbatim>\<open>null\<close>. A suggestion is a message identifier with its own fix.\<close>

datatype fixop = ReplaceText node string

record diagnostic =
  d_node :: node
  d_messageId :: string
  d_data :: "(string \<times> string) list"
  d_fix :: "fixop list option"
  d_suggest :: "(string \<times> fixop list option) list"

section \<open>utils.js: the call-shape classifier and the assertion table\<close>

definition SUPPORTED_TEST_IDENTIFIERS :: "string list" where
  "SUPPORTED_TEST_IDENTIFIERS = [''test'', ''asyncTest'', ''only'']"

definition ALL_MODULE_HOOK_IDENTIFIERS :: "string list" where
  "ALL_MODULE_HOOK_IDENTIFIERS =
     [''setup'', ''teardown'', ''before'', ''beforeEach'', ''afterEach'', ''after'']"

record assertion_metadata =
  allowedArities :: "nat list"
  compareActualFirst :: "bool option"

definition ASSERTION_METADATA :: "(string \<times> assertion_metadata) list" where
  "ASSERTION_METADATA =
    [(''deepEqual'', \<lparr>allowedArities = [2], compareActualFirst = Some True\<rparr>),
     (''equal'', \<lparr>allowedArities = [2], compareActualFirst = Some True\<rparr>),
     (''false'', \<lparr>allowedArities = [1], compareActualFirst = None\<rparr>),
     (''notDeepEqual'', \<lparr>allowedArities = [2], compareActualFirst = Some True\<rparr>),
     (''notEqual'', \<lparr>allowedArities = [2], compareActualFirst = Some True\<rparr>),
     (''notOk'', \<lparr>allowedArities = [1], compareActualFirst = None\<rparr>),
     (''notPropEqual'', \<lparr>allowedArities = [2], compareActualFirst = Some True\<rparr>),
     (''notStrictEqual'', \<lparr>allowedArities = [2], compareActualFirst = Some True\<rparr>),
     (''ok'', \<lparr>allowedArities = [1], compareActualFirst = None\<rparr>),
     (''propEqual'', \<lparr>allowedArities = [2], compareActualFirst = Some True\<rparr>),
     (''strictEqual'', \<lparr>allowedArities = [2], compareActualFirst = Some True\<rparr>),
     (''raises'', \<lparr>allowedArities = [1, 2], compareActualFirst = None\<rparr>),
     (''throws'', \<lparr>allowedArities = [1, 2], compareActualFirst = None\<rparr>),
     (''true'', \<lparr>allowedArities = [1], compareActualFirst = None\<rparr>)]"

definition getAssertionMetadata :: "node \<Rightarrow> string option \<Rightarrow> assertion_metadata option" where
  "getAssertionMetadata calleeNode assertVar =
     (case calleeNode of
        MemberExpression _ ob pr \<Rightarrow>
          (case ob of
             Identifier _ obName \<Rightarrow>
               (if assertVar = Some obName
                then (case pr of Identifier _ prName \<Rightarrow> map_of ASSERTION_METADATA prName
                      | _ \<Rightarrow> None)
                else None)
           | _ \<Rightarrow> None)
      | Identifier _ name \<Rightarrow> map_of ASSERTION_METADATA name
      | _ \<Rightarrow> None)"

text \<open>The four classifiers below share one shape: a bare identifier, or a member of the
  identifier \<^verbatim>\<open>QUnit\<close>.\<close>

definition isQUnitMember :: "node \<Rightarrow> string list \<Rightarrow> bool" where
  "isQUnitMember calleeNode names =
     (case calleeNode of
        Identifier _ name \<Rightarrow> List.member names name
      | MemberExpression _ ob pr \<Rightarrow> isIdentifierNamed ob ''QUnit'' \<and> isIdentifierIn pr names
      | _ \<Rightarrow> False)"

definition isStop :: "node \<Rightarrow> bool" where
  "isStop calleeNode = isQUnitMember calleeNode [''stop'']"

definition isStart :: "node \<Rightarrow> bool" where
  "isStart calleeNode = isQUnitMember calleeNode [''start'']"

definition isTest :: "node \<Rightarrow> bool" where
  "isTest calleeNode = isQUnitMember calleeNode SUPPORTED_TEST_IDENTIFIERS"

definition isModule :: "node \<Rightarrow> bool" where
  "isModule calleeNode = isQUnitMember calleeNode [''module'']"

definition isAsyncTest :: "node \<Rightarrow> bool" where
  "isAsyncTest calleeNode = isQUnitMember calleeNode [''asyncTest'']"

text \<open>\<^verbatim>\<open>isInModule(propertyNode)\<close> follows two parent links; the visitor is given the
  ancestors of the node it visits, the parent first.\<close>

definition isInModule :: "node list \<Rightarrow> bool" where
  "isInModule ancestors =
     (case ancestors of
        _ # pp # _ \<Rightarrow> (case pp of CallExpression _ callee _ \<Rightarrow> isModule callee | _ \<Rightarrow> False)
      | _ \<Rightarrow> False)"

definition isModuleHookPropertyKey :: "node \<Rightarrow> bool" where
  "isModuleHookPropertyKey identifierNode = isIdentifierIn identifierNode ALL_MODULE_HOOK_IDENTIFIERS"

text \<open>The parameter looked for is the first identifier not named \<^verbatim>\<open>this\<close>.\<close>

definition isHooksParam :: "node \<Rightarrow> bool" where
  "isHooksParam p = (case p of Identifier _ name \<Rightarrow> name \<noteq> ''this'' | _ \<Rightarrow> False)"

definition identifierName :: "node \<Rightarrow> string option" where
  "identifierName n = (case n of Identifier _ name \<Rightarrow> Some name | _ \<Rightarrow> None)"

definition getAssertContextName :: "node \<Rightarrow> string option" where
  "getAssertContextName functionExpr =
     (case functionExpr of
        FunctionExpression _ params _ \<Rightarrow>
          (case find_first isHooksParam params of Some p \<Rightarrow> identifierName p | None \<Rightarrow> None)
      | ArrowFunctionExpression _ params _ \<Rightarrow>
          (case find_first isHooksParam params of Some p \<Rightarrow> identifierName p | None \<Rightarrow> None)
      | _ \<Rightarrow> None)"

definition getAssertContextNameForTest :: "node list \<Rightarrow> string option" where
  "getAssertContextNameForTest argumentsNodes =
     (case find_first isFunctionLike argumentsNodes of
        None \<Rightarrow> None
      | Some functionExpr \<Rightarrow> getAssertContextName functionExpr)"

definition isAssertion :: "node \<Rightarrow> string option \<Rightarrow> bool" where
  "isAssertion calleeNode assertVar = (getAssertionMetadata calleeNode assertVar \<noteq> None)"

text \<open>\<^verbatim>\<open>Object.hasOwnProperty.call(null, ...)\<close> throws, which is what happens when the
  callee is no assertion.\<close>

definition isComparativeAssertion :: "node \<Rightarrow> string option \<Rightarrow> error + bool" where
  "isComparativeAssertion calleeNode assertVar =
     (case getAssertionMetadata calleeNode assertVar of
        None \<Rightarrow> Inl (TypeError ''Cannot convert undefined or null to object'')
      | Some m \<Rightarrow> Inr (compareActualFirst m \<noteq> None))"

definition shouldCompareActualFirst :: "node \<Rightarrow> string option \<Rightarrow> bool" where
  "shouldCompareActualFirst calleeNode assertVar =
     (case getAssertionMetadata calleeNode assertVar of
        None \<Rightarrow> False
      | Some m \<Rightarrow> (compareActualFirst m = Some True))"

text \<open>An empty \<^verbatim>\<open>assertVar\<close> is replaced by \<^verbatim>\<open>"assert"\<close>.\<close>

definition isAsyncCallExpression :: "node \<Rightarrow> string \<Rightarrow> bool" where
  "isAsyncCallExpression callExpressionNode assertVar0 =
     (let assertVar = (if assertVar0 = [] then ''assert'' else assertVar0) in
      case callExpressionNode of
        CallExpression _ callee _ \<Rightarrow>
          (case callee of
             MemberExpression _ ob pr \<Rightarrow>
               isIdentifierNamed ob assertVar \<and> isIdentifierNamed pr ''async''
           | _ \<Rightarrow> False)
      | _ \<Rightarrow> False)"


section \<open>The source text of a node\<close>

text \<open>
  \<^verbatim>\<open>sourceCode.getText(node)\<close> belongs to the host; the rules below take it as the
  parameter \<open>getText\<close>. \<open>canonicalText\<close> is the text of an expression in a file that is
  written without optional white space, used to run the rules on examples.
\<close>

fun litText :: "jsval \<Rightarrow> string" where
  "litText (VBool b) = (if b then ''true'' else ''false'')"
| "litText (VNum k) = (if k < 0 then ''-'' @ nat_toString (nat (- k)) else nat_toString (nat k))"
| "litText (VStr s) = [CHR 0x27] @ s @ [CHR 0x27]"
| "litText VNull = ''null''"
| "litText (VRegExp _) = ''/re/''"

fun canonicalText :: "node \<Rightarrow> string" where
  "canonicalText (Identifier _ name) = name"
| "canonicalText (Literal _ v) = litText v"
| "canonicalText (MemberExpression _ ob pr) = canonicalText ob @ ''.'' @ canonicalText pr"
| "canonicalText (CallExpression _ callee args) =
     canonicalText callee @ ''('' @ join '', '' (map canonicalText args) @ '')''"
| "canonicalText (UnaryExpression _ operator argument) = operator @ canonicalText argument"
| "canonicalText (AssignmentExpression _ left right) =
     canonicalText left @ '' = '' @ canonicalText right"
| "canonicalText _ = []"

section \<open>Rule literal-compare-order\<close>

text \<open>The rule keeps \<^verbatim>\<open>testStack\<close>, an array of frames \<^verbatim>\<open>{assertContextVar}\<close>; the
  array is a list in index order, \<^verbatim>\<open>push\<close> appends and \<^verbatim>\<open>pop\<close> removes the last
  element.\<close>

definition getAssertContext :: "string option list \<Rightarrow> error + string option" where
  "getAssertContext testStack =
     (if testStack = [] then Inl (AssertionError ''assert.ok(testStack.length)'')
      else Inr (last testStack))"

definition swapFirstTwoNodesInList :: "(node \<Rightarrow> string) \<Rightarrow> node list \<Rightarrow> error + fixop list" where
  "swapFirstTwoNodesInList getText list =
     (case list of
        n0 # n1 # _ \<Rightarrow> Inr [ReplaceText n0 (getText n1), ReplaceText n1 (getText n0)]
      | _ \<Rightarrow> Inl (TypeError ''Cannot read properties of undefined''))"

definition compareOrderReport ::
  "(node \<Rightarrow> string) \<Rightarrow> string \<Rightarrow> node list \<Rightarrow> node \<Rightarrow> node \<Rightarrow> error + diagnostic list" where
  "compareOrderReport getText messageId args a0 a1 =
     (case swapFirstTwoNodesInList getText args of
        Inl e \<Rightarrow> Inl e
      | Inr f \<Rightarrow>
          Inr [\<lparr>d_node = a0, d_messageId = messageId,
                d_data = [(''expected'', getText a0), (''actual'', getText a1)],
                d_fix = Some f, d_suggest = []\<rparr>])"

definition checkLiteralCompareOrder ::
  "(node \<Rightarrow> string) \<Rightarrow> node list \<Rightarrow> bool \<Rightarrow> error + diagnostic list" where
  "checkLiteralCompareOrder getText args actualFirst =
     (case args of
        a0 # a1 # _ \<Rightarrow>
          if actualFirst \<and> isLiteral a0 \<and> \<not> isLiteral a1
          then compareOrderReport getText ''actualFirst'' args a0 a1
          else if \<not> actualFirst \<and> \<not> isLiteral a0 \<and> isLiteral a1
          then compareOrderReport getText ''expectedFirst'' args a0 a1
          else Inr []
      | _ \<Rightarrow> Inr [])"

definition processAssertion ::
  "(node \<Rightarrow> string) \<Rightarrow> node \<Rightarrow> string option \<Rightarrow> error + diagnostic list" where
  "processAssertion getText node assertVar =
     (case node of
        CallExpression _ callee args \<Rightarrow>
          (case isComparativeAssertion callee assertVar of
             Inl e \<Rightarrow> Inl e
           | Inr comparative \<Rightarrow>
               if comparative
               then checkLiteralCompareOrder getText args (shouldCompareActualFirst callee assertVar)
               else Inr [])
      | _ \<Rightarrow> Inr [])"

text \<open>The \<^verbatim>\<open>CallExpression\<close> handler: the new stack and the diagnostics it reports.\<close>

definition compare_order_CallExpression ::
  "(node \<Rightarrow> string) \<Rightarrow> node \<Rightarrow> string option list \<Rightarrow> error + (string option list \<times> diagnostic list)" where
  "compare_order_CallExpression getText node testStack =
     (case node of
        CallExpression _ callee args \<Rightarrow>
          if isTest callee then Inr (testStack @ [getAssertContextNameForTest args], [])
          else if length testStack > 0 then
            (case getAssertContext testStack of
               Inl e \<Rightarrow> Inl e
             | Inr assertVar \<Rightarrow>
                 if isAssertion callee assertVar
                 then (case processAssertion getText node assertVar of
                         Inl e \<Rightarrow> Inl e
                       | Inr ds \<Rightarrow> Inr (testStack, ds))
                 else Inr (testStack, []))
          else Inr (testStack, [])
      | _ \<Rightarrow> Inr (testStack, []))"

definition compare_order_CallExpression_exit :: "node \<Rightarrow> string option list \<Rightarrow> string option list" where
  "compare_order_CallExpression_exit node testStack =
     (case node of
        CallExpression _ callee _ \<Rightarrow> if isTest callee then butlast testStack else testStack
      | _ \<Rightarrow> testStack)"

section \<open>Rule no-assert-equal-boolean\<close>

definition EQUALITY_ASSERTIONS :: "string list" where
  "EQUALITY_ASSERTIONS = [''equal'', ''deepEqual'', ''strictEqual'']"

text \<open>\<^verbatim>\<open>assert(testStack.length, ...)\<close> and then the top frame.\<close>

definition getCurrentAssertContextVariable :: "string option list \<Rightarrow> error + string option" where
  "getCurrentAssertContextVariable testStack =
     (if testStack = [] then Inl (AssertionError ''Test stack should not be empty'')
      else Inr (last testStack))"

definition isGlobalEqualityAssertion :: "node \<Rightarrow> bool" where
  "isGlobalEqualityAssertion calleeNode = isIdentifierIn calleeNode EQUALITY_ASSERTIONS"

text \<open>The conjunction is evaluated left to right: the stack is read last, and only for a
  member expression of two identifiers whose property is an equality assertion.\<close>

definition isAssertEquality :: "node \<Rightarrow> string option list \<Rightarrow> error + bool" where
  "isAssertEquality calleeNode testStack =
     (case calleeNode of
        MemberExpression _ ob pr \<Rightarrow>
          if isIdentifierIn pr EQUALITY_ASSERTIONS then
            (case ob of
               Identifier _ obName \<Rightarrow>
                 (case getCurrentAssertContextVariable testStack of
                    Inl e \<Rightarrow> Inl e
                  | Inr assertVar \<Rightarrow> Inr (assertVar = Some obName))
             | _ \<Rightarrow> Inr False)
          else Inr False
      | _ \<Rightarrow> Inr False)"

definition isEqualityAssertion :: "node \<Rightarrow> string option list \<Rightarrow> error + bool" where
  "isEqualityAssertion calleeNode testStack =
     (if isGlobalEqualityAssertion calleeNode then Inr True
      else isAssertEquality calleeNode testStack)"

text \<open>\<^verbatim>\<open>arg.type === "Literal" && (arg.value === true || arg.value === false)\<close>\<close>

definition isBooleanLiteral :: "node \<Rightarrow> bool" where
  "isBooleanLiteral arg =
     (case arg of Literal _ v \<Rightarrow> (case v of VBool _ \<Rightarrow> True | _ \<Rightarrow> False) | _ \<Rightarrow> False)"

definition getBooleanArgument :: "node \<Rightarrow> node option" where
  "getBooleanArgument node =
     (case node of
        CallExpression _ _ args \<Rightarrow>
          (case args of
             a0 # a1 # _ \<Rightarrow> find_first isBooleanLiteral [a0, a1]
           | _ \<Rightarrow> None)
      | _ \<Rightarrow> None)"

text \<open>JavaScript truthiness of a literal's value, and a value inside a template string.\<close>

fun truthy :: "jsval \<Rightarrow> bool" where
  "truthy (VBool b) = b"
| "truthy (VNum k) = (k \<noteq> 0)"
| "truthy (VStr s) = (s \<noteq> [])"
| "truthy VNull = False"
| "truthy (VRegExp _) = True"

definition templateText :: "string option \<Rightarrow> string" where
  "templateText v = (case v of None \<Rightarrow> ''null'' | Some s \<Rightarrow> s)"

text \<open>The \<^verbatim>\<open>fix\<close> function of \<^verbatim>\<open>reportError\<close>. The host calls it while it handles the
  report, so it reads the stack as it is at the report. \<^verbatim>\<open>arg !== booleanArgument\<close>
  compares objects.\<close>

definition equal_boolean_fix ::
  "(node \<Rightarrow> string) \<Rightarrow> node \<Rightarrow> string option list \<Rightarrow> error + fixop list option" where
  "equal_boolean_fix getText node testStack =
     (case getBooleanArgument node of
        None \<Rightarrow> Inr None
      | Some booleanArgument \<Rightarrow>
          (case booleanArgument of
             Literal _ v \<Rightarrow>
               (let newAssertionFunctionName = (if truthy v then ''true'' else ''false'') in
                case node of
                  CallExpression _ callee args \<Rightarrow>
                    (let newArgsTextArray =
                           map getText (filter (\<lambda>arg. arg \<noteq> booleanArgument) args);
                         newArgsTextJoined = join '', '' newArgsTextArray
                     in case (case callee of
                                Identifier _ _ \<Rightarrow> Inr []
                              | _ \<Rightarrow> (case getCurrentAssertContextVariable testStack of
                                         Inl e \<Rightarrow> Inl e
                                       | Inr assertVar \<Rightarrow> Inr (templateText assertVar @ ''.''))) of
                          Inl e \<Rightarrow> Inl e
                        | Inr assertVariablePrefix \<Rightarrow>
                            Inr (Some [ReplaceText node
                                   (assertVariablePrefix @ newAssertionFunctionName @ ''('' @
                                    newArgsTextJoined @ '')'')]))
                | _ \<Rightarrow> Inr None)
           | _ \<Rightarrow> Inr None))"

definition equal_boolean_reportError ::
  "(node \<Rightarrow> string) \<Rightarrow> node \<Rightarrow> string option list \<Rightarrow> error + diagnostic list" where
  "equal_boolean_reportError getText node testStack =
     (case equal_boolean_fix getText node testStack of
        Inl e \<Rightarrow> Inl e
      | Inr f \<Rightarrow>
          Inr [\<lparr>d_node = node, d_messageId = ''useAssertTrueOrFalse'', d_data = [],
                d_fix = f, d_suggest = []\<rparr>])"

definition equal_boolean_CallExpression ::
  "(node \<Rightarrow> string) \<Rightarrow> node \<Rightarrow> string option list \<Rightarrow> error + (string option list \<times> diagnostic list)" where
  "equal_boolean_CallExpression getText node testStack =
     (case node of
        CallExpression _ callee args \<Rightarrow>
          if isTest callee \<or> isAsyncTest callee
          then Inr (testStack @ [getAssertContextNameForTest args], [])
          else if length testStack > 0 then
            (case isEqualityAssertion callee testStack of
               Inl e \<Rightarrow> Inl e
             | Inr equality \<Rightarrow>
                 if equality \<and> getBooleanArgument node \<noteq> None
                 then (case equal_boolean_reportError getText node testStack of
                         Inl e \<Rightarrow> Inl e
                       | Inr ds \<Rightarrow> Inr (testStack, ds))
                 else Inr (testStack, []))
          else Inr (testStack, [])
      | _ \<Rightarrow> Inr (testStack, []))"

definition equal_boolean_CallExpression_exit :: "node \<Rightarrow> string option list \<Rightarrow> string option list" where
  "equal_boolean_CallExpression_exit node testStack =
     (case node of
        CallExpression _ callee _ \<Rightarrow>
          if isTest callee \<or> isAsyncTest callee then butlast testStack else testStack
      | _ \<Rightarrow> testStack)"

section \<open>Rule no-negated-ok\<close>

definition ASSERTION_OPPOSITES :: "(string \<times> string) list" where
  "ASSERTION_OPPOSITES =
     [(''false'', ''true''), (''notOk'', ''ok''), (''ok'', ''notOk''), (''true'', ''false'')]"

definition ASSERTIONS_TO_CHECK :: "string list" where
  "ASSERTIONS_TO_CHECK = [''ok'', ''true'', ''notOk'', ''false'']"

definition getAssertVar :: "string option list \<Rightarrow> string option" where
  "getAssertVar asyncStateStack = (if length asyncStateStack > 0 then last asyncStateStack else None)"

definition isOkOrNotOk :: "node \<Rightarrow> string option list \<Rightarrow> bool" where
  "isOkOrNotOk calleeNode asyncStateStack =
     (case calleeNode of
        MemberExpression _ ob pr \<Rightarrow>
          (case ob of
             Identifier _ obName \<Rightarrow>
               getAssertVar asyncStateStack = Some obName \<and> isIdentifierIn pr ASSERTIONS_TO_CHECK
           | _ \<Rightarrow> False)
      | _ \<Rightarrow> False)"

text \<open>\<^verbatim>\<open>!assertVar\<close> holds for \<^verbatim>\<open>null\<close> and for the empty string.\<close>

definition negated_ok_isAssertion :: "node \<Rightarrow> string option list \<Rightarrow> bool" where
  "negated_ok_isAssertion calleeNode asyncStateStack =
     (case getAssertVar asyncStateStack of
        None \<Rightarrow> False
      | Some assertVar \<Rightarrow> if assertVar = [] then False else isAssertion calleeNode (Some assertVar))"

fun getNegationDepth :: "node \<Rightarrow> nat" where
  "getNegationDepth (UnaryExpression _ operator argument) =
     (if operator = ''!'' then Suc (getNegationDepth argument) else 0)"
| "getNegationDepth _ = 0"

fun unwrapNegation :: "node \<Rightarrow> node" where
  "unwrapNegation (UnaryExpression i operator argument) =
     (if operator = ''!'' then unwrapNegation argument else UnaryExpression i operator argument)"
| "unwrapNegation node = node"

text \<open>The \<^verbatim>\<open>fix\<close> function inside \<^verbatim>\<open>checkForNegation\<close>.\<close>

definition negated_ok_fix :: "(node \<Rightarrow> string) \<Rightarrow> node \<Rightarrow> fixop list option" where
  "negated_ok_fix getText callExprNode =
     (case callExprNode of
        CallExpression _ callee args \<Rightarrow>
          (case callee of
             MemberExpression _ ob pr \<Rightarrow>
               (case ob of
                  Identifier _ assertionVariableName \<Rightarrow>
                    (case pr of
                       Identifier _ propertyName \<Rightarrow>
                         if propertyName \<noteq> ''true'' \<and> propertyName \<noteq> ''false'' \<and>
                            propertyName \<noteq> ''ok'' \<and> propertyName \<noteq> ''notOk''
                         then None
                         else
                           (case map_of ASSERTION_OPPOSITES propertyName of
                              None \<Rightarrow> None
                            | Some oppositeAssertionFunctionName \<Rightarrow>
                                (case args of
                                   firstArgNode # others \<Rightarrow>
                                     Some [ReplaceText callExprNode
                                       (assertionVariableName @ ''.'' @
                                        oppositeAssertionFunctionName @ ''('' @
                                        join '', '' (map getText (unwrapNegation firstArgNode # others)) @
                                        '')'')]
                                 | [] \<Rightarrow> None))
                     | _ \<Rightarrow> None)
                | _ \<Rightarrow> None)
           | _ \<Rightarrow> None)
      | _ \<Rightarrow> None)"

definition checkForNegation :: "(node \<Rightarrow> string) \<Rightarrow> node \<Rightarrow> diagnostic list" where
  "checkForNegation getText callExprNode =
     (case callExprNode of
        CallExpression _ callee args \<Rightarrow>
          (case args of
             firstArgNode # _ \<Rightarrow>
               if getNegationDepth firstArgNode mod 2 = 1
               then [\<lparr>d_node = callExprNode, d_messageId = ''noNegationInOk'',
                      d_data = [(''callee'', getText callee)],
                      d_fix = negated_ok_fix getText callExprNode, d_suggest = []\<rparr>]
               else []
           | [] \<Rightarrow> [])
      | _ \<Rightarrow> [])"

definition negated_ok_CallExpression ::
  "(node \<Rightarrow> string) \<Rightarrow> node \<Rightarrow> string option list \<Rightarrow> string option list \<times> diagnostic list" where
  "negated_ok_CallExpression getText node asyncStateStack =
     (case node of
        CallExpression _ callee args \<Rightarrow>
          if isTest callee
          then (asyncStateStack @ [getAssertContextNameForTest args], [])
          else if negated_ok_isAssertion callee asyncStateStack \<and> isOkOrNotOk callee asyncStateStack
          then (asyncStateStack, checkForNegation getText node)
          else (asyncStateStack, [])
      | _ \<Rightarrow> (asyncStateStack, []))"

definition negated_ok_CallExpression_exit :: "node \<Rightarrow> string option list \<Rightarrow> string option list" where
  "negated_ok_CallExpression_exit node asyncStateStack =
     (case node of
        CallExpression _ callee _ \<Rightarrow> if isTest callee then butlast asyncStateStack else asyncStateStack
      | _ \<Rightarrow> asyncStateStack)"

text \<open>A value under a chain of \<^verbatim>\<open>!\<close> operators, one for each entry of the list (the
  entries are the identities and lines of the \<^verbatim>\<open>UnaryExpression\<close> nodes, outermost
  first).\<close>

fun wrapNot :: "ninfo list \<Rightarrow> node \<Rightarrow> node" where
  "wrapNot [] x = x"
| "wrapNot (i # is) x = UnaryExpression i ''!'' (wrapNot is x)"

definition isNegation :: "node \<Rightarrow> bool" where
  "isNegation n = (case n of UnaryExpression _ operator _ \<Rightarrow> operator = ''!'' | _ \<Rightarrow> False)"

text \<open>The text in front of the assertion name in a call: nothing for a bare identifier, the
  object identifier and a dot for a member of an identifier. The properties of the fixes are
  stated with it.\<close>

definition calleePrefix :: "node \<Rightarrow> string" where
  "calleePrefix callee =
     (case callee of
        MemberExpression _ ob _ \<Rightarrow> (case ob of Identifier _ obName \<Rightarrow> obName @ ''.'' | _ \<Rightarrow> [])
      | _ \<Rightarrow> [])"

section \<open>The traversal of the host\<close>

text \<open>
  The host visits the tree depth first: at a node it calls the handlers of the node's type,
  visits the children in the order of the visitor keys and then calls the exit handlers.
  A handler receives the ancestors of the node (\<^verbatim>\<open>node.parent\<close> first) and the state of
  its rule, and returns the new state and the diagnostics it reported; an exception
  thrown by a handler ends the traversal. The name of a function expression is not kept
  in the tree: it is an identifier, which no rule modelled here handles.
\<close>

definition optionChild :: "node option \<Rightarrow> node list" where
  "optionChild c = (case c of None \<Rightarrow> [] | Some x \<Rightarrow> [x])"

fun children :: "node \<Rightarrow> node list" where
  "children (Identifier _ _) = []"
| "children (Literal _ _) = []"
| "children (MemberExpression _ ob pr) = [ob, pr]"
| "children (CallExpression _ callee args) = callee # args"
| "children (UnaryExpression _ _ argument) = [argument]"
| "children (AssignmentExpression _ left right) = [left, right]"
| "children (VariableDeclaration _ declarations) = declarations"
| "children (VariableDeclarator _ ident init) = ident # optionChild init"
| "children (FunctionExpression _ params body) = params @ [body]"
| "children (ArrowFunctionExpression _ params body) = params @ [body]"
| "children (ObjectExpression _ properties) = properties"
| "children (Property _ key val) = [key, val]"
| "children (ExpressionStatement _ expression) = [expression]"
| "children (BlockStatement _ body) = body"
| "children (WhileStatement _ test body) = [test, body]"
| "children (DoWhileStatement _ body test) = [body, test]"
| "children (ForStatement _ init test update body) =
     optionChild init @ optionChild test @ optionChild update @ [body]"
| "children (ForInStatement _ left right body) = [left, right, body]"
| "children (ForOfStatement _ left right body) = [left, right, body]"
| "children (Program _ body) = body"
| "children (OtherNode _ _ cs) = cs"

lemma children_size:
  "sum_list (map size (children n)) < size n \<or>
   (sum_list (map size (children n)) = size n \<and> children n = [])"
  by (cases n) (auto simp: optionChild_def size_list_conv_sum_list split: option.splits)

type_synonym 's handler = "node list \<Rightarrow> node \<Rightarrow> 's \<Rightarrow> error + ('s \<times> diagnostic list)"

function traverse :: "'s handler \<Rightarrow> 's handler \<Rightarrow> node list \<Rightarrow> node \<Rightarrow> 's \<Rightarrow> error + ('s \<times> diagnostic list)"
  and traverse_list :: "'s handler \<Rightarrow> 's handler \<Rightarrow> node list \<Rightarrow> node list \<Rightarrow> 's \<Rightarrow> error + ('s \<times> diagnostic list)"
  where
  "traverse enter exit ancestors n s =
     (case enter ancestors n s of
        Inl e \<Rightarrow> Inl e
      | Inr (s1, d1) \<Rightarrow>
          (case traverse_list enter exit (n # ancestors) (children n) s1 of
             Inl e \<Rightarrow> Inl e
           | Inr (s2, d2) \<Rightarrow>
               (case exit ancestors n s2 of
                  Inl e \<Rightarrow> Inl e
                | Inr (s3, d3) \<Rightarrow> Inr (s3, d1 @ d2 @ d3))))"
| "traverse_list enter exit ancestors [] s = Inr (s, [])"
| "traverse_list enter exit ancestors (c # cs) s =
     (case traverse enter exit ancestors c s of
        Inl e \<Rightarrow> Inl e
      | Inr (s1, d1) \<Rightarrow>
          (case traverse_list enter exit ancestors cs s1 of
             Inl e \<Rightarrow> Inl e
           | Inr (s2, d2) \<Rightarrow> Inr (s2, d1 @ d2)))"
  by pat_completeness auto
termination
proof (relation "measures
         [\<lambda>x. case x of Inl (_, _, _, n, _) \<Rightarrow> size n
                       | Inr (_, _, _, ns, _) \<Rightarrow> sum_list (map size ns),
          \<lambda>x. case x of Inl (_, _, _, n, _) \<Rightarrow> 1
                       | Inr (_, _, _, ns, _) \<Rightarrow> 2 * length ns]", goal_cases)
  case 1
  show ?case by simp
next
  case (2 enter exit ancestors n s x2 x y)
  show ?case using children_size [of n] by auto
next
  case (3 enter exit ancestors c cs s)
  show ?case by (cases "sum_list (map size cs)") auto
next
  case (4 enter exit ancestors c cs s x2 x y)
  show ?case by (cases "size c") auto
qed

declare traverse.simps [simp del]

section \<open>Rule resolve-async\<close>

text \<open>
  The semaphore count is a JavaScript number. The rule only adds to it and negates what it
  adds, starting from 0 or 1, so its values are integers or \<^verbatim>\<open>NaN\<close>.
\<close>

datatype jsnum = Num int | NaN

fun jsnum_add :: "jsnum \<Rightarrow> jsnum \<Rightarrow> jsnum" where
  "jsnum_add (Num a) (Num b) = Num (a + b)"
| "jsnum_add _ _ = NaN"

fun jsnum_neg :: "jsnum \<Rightarrow> jsnum" where
  "jsnum_neg (Num a) = Num (- a)"
| "jsnum_neg NaN = NaN"

fun jsnum_positive :: "jsnum \<Rightarrow> bool" where
  "jsnum_positive (Num a) = (a > 0)"
| "jsnum_positive NaN = False"

fun jsnum_toString :: "jsnum \<Rightarrow> string" where
  "jsnum_toString (Num a) = (if a < 0 then ''-'' @ nat_toString (nat (- a)) else nat_toString (nat a))"
| "jsnum_toString NaN = ''NaN''"

text \<open>
  \<^verbatim>\<open>+node.arguments[0]\<close> applies the unary plus to the node object itself. A syntax-tree
  node has no \<^verbatim>\<open>valueOf\<close> or \<^verbatim>\<open>toString\<close> of its own, so the conversion goes through
  \<^verbatim>\<open>"[object Object]"\<close> and yields \<^verbatim>\<open>NaN\<close>, whatever the node is.
\<close>

definition unaryPlus :: "node \<Rightarrow> jsnum" where
  "unaryPlus n = NaN"

record AsyncState =
  stopSemaphoreCount :: jsnum
  asyncCallbackVars :: "(string \<times> bool) list"
  assertContextVar :: "string option"

text \<open>
  \<^verbatim>\<open>asyncCallbackVars\<close> is a plain object used as a dictionary, kept here as the list of
  its own properties in insertion order (the order of \<^verbatim>\<open>for ... in\<close>). The operator
  \<^verbatim>\<open>in\<close> also finds the properties inherited from \<^verbatim>\<open>Object.prototype\<close>, and an
  assignment to \<^verbatim>\<open>__proto__\<close> of a boolean creates no property.
\<close>

definition Object_prototype_names :: "string list" where
  "Object_prototype_names =
     [''constructor'', ''__defineGetter__'', ''__defineSetter__'', ''hasOwnProperty'',
      ''__lookupGetter__'', ''__lookupSetter__'', ''isPrototypeOf'', ''propertyIsEnumerable'',
      ''toString'', ''valueOf'', ''__proto__'', ''toLocaleString'']"

definition js_in :: "string \<Rightarrow> (string \<times> bool) list \<Rightarrow> bool" where
  "js_in name obj = (map_of obj name \<noteq> None \<or> List.member Object_prototype_names name)"

fun js_update :: "(string \<times> bool) list \<Rightarrow> string \<Rightarrow> bool \<Rightarrow> (string \<times> bool) list" where
  "js_update [] name v = [(name, v)]"
| "js_update ((k, w) # kvs) name v =
     (if k = name then (k, v) # kvs else (k, w) # js_update kvs name v)"

definition js_assign :: "(string \<times> bool) list \<Rightarrow> string \<Rightarrow> bool \<Rightarrow> (string \<times> bool) list" where
  "js_assign obj name v = (if name = ''__proto__'' then obj else js_update obj name v)"

text \<open>The top frame is \<^verbatim>\<open>asyncStateStack[asyncStateStack.length - 1]\<close>, undefined on
  the empty stack; every helper tests it before use.\<close>

definition resolve_async_isAsyncCallExpression :: "node \<Rightarrow> AsyncState list \<Rightarrow> bool" where
  "resolve_async_isAsyncCallExpression callExpressionNode asyncStateStack =
     (if asyncStateStack = [] then False
      else (case assertContextVar (last asyncStateStack) of
              None \<Rightarrow> False
            | Some v \<Rightarrow> if v = [] then False else isAsyncCallExpression callExpressionNode v))"

definition getAsyncCallbackVarOrNull :: "node \<Rightarrow> AsyncState list \<Rightarrow> string option" where
  "getAsyncCallbackVarOrNull calleeNode asyncStateStack =
     (if asyncStateStack = [] then None
      else
        (let vars = asyncCallbackVars (last asyncStateStack) in
         case calleeNode of
           Identifier _ name \<Rightarrow> if js_in name vars then Some name else None
         | MemberExpression _ ob pr \<Rightarrow>
             (let isCallOrApply = isIdentifierIn pr [''call'', ''apply''] in
              case ob of
                Identifier _ obName \<Rightarrow>
                  if isCallOrApply \<and> js_in obName vars then Some obName else None
              | _ \<Rightarrow> None)
         | _ \<Rightarrow> None))"

definition incrementSemaphoreCount :: "jsnum \<Rightarrow> AsyncState list \<Rightarrow> AsyncState list" where
  "incrementSemaphoreCount amount asyncStateStack =
     (if asyncStateStack = [] then asyncStateStack
      else butlast asyncStateStack @
           [(last asyncStateStack)
              \<lparr>stopSemaphoreCount := jsnum_add (stopSemaphoreCount (last asyncStateStack)) amount\<rparr>])"

definition addAsyncCallbackVar :: "node \<Rightarrow> AsyncState list \<Rightarrow> AsyncState list" where
  "addAsyncCallbackVar lhsNode asyncStateStack =
     (if asyncStateStack = [] then asyncStateStack
      else (case lhsNode of
              Identifier _ name \<Rightarrow>
                butlast asyncStateStack @
                [(last asyncStateStack)
                   \<lparr>asyncCallbackVars :=
                      js_assign (asyncCallbackVars (last asyncStateStack)) name False\<rparr>]
            | _ \<Rightarrow> asyncStateStack))"

definition markAsyncCallbackVarCalled :: "string \<Rightarrow> AsyncState list \<Rightarrow> AsyncState list" where
  "markAsyncCallbackVarCalled name asyncStateStack =
     (if asyncStateStack = [] then asyncStateStack
      else butlast asyncStateStack @
           [(last asyncStateStack)
              \<lparr>asyncCallbackVars :=
                 js_assign (asyncCallbackVars (last asyncStateStack)) name True\<rparr>])"

definition needMoreStartCalls :: "AsyncState \<Rightarrow> node \<Rightarrow> diagnostic list" where
  "needMoreStartCalls asyncState node =
     (if jsnum_positive (stopSemaphoreCount asyncState)
      then [\<lparr>d_node = node, d_messageId = ''needMoreStartCalls'',
             d_data = [(''semaphore'', jsnum_toString (stopSemaphoreCount asyncState)),
                       (''callOrCalls'',
                        if stopSemaphoreCount asyncState = Num 1 then ''call'' else ''calls'')],
             d_fix = None, d_suggest = []\<rparr>]
      else [])"

definition asyncCallbackNotCalled :: "node \<Rightarrow> string \<times> bool \<Rightarrow> diagnostic list" where
  "asyncCallbackNotCalled node kv =
     (if snd kv = False
      then [\<lparr>d_node = node, d_messageId = ''asyncCallbackNotCalled'',
             d_data = [(''asyncVar'', fst kv)], d_fix = None, d_suggest = []\<rparr>]
      else [])"

definition verifyAsyncState :: "AsyncState \<Rightarrow> node \<Rightarrow> diagnostic list" where
  "verifyAsyncState asyncState node =
     needMoreStartCalls asyncState node @
     concat (map (asyncCallbackNotCalled node) (asyncCallbackVars asyncState))"

text \<open>\<^verbatim>\<open>node.arguments.length > 0 ? +node.arguments[0] : 1\<close>\<close>

definition semaphoreDelta :: "node list \<Rightarrow> jsnum" where
  "semaphoreDelta args = (case args of [] \<Rightarrow> Num 1 | a # _ \<Rightarrow> unaryPlus a)"

text \<open>The last two branches of the \<^verbatim>\<open>CallExpression\<close> handler.\<close>

definition stopOrStart :: "node \<Rightarrow> node list \<Rightarrow> AsyncState list \<Rightarrow> AsyncState list" where
  "stopOrStart callee args asyncStateStack =
     (if isStop callee then
        incrementSemaphoreCount (semaphoreDelta args) asyncStateStack
      else if isStart callee then
        incrementSemaphoreCount (jsnum_neg (semaphoreDelta args)) asyncStateStack
      else asyncStateStack)"

text \<open>\<^verbatim>\<open>else if (callbackVar)\<close> holds for a name that is not the empty string.\<close>

definition resolve_async_CallExpression :: "node \<Rightarrow> AsyncState list \<Rightarrow> AsyncState list" where
  "resolve_async_CallExpression node asyncStateStack =
     (case node of
        CallExpression _ callee args \<Rightarrow>
          (let callbackVar = getAsyncCallbackVarOrNull callee asyncStateStack in
           if isTest callee then
             asyncStateStack @
             [\<lparr>stopSemaphoreCount = (if isAsyncTest callee then Num 1 else Num 0),
               asyncCallbackVars = [],
               assertContextVar = getAssertContextNameForTest args\<rparr>]
           else
             (case callbackVar of
                Some name \<Rightarrow>
                  if name \<noteq> [] then markAsyncCallbackVarCalled name asyncStateStack
                  else stopOrStart callee args asyncStateStack
              | None \<Rightarrow> stopOrStart callee args asyncStateStack))
      | _ \<Rightarrow> asyncStateStack)"

definition resolve_async_CallExpression_exit ::
  "node \<Rightarrow> AsyncState list \<Rightarrow> AsyncState list \<times> diagnostic list" where
  "resolve_async_CallExpression_exit node asyncStateStack =
     (case node of
        CallExpression _ callee _ \<Rightarrow>
          if isTest callee then
            (if asyncStateStack = [] then (asyncStateStack, [])
             else (butlast asyncStateStack, verifyAsyncState (last asyncStateStack) node))
          else (asyncStateStack, [])
      | _ \<Rightarrow> (asyncStateStack, []))"

definition resolve_async_Property :: "node list \<Rightarrow> node \<Rightarrow> AsyncState list \<Rightarrow> AsyncState list" where
  "resolve_async_Property ancestors node asyncStateStack =
     (case node of
        Property _ key val \<Rightarrow>
          if isModuleHookPropertyKey key \<and> isInModule ancestors then
            asyncStateStack @
            [\<lparr>stopSemaphoreCount = Num 0, asyncCallbackVars = [],
              assertContextVar = getAssertContextName val\<rparr>]
          else asyncStateStack
      | _ \<Rightarrow> asyncStateStack)"

definition resolve_async_Property_exit ::
  "node list \<Rightarrow> node \<Rightarrow> AsyncState list \<Rightarrow> AsyncState list \<times> diagnostic list" where
  "resolve_async_Property_exit ancestors node asyncStateStack =
     (case node of
        Property _ key _ \<Rightarrow>
          if isModuleHookPropertyKey key \<and> isInModule ancestors then
            (if asyncStateStack = [] then (asyncStateStack, [])
             else (butlast asyncStateStack, verifyAsyncState (last asyncStateStack) node))
          else (asyncStateStack, [])
      | _ \<Rightarrow> (asyncStateStack, []))"

definition resolve_async_AssignmentExpression :: "node \<Rightarrow> AsyncState list \<Rightarrow> AsyncState list" where
  "resolve_async_AssignmentExpression node asyncStateStack =
     (case node of
        AssignmentExpression _ left right \<Rightarrow>
          if resolve_async_isAsyncCallExpression right asyncStateStack then
            (case left of
               Identifier _ _ \<Rightarrow> addAsyncCallbackVar left asyncStateStack
             | _ \<Rightarrow> asyncStateStack)
          else asyncStateStack
      | _ \<Rightarrow> asyncStateStack)"

definition resolve_async_VariableDeclarator :: "node \<Rightarrow> AsyncState list \<Rightarrow> AsyncState list" where
  "resolve_async_VariableDeclarator node asyncStateStack =
     (case node of
        VariableDeclarator _ ident init \<Rightarrow>
          (case init of
             None \<Rightarrow> asyncStateStack
           | Some initNode \<Rightarrow>
               if resolve_async_isAsyncCallExpression initNode asyncStateStack then
                 (case ident of
                    Identifier _ _ \<Rightarrow> addAsyncCallbackVar ident asyncStateStack
                  | _ \<Rightarrow> asyncStateStack)
               else asyncStateStack)
      | _ \<Rightarrow> asyncStateStack)"

text \<open>The rule as the pair of handlers given to the traversal: each handler of the rule
  is registered for one node type and leaves every other node alone.\<close>

definition resolve_async_enter :: "AsyncState list handler" where
  "resolve_async_enter ancestors node asyncStateStack =
     Inr (resolve_async_VariableDeclarator node
            (resolve_async_AssignmentExpression node
               (resolve_async_Property ancestors node
                  (resolve_async_CallExpression node asyncStateStack))), [])"

definition resolve_async_exit :: "AsyncState list handler" where
  "resolve_async_exit ancestors node asyncStateStack =
     (case node of
        CallExpression _ _ _ \<Rightarrow> Inr (resolve_async_CallExpression_exit node asyncStateStack)
      | Property _ _ _ \<Rightarrow> Inr (resolve_async_Property_exit ancestors node asyncStateStack)
      | _ \<Rightarrow> Inr (asyncStateStack, []))"

definition resolve_async :: "node \<Rightarrow> error + (AsyncState list \<times> diagnostic list)" where
  "resolve_async program = traverse resolve_async_enter resolve_async_exit [] program []"

definition isIdentifierNode :: "node \<Rightarrow> bool" where
  "isIdentifierNode n = (case n of Identifier _ _ \<Rightarrow> True | _ \<Rightarrow> False)"

section \<open>Rule no-hooks-from-ancestor-modules\<close>

definition NESTABLE_HOOK_NAMES :: "string list" where
  "NESTABLE_HOOK_NAMES = [''afterEach'', ''beforeEach'']"

record moduleStackInfo =
  callExpression :: node
  description :: string
  hookIdentifierName :: "string option"

text \<open>Four parent links: the statement, the block, the function and the call it is an
  argument of.\<close>

definition isInModuleCallbackBody :: "node list \<Rightarrow> bool" where
  "isInModuleCallbackBody ancestors =
     (case ancestors of
        p1 # p2 # p3 # p4 # _ \<Rightarrow>
          (case p1 of
             ExpressionStatement _ _ \<Rightarrow>
               (case p2 of
                  BlockStatement _ _ \<Rightarrow>
                    isFunctionLike p3 \<and>
                    (case p4 of CallExpression _ callee _ \<Rightarrow> isModule callee | _ \<Rightarrow> False)
                | _ \<Rightarrow> False)
           | _ \<Rightarrow> False)
      | _ \<Rightarrow> False)"

definition isHookInvocation :: "node list \<Rightarrow> node \<Rightarrow> bool" where
  "isHookInvocation ancestors node =
     (case node of
        CallExpression _ callee _ \<Rightarrow>
          (case callee of
             MemberExpression _ ob pr \<Rightarrow>
               isIdentifierNode ob \<and> isIdentifierIn pr NESTABLE_HOOK_NAMES \<and>
               isInModuleCallbackBody ancestors
           | _ \<Rightarrow> False)
      | _ \<Rightarrow> False)"

text \<open>\<^verbatim>\<open>args.slice(1, 3).find(...)\<close>\<close>

definition getCallbackArg :: "node list \<Rightarrow> node option" where
  "getCallbackArg args = find_first isFunctionLike (take 2 (drop 1 args))"

definition getHooksIdentifierFromParams :: "node list \<Rightarrow> node option" where
  "getHooksIdentifierFromParams params = find_first isHooksParam params"

definition functionParams :: "node \<Rightarrow> node list" where
  "functionParams f =
     (case f of FunctionExpression _ params _ \<Rightarrow> params
      | ArrowFunctionExpression _ params _ \<Rightarrow> params | _ \<Rightarrow> [])"

definition moduleDescription :: "(node \<Rightarrow> string) \<Rightarrow> node \<Rightarrow> string" where
  "moduleDescription getText arg =
     (case arg of
        Literal _ v \<Rightarrow> (case v of VStr s \<Rightarrow> s | _ \<Rightarrow> getText arg)
      | _ \<Rightarrow> getText arg)"

text \<open>
  The \<^verbatim>\<open>CallExpression\<close> handler. A module call without arguments or without a
  callback returns before the push. A hook invocation reads the top of the stack without a
  test; on the empty stack that is a property read on \<^verbatim>\<open>undefined\<close>.
\<close>

definition ancestor_hooks_CallExpression ::
  "(node \<Rightarrow> string) \<Rightarrow> node list \<Rightarrow> node \<Rightarrow> moduleStackInfo list \<Rightarrow>
   error + (moduleStackInfo list \<times> diagnostic list)" where
  "ancestor_hooks_CallExpression getText ancestors node moduleStack =
     (case node of
        CallExpression _ callee args \<Rightarrow>
          if isModule callee then
            (case args of
               [] \<Rightarrow> Inr (moduleStack, [])
             | arg # _ \<Rightarrow>
                 (case getCallbackArg args of
                    None \<Rightarrow> Inr (moduleStack, [])
                  | Some callback \<Rightarrow>
                      Inr (moduleStack @
                           [\<lparr>callExpression = node,
                             description = moduleDescription getText arg,
                             hookIdentifierName =
                               (case getHooksIdentifierFromParams (functionParams callback) of
                                  None \<Rightarrow> None
                                | Some hooksParam \<Rightarrow> identifierName hooksParam)\<rparr>], [])))
          else if isHookInvocation ancestors node then
            (if moduleStack = [] then Inl (TypeError ''Cannot read properties of undefined'')
             else
               (case callee of
                  MemberExpression _ ob pr \<Rightarrow>
                    (case ob of
                       Identifier _ usedHooksIdentifierName \<Rightarrow>
                         (case pr of
                            Identifier _ invokedMethodName \<Rightarrow>
                              if hookIdentifierName (last moduleStack) \<noteq> Some usedHooksIdentifierName
                              then Inr (moduleStack,
                                     [\<lparr>d_node = callee,
                                       d_messageId = ''noHooksFromAncestorModules'',
                                       d_data = [(''invokedMethodName'', invokedMethodName),
                                                 (''usedHooksIdentifierName'', usedHooksIdentifierName)],
                                       d_fix = None, d_suggest = []\<rparr>])
                              else Inr (moduleStack, [])
                          | _ \<Rightarrow> Inr (moduleStack, []))
                     | _ \<Rightarrow> Inr (moduleStack, []))
                | _ \<Rightarrow> Inr (moduleStack, [])))
          else Inr (moduleStack, [])
      | _ \<Rightarrow> Inr (moduleStack, []))"

definition ancestor_hooks_CallExpression_exit ::
  "node \<Rightarrow> moduleStackInfo list \<Rightarrow> moduleStackInfo list" where
  "ancestor_hooks_CallExpression_exit node moduleStack =
     (case node of
        CallExpression _ callee _ \<Rightarrow> if isModule callee then butlast moduleStack else moduleStack
      | _ \<Rightarrow> moduleStack)"

definition ancestor_hooks :: "(node \<Rightarrow> string) \<Rightarrow> node \<Rightarrow> error + (moduleStackInfo list \<times> diagnostic list)" where
  "ancestor_hooks getText program =
     traverse (ancestor_hooks_CallExpression getText)
       (\<lambda>ancestors node moduleStack. Inr (ancestor_hooks_CallExpression_exit node moduleStack, []))
       [] program []"

text \<open>
  The program of the nested modules:
  \<^verbatim>\<open>QUnit.module('A', function (hooks) { hooks.beforeEach(function () {});
  QUnit.module('B', function (hooks2) { hooks2.beforeEach(function () {});
  hooks.afterEach(function () {}); }); });\<close>
\<close>

definition qunitModule :: "nat \<Rightarrow> node" where
  "qunitModule k = MemberExpression (k, 1) (Identifier (k + 1, 1) ''QUnit'') (Identifier (k + 2, 1) ''module'')"

definition emptyFunction :: "nat \<Rightarrow> node" where
  "emptyFunction k = FunctionExpression (k, 1) [] (BlockStatement (k + 1, 1) [])"

definition hookCallee :: "nat \<Rightarrow> string \<Rightarrow> string \<Rightarrow> node" where
  "hookCallee k receiver hook =
     MemberExpression (k, 1) (Identifier (k + 1, 1) receiver) (Identifier (k + 2, 1) hook)"

definition hookCall :: "nat \<Rightarrow> string \<Rightarrow> string \<Rightarrow> node" where
  "hookCall k receiver hook =
     ExpressionStatement (k, 1)
       (CallExpression (k + 1, 1) (hookCallee (k + 2) receiver hook) [emptyFunction (k + 5)])"

definition nestedModulesProgram :: node where
  "nestedModulesProgram =
     Program (0, 1)
       [ExpressionStatement (1, 1)
          (CallExpression (2, 1) (qunitModule 3)
             [Literal (6, 1) (VStr ''A''),
              FunctionExpression (7, 1) [Identifier (8, 1) ''hooks'']
                (BlockStatement (9, 1)
                   [hookCall 10 ''hooks'' ''beforeEach'',
                    ExpressionStatement (20, 1)
                      (CallExpression (21, 1) (qunitModule 22)
                         [Literal (25, 1) (VStr ''B''),
                          FunctionExpression (26, 1) [Identifier (27, 1) ''hooks2'']
                            (BlockStatement (28, 1)
                               [hookCall 30 ''hooks2'' ''beforeEach'',
                                hookCall 40 ''hooks'' ''afterEach''])])])])]"

section \<open>Rule no-assert-equal\<close>

text \<open>
  The rule asks the host which calls are calls of the global \<^verbatim>\<open>equal\<close>: the
  \<^verbatim>\<open>Program\<close> handler stores the call nodes that the reference tracker of the host
  yields for the name \<^verbatim>\<open>equal\<close> (references that resolve to the global scope). The
  tracker is not part of the plugin; its result for the file is the parameter
  \<open>iterateGlobalReferences\<close>. \<^verbatim>\<open>globalEqualCallNodes.has(node)\<close> compares objects.
\<close>

record assert_equal_state =
  ae_testStack :: "string option list"
  globalEqualCallNodes :: "node list"

definition isAssertEqual :: "node \<Rightarrow> string option list \<Rightarrow> error + bool" where
  "isAssertEqual calleeNode testStack =
     (case calleeNode of
        MemberExpression _ ob pr \<Rightarrow>
          if isIdentifierNamed pr ''equal'' then
            (case ob of
               Identifier _ obName \<Rightarrow>
                 (case getCurrentAssertContextVariable testStack of
                    Inl e \<Rightarrow> Inl e
                  | Inr assertVar \<Rightarrow> Inr (assertVar = Some obName))
             | _ \<Rightarrow> Inr False)
          else Inr False
      | _ \<Rightarrow> Inr False)"

text \<open>The \<^verbatim>\<open>fix\<close> function of each of the three suggestions.\<close>

definition assert_equal_suggestFix :: "node \<Rightarrow> bool \<Rightarrow> string \<Rightarrow> fixop list option" where
  "assert_equal_suggestFix node isGlobal newName =
     (case node of
        CallExpression _ callee _ \<Rightarrow>
          (if isGlobal then Some [ReplaceText callee newName]
           else (case callee of
                   MemberExpression _ _ pr \<Rightarrow> Some [ReplaceText pr newName]
                 | _ \<Rightarrow> None))
      | _ \<Rightarrow> None)"

definition assert_equal_reportError ::
  "node \<Rightarrow> bool \<Rightarrow> string option list \<Rightarrow> error + diagnostic list" where
  "assert_equal_reportError node isGlobal testStack =
     (case (if isGlobal then Inr None else getCurrentAssertContextVariable testStack) of
        Inl e \<Rightarrow> Inl e
      | Inr assertVar \<Rightarrow>
          Inr [\<lparr>d_node = node,
                d_messageId = (if isGlobal then ''unexpectedGlobalEqual'' else ''unexpectedAssertEqual''),
                d_data = (case assertVar of
                            None \<Rightarrow> []
                          | Some v \<Rightarrow> if v = [] then [] else [(''assertVar'', v)]),
                d_fix = None,
                d_suggest =
                  [(''switchToDeepEqual'', assert_equal_suggestFix node isGlobal ''deepEqual''),
                   (''switchToPropEqual'', assert_equal_suggestFix node isGlobal ''propEqual''),
                   (''switchToStrictEqual'', assert_equal_suggestFix node isGlobal ''strictEqual'')]\<rparr>])"

definition assert_equal_CallExpression ::
  "node \<Rightarrow> assert_equal_state \<Rightarrow> error + (assert_equal_state \<times> diagnostic list)" where
  "assert_equal_CallExpression node s =
     (case node of
        CallExpression _ callee args \<Rightarrow>
          if isTest callee \<or> isAsyncTest callee
          then Inr (s\<lparr>ae_testStack := ae_testStack s @ [getAssertContextNameForTest args]\<rparr>, [])
          else if length (ae_testStack s) > 0 then
            (case isAssertEqual callee (ae_testStack s) of
               Inl e \<Rightarrow> Inl e
             | Inr assertEqual \<Rightarrow>
                 if assertEqual then
                   (case assert_equal_reportError node False (ae_testStack s) of
                      Inl e \<Rightarrow> Inl e | Inr ds \<Rightarrow> Inr (s, ds))
                 else if List.member (globalEqualCallNodes s) node then
                   (case assert_equal_reportError node True (ae_testStack s) of
                      Inl e \<Rightarrow> Inl e | Inr ds \<Rightarrow> Inr (s, ds))
                 else Inr (s, []))
          else Inr (s, [])
      | _ \<Rightarrow> Inr (s, []))"

definition assert_equal_CallExpression_exit :: "node \<Rightarrow> assert_equal_state \<Rightarrow> assert_equal_state" where
  "assert_equal_CallExpression_exit node s =
     (case node of
        CallExpression _ callee _ \<Rightarrow>
          if isTest callee \<or> isAsyncTest callee
          then s\<lparr>ae_testStack := butlast (ae_testStack s)\<rparr> else s
      | _ \<Rightarrow> s)"

text \<open>\<^verbatim>\<open>Set.prototype.add\<close>\<close>

definition set_add :: "node list \<Rightarrow> node \<Rightarrow> node list" where
  "set_add xs x = (if List.member xs x then xs else xs @ [x])"

definition assert_equal_Program :: "node list \<Rightarrow> node \<Rightarrow> assert_equal_state \<Rightarrow> assert_equal_state" where
  "assert_equal_Program iterateGlobalReferences node s =
     (case node of
        Program _ _ \<Rightarrow>
          s\<lparr>globalEqualCallNodes := foldl set_add (globalEqualCallNodes s) iterateGlobalReferences\<rparr>
      | _ \<Rightarrow> s)"

definition assert_equal_enter :: "node list \<Rightarrow> assert_equal_state handler" where
  "assert_equal_enter iterateGlobalReferences ancestors node s =
     assert_equal_CallExpression node (assert_equal_Program iterateGlobalReferences node s)"

definition assert_equal_exit :: "assert_equal_state handler" where
  "assert_equal_exit ancestors node s = Inr (assert_equal_CallExpression_exit node s, [])"

definition no_assert_equal :: "node list \<Rightarrow> node \<Rightarrow> error + (assert_equal_state \<times> diagnostic list)" where
  "no_assert_equal iterateGlobalReferences program =
     traverse (assert_equal_enter iterateGlobalReferences) assert_equal_exit [] program
       \<lparr>ae_testStack = [], globalEqualCallNodes = []\<rparr>"

text \<open>The rule no-assert-equal-boolean as a traversal.\<close>

definition equal_boolean_enter :: "(node \<Rightarrow> string) \<Rightarrow> string option list handler" where
  "equal_boolean_enter getText ancestors node testStack =
     equal_boolean_CallExpression getText node testStack"

definition equal_boolean_exit :: "string option list handler" where
  "equal_boolean_exit ancestors node testStack =
     Inr (equal_boolean_CallExpression_exit node testStack, [])"

definition equal_boolean :: "(node \<Rightarrow> string) \<Rightarrow> node \<Rightarrow> error + (string option list \<times> diagnostic list)" where
  "equal_boolean getText program =
     traverse (equal_boolean_enter getText) equal_boolean_exit [] program []"

text \<open>
  A test whose callback declares its own \<^verbatim>\<open>equal\<close> and calls it:
  \<^verbatim>\<open>QUnit.test('t', function (assert) { function equal(a, b) {} equal(x, true); });\<close>
  No reference to \<^verbatim>\<open>equal\<close> in this file resolves to the global scope, so the tracker
  yields nothing for it.
\<close>

definition shadowedEqualCall :: node where
  "shadowedEqualCall =
     CallExpression (21, 1) (Identifier (22, 1) ''equal'')
       [Identifier (23, 1) ''x'', Literal (24, 1) (VBool True)]"

definition shadowedEqualProgram :: node where
  "shadowedEqualProgram =
     Program (0, 1)
       [ExpressionStatement (1, 1)
          (CallExpression (2, 1)
             (MemberExpression (3, 1) (Identifier (4, 1) ''QUnit'') (Identifier (5, 1) ''test''))
             [Literal (6, 1) (VStr ''t''),
              FunctionExpression (7, 1) [Identifier (8, 1) ''assert'']
                (BlockStatement (9, 1)
                   [OtherNode (10, 1) ''FunctionDeclaration''
                      [Identifier (11, 1) ''equal'', Identifier (12, 1) ''a'',
                       Identifier (13, 1) ''b'', BlockStatement (14, 1) []],
                    ExpressionStatement (20, 1) shadowedEqualCall])])]"

section \<open>Rule no-async-in-loops\<close>

record loops_state =
  loopStack :: "node list"
  assertVariableStack :: "string list"

definition loops_isAsyncCallExpression :: "node \<Rightarrow> loops_state \<Rightarrow> bool" where
  "loops_isAsyncCallExpression node s =
     (if assertVariableStack s = [] then False
      else if last (assertVariableStack s) = [] then False
      else isAsyncCallExpression node (last (assertVariableStack s)))"

text \<open>\<^verbatim>\<open>loopStack.pop()\<close> is \<^verbatim>\<open>undefined\<close> on the empty stack, which is not the
  expected node either.\<close>

definition popAndMatch :: "node \<Rightarrow> loops_state \<Rightarrow> error + loops_state" where
  "popAndMatch expectedNode s =
     (if loopStack s = [] then Inl (AssertionError ''Node mismatch in loop stack'')
      else if last (loopStack s) = expectedNode
      then Inr (s\<lparr>loopStack := butlast (loopStack s)\<rparr>)
      else Inl (AssertionError ''Node mismatch in loop stack''))"

definition getLoopTypeText :: "node \<Rightarrow> error + string" where
  "getLoopTypeText loopNode =
     (case loopNode of
        WhileStatement _ _ _ \<Rightarrow> Inr ''while loop''
      | DoWhileStatement _ _ _ \<Rightarrow> Inr ''do-while loop''
      | ForStatement _ _ _ _ _ \<Rightarrow> Inr ''for loop''
      | ForInStatement _ _ _ _ \<Rightarrow> Inr ''for-in loop''
      | ForOfStatement _ _ _ _ \<Rightarrow> Inr ''for-of loop''
      | _ \<Rightarrow> Inl (RangeError ''Invalid loop type''))"

definition isCallTo :: "(node \<Rightarrow> bool) \<Rightarrow> node \<Rightarrow> bool" where
  "isCallTo p node = (case node of CallExpression _ callee _ \<Rightarrow> p callee | _ \<Rightarrow> False)"

text \<open>\<^verbatim>\<open>getAsyncCallType(node) ?? ""\<close>\<close>

definition getAsyncCallType :: "node \<Rightarrow> loops_state \<Rightarrow> string" where
  "getAsyncCallType node s =
     (if loops_isAsyncCallExpression node s then last (assertVariableStack s) @ ''.async()''
      else if isCallTo isStop node then ''stop()''
      else if isCallTo isStart node then ''start()''
      else [])"

definition loops_reportError :: "node \<Rightarrow> loops_state \<Rightarrow> error + diagnostic list" where
  "loops_reportError node s =
     (if loopStack s = [] then Inl (TypeError ''Cannot read properties of undefined'')
      else (case getLoopTypeText (last (loopStack s)) of
              Inl e \<Rightarrow> Inl e
            | Inr loopTypeText \<Rightarrow>
                Inr [\<lparr>d_node = node, d_messageId = ''unexpectedAsyncInLoop'',
                      d_data = [(''call'', getAsyncCallType node s),
                                (''loopTypeText'', loopTypeText)],
                      d_fix = None, d_suggest = []\<rparr>]))"

text \<open>A test registration whose callback binds no assert variable returns before the
  push.\<close>

definition loops_CallExpression :: "node \<Rightarrow> loops_state \<Rightarrow> error + (loops_state \<times> diagnostic list)" where
  "loops_CallExpression node s =
     (case node of
        CallExpression _ callee args \<Rightarrow>
          if isTest callee then
            (case getAssertContextNameForTest args of
               None \<Rightarrow> Inr (s, [])
             | Some v \<Rightarrow>
                 if v = [] then Inr (s, [])
                 else Inr (s\<lparr>assertVariableStack := assertVariableStack s @ [v]\<rparr>, []))
          else if length (loopStack s) > 0 then
            (if loops_isAsyncCallExpression node s \<or> isStop callee \<or> isStart callee
             then (case loops_reportError node s of
                     Inl e \<Rightarrow> Inl e | Inr ds \<Rightarrow> Inr (s, ds))
             else Inr (s, []))
          else Inr (s, [])
      | _ \<Rightarrow> Inr (s, []))"

definition loops_CallExpression_exit :: "node \<Rightarrow> loops_state \<Rightarrow> loops_state" where
  "loops_CallExpression_exit node s =
     (case node of
        CallExpression _ callee _ \<Rightarrow>
          if isTest callee then s\<lparr>assertVariableStack := butlast (assertVariableStack s)\<rparr> else s
      | _ \<Rightarrow> s)"

definition isLoop :: "node \<Rightarrow> bool" where
  "isLoop n =
     (case n of
        WhileStatement _ _ _ \<Rightarrow> True
      | DoWhileStatement _ _ _ \<Rightarrow> True
      | ForStatement _ _ _ _ _ \<Rightarrow> True
      | ForInStatement _ _ _ _ \<Rightarrow> True
      | ForOfStatement _ _ _ _ \<Rightarrow> True
      | _ \<Rightarrow> False)"

definition loops_enter :: "loops_state handler" where
  "loops_enter ancestors node s =
     (if isLoop node then Inr (s\<lparr>loopStack := loopStack s @ [node]\<rparr>, [])
      else loops_CallExpression node s)"

definition loops_exit :: "loops_state handler" where
  "loops_exit ancestors node s =
     (if isLoop node then (case popAndMatch node s of Inl e \<Rightarrow> Inl e | Inr s1 \<Rightarrow> Inr (s1, []))
      else Inr (loops_CallExpression_exit node s, []))"

definition no_async_in_loops :: "node \<Rightarrow> error + (loops_state \<times> diagnostic list)" where
  "no_async_in_loops program =
     traverse loops_enter loops_exit [] program \<lparr>loopStack = [], assertVariableStack = []\<rparr>"

text \<open>
  \<^verbatim>\<open>test('a', function (assert) { INNER while (x) { assert.async(); } });\<close> where
  \<open>INNER\<close> is a list of statements, and the nested registration
  \<^verbatim>\<open>test('b', function () {});\<close>
\<close>

definition asyncInWhile :: "node list \<Rightarrow> node" where
  "asyncInWhile inner =
     Program (0, 1)
       [ExpressionStatement (1, 1)
          (CallExpression (2, 1) (Identifier (3, 1) ''test'')
             [Literal (4, 1) (VStr ''a''),
              FunctionExpression (5, 1) [Identifier (6, 1) ''assert'']
                (BlockStatement (7, 1)
                   (inner @
                    [WhileStatement (20, 1) (Identifier (21, 1) ''x'')
                       (BlockStatement (22, 1)
                          [ExpressionStatement (23, 1)
                             (CallExpression (24, 1)
                                (MemberExpression (25, 1) (Identifier (26, 1) ''assert'')
                                   (Identifier (27, 1) ''async'')) [])])]))])]"

definition nestedTestWithoutAssert :: node where
  "nestedTestWithoutAssert =
     ExpressionStatement (10, 1)
       (CallExpression (11, 1) (Identifier (12, 1) ''test'')
          [Literal (13, 1) (VStr ''b''),
           FunctionExpression (14, 1) [] (BlockStatement (15, 1) [])])"

section \<open>Rule no-identical-names\<close>

text \<open>
  \<^verbatim>\<open>modulesStack\<close> holds module call nodes above the constant that stands for the
  implicit top-level module; \<^verbatim>\<open>mapModuleNodeToInfo\<close> is a \<^verbatim>\<open>Map\<close> keyed by those, kept
  as the list of its entries in insertion order. The info objects are shared between the
  map and the handlers, so a change of an info object is a change of the map entry.
\<close>

datatype mkey = TOP_LEVEL_MODULE_NODE | ModuleNode node

record moduleInfo =
  modules :: "node list"
  tests :: "node list"
  hasNestedTests :: bool

record names_state =
  modulesStack :: "mkey list"
  mapModuleNodeToInfo :: "(mkey \<times> moduleInfo) list"

text \<open>\<^verbatim>\<open>Map.prototype.set\<close>\<close>

fun map_set :: "('k \<times> 'v) list \<Rightarrow> 'k \<Rightarrow> 'v \<Rightarrow> ('k \<times> 'v) list" where
  "map_set [] k v = [(k, v)]"
| "map_set ((k', w) # kvs) k v = (if k' = k then (k', v) # kvs else (k', w) # map_set kvs k v)"

definition names_initial :: names_state where
  "names_initial =
     \<lparr>modulesStack = [TOP_LEVEL_MODULE_NODE],
      mapModuleNodeToInfo =
        [(TOP_LEVEL_MODULE_NODE, \<lparr>modules = [], tests = [], hasNestedTests = False\<rparr>)]\<rparr>"

definition isFirstArgLiteral :: "node \<Rightarrow> bool" where
  "isFirstArgLiteral node =
     (case node of
        CallExpression _ _ args \<Rightarrow> (case args of [] \<Rightarrow> False | a # _ \<Rightarrow> isLiteral a)
      | _ \<Rightarrow> False)"

text \<open>\<^verbatim>\<open>Array.prototype.some\<close> and \<^verbatim>\<open>find\<close> with a callback that may throw.\<close>

fun some_e :: "('a \<Rightarrow> error + bool) \<Rightarrow> 'a list \<Rightarrow> error + bool" where
  "some_e p [] = Inr False"
| "some_e p (x # xs) =
     (case p x of Inl e \<Rightarrow> Inl e | Inr b \<Rightarrow> if b then Inr True else some_e p xs)"

fun find_e :: "('a \<Rightarrow> error + bool) \<Rightarrow> 'a list \<Rightarrow> error + 'a option" where
  "find_e p [] = Inr None"
| "find_e p (x # xs) =
     (case p x of Inl e \<Rightarrow> Inl e | Inr b \<Rightarrow> if b then Inr (Some x) else find_e p xs)"

text \<open>
  \<^verbatim>\<open>moduleHasNestedTests\<close> calls itself on the child modules. The first argument bounds
  the depth of the calls; when it is used up the result is the error of a call stack that
  overflows. The exit handler starts it at the size of the module node plus one: in a
  traversal the child modules recorded for a node are proper parts of the node.
\<close>

fun moduleHasNestedTests :: "nat \<Rightarrow> (mkey \<times> moduleInfo) list \<Rightarrow> mkey \<Rightarrow> error + bool" where
  "moduleHasNestedTests 0 m k = Inl (RangeError ''Maximum call stack size exceeded'')"
| "moduleHasNestedTests (Suc depth) m k =
     (case map_of m k of
        None \<Rightarrow> Inr False
      | Some moduleInfo \<Rightarrow>
          if length (tests moduleInfo) > 0 then Inr True
          else some_e (\<lambda>moduleNode. moduleHasNestedTests depth m (ModuleNode moduleNode))
                 (modules moduleInfo))"

definition stackTop :: "mkey list \<Rightarrow> mkey option" where
  "stackTop stack = (if stack = [] then None else Some (last stack))"

text \<open>\<^verbatim>\<open>!mapModuleNodeToInfo.get(node)?.hasNestedTests\<close>\<close>

definition isTestLess :: "(mkey \<times> moduleInfo) list \<Rightarrow> node \<Rightarrow> bool" where
  "isTestLess m node =
     (case map_of m (ModuleNode node) of None \<Rightarrow> True | Some i \<Rightarrow> \<not> hasNestedTests i)"

definition findLast :: "'a list \<Rightarrow> ('a \<Rightarrow> bool) \<Rightarrow> 'a option" where
  "findLast arr callback = find_first callback (rev arr)"

definition getCurrentModuleNode :: "names_state \<Rightarrow> mkey option" where
  "getCurrentModuleNode s =
     (case stackTop (modulesStack s) of
        None \<Rightarrow> None
      | Some topNode \<Rightarrow>
          (case map_of (mapModuleNodeToInfo s) topNode of
             None \<Rightarrow> Some topNode
           | Some parentModule \<Rightarrow>
               if length (modules parentModule) > 0 then
                 (case findLast (modules parentModule) (isTestLess (mapModuleNodeToInfo s)) of
                    Some lastTestLessModule \<Rightarrow> Some (ModuleNode lastTestLessModule)
                  | None \<Rightarrow> Some topNode)
               else Some topNode))"

text \<open>The callback of the three \<^verbatim>\<open>find\<close> calls:
  \<^verbatim>\<open>n.type === "CallExpression" && n.arguments[0].type === "Literal" &&
  n.arguments[0].value === title\<close>. On a call without arguments the second conjunct reads
  a property of \<^verbatim>\<open>undefined\<close>.\<close>

definition hasTitle :: "jsval \<Rightarrow> node \<Rightarrow> error + bool" where
  "hasTitle title n =
     (case n of
        CallExpression _ _ args \<Rightarrow>
          (case args of
             [] \<Rightarrow> Inl (TypeError ''Cannot read properties of undefined'')
           | a # _ \<Rightarrow> (case a of Literal _ v \<Rightarrow> Inr (v = title) | _ \<Rightarrow> Inr False))
      | _ \<Rightarrow> Inr False)"

definition keyHasTitle :: "jsval \<Rightarrow> mkey \<Rightarrow> error + bool" where
  "keyHasTitle title k = (case k of TOP_LEVEL_MODULE_NODE \<Rightarrow> Inr False | ModuleNode n \<Rightarrow> hasTitle title n)"

definition firstArgLine :: "node \<Rightarrow> string" where
  "firstArgLine n =
     (case n of
        CallExpression _ _ args \<Rightarrow>
          (case args of [] \<Rightarrow> [] | a # _ \<Rightarrow> nat_toString (loc_start_line a))
      | _ \<Rightarrow> [])"

definition duplicateReport :: "string \<Rightarrow> node \<Rightarrow> node \<Rightarrow> diagnostic" where
  "duplicateReport messageId nameArg duplicate =
     \<lparr>d_node = nameArg, d_messageId = messageId, d_data = [(''line'', firstArgLine duplicate)],
      d_fix = None, d_suggest = []\<rparr>"

definition handleTestNames :: "node \<Rightarrow> names_state \<Rightarrow> error + (names_state \<times> diagnostic list)" where
  "handleTestNames node s =
     (case node of
        CallExpression _ callee args \<Rightarrow>
          if \<not> isTest callee then Inr (s, [])
          else
            (case args of
               [] \<Rightarrow> Inr (s, [])
             | nameArg # _ \<Rightarrow>
                 (case nameArg of
                    Literal _ title \<Rightarrow>
                      (case getCurrentModuleNode s of
                         None \<Rightarrow> Inr (s, [])
                       | Some currentModuleNode \<Rightarrow>
                           (case map_of (mapModuleNodeToInfo s) currentModuleNode of
                              None \<Rightarrow> Inr (s, [])
                            | Some currentModuleInfo \<Rightarrow>
                                (case find_e (hasTitle title) (tests currentModuleInfo) of
                                   Inl e \<Rightarrow> Inl e
                                 | Inr duplicateTestTitle \<Rightarrow>
                                     Inr (s\<lparr>mapModuleNodeToInfo :=
                                              map_set (mapModuleNodeToInfo s) currentModuleNode
                                                (currentModuleInfo
                                                   \<lparr>tests := tests currentModuleInfo @ [node]\<rparr>)\<rparr>,
                                          (case duplicateTestTitle of
                                             None \<Rightarrow> []
                                           | Some d \<Rightarrow> [duplicateReport ''duplicateTest'' nameArg d])))))
                  | _ \<Rightarrow> Inr (s, [])))
      | _ \<Rightarrow> Inr (s, []))"

text \<open>The ancestors searched are the stack entries other than the top-level constant.\<close>

definition stackNodes :: "mkey list \<Rightarrow> node list" where
  "stackNodes stack =
     concat (map (\<lambda>k. case k of TOP_LEVEL_MODULE_NODE \<Rightarrow> [] | ModuleNode n \<Rightarrow> [n]) stack)"

definition handleModuleNames :: "node \<Rightarrow> names_state \<Rightarrow> error + (names_state \<times> diagnostic list)" where
  "handleModuleNames node s =
     (case node of
        CallExpression _ callee args \<Rightarrow>
          if \<not> isModule callee then Inr (s, [])
          else
            (case args of
               [] \<Rightarrow> Inr (s, [])
             | nameArg # _ \<Rightarrow>
                 (case nameArg of
                    Literal _ title \<Rightarrow>
                      (case stackTop (modulesStack s) of
                         None \<Rightarrow> Inr (s, [])
                       | Some currentModuleNode \<Rightarrow>
                           (case map_of (mapModuleNodeToInfo s) currentModuleNode of
                              None \<Rightarrow> Inr (s, [])
                            | Some currentModuleInfo \<Rightarrow>
                                (case find_e (hasTitle title) (modules currentModuleInfo) of
                                   Inl e \<Rightarrow> Inl e
                                 | Inr duplicateModuleTitle \<Rightarrow>
                                     (case find_e (hasTitle title) (stackNodes (modulesStack s)) of
                                        Inl e \<Rightarrow> Inl e
                                      | Inr duplicateAncestorModuleTitle \<Rightarrow>
                                          (let m1 = map_set (mapModuleNodeToInfo s) (ModuleNode node)
                                                      \<lparr>modules = [], tests = [], hasNestedTests = False\<rparr>;
                                               m2 = (if currentModuleNode = ModuleNode node then m1
                                                     else map_set m1 currentModuleNode
                                                            (currentModuleInfo
                                                               \<lparr>modules := modules currentModuleInfo @ [node]\<rparr>))
                                           in Inr (\<lparr>modulesStack = modulesStack s @ [ModuleNode node],
                                                    mapModuleNodeToInfo = m2\<rparr>,
                                                   (case duplicateModuleTitle of
                                                      None \<Rightarrow> []
                                                    | Some d \<Rightarrow> [duplicateReport ''duplicateModule'' nameArg d]) @
                                                   (case duplicateAncestorModuleTitle of
                                                      None \<Rightarrow> []
                                                    | Some d \<Rightarrow>
                                                        [duplicateReport ''duplicateModuleAncestor'' nameArg d])))))))
                  | _ \<Rightarrow> Inr (s, [])))
      | _ \<Rightarrow> Inr (s, []))"

definition names_CallExpression :: "node \<Rightarrow> names_state \<Rightarrow> error + (names_state \<times> diagnostic list)" where
  "names_CallExpression node s =
     (if \<not> isFirstArgLiteral node then Inr (s, [])
      else (case handleModuleNames node s of
              Inl e \<Rightarrow> Inl e
            | Inr (s1, d1) \<Rightarrow>
                (case handleTestNames node s1 of
                   Inl e \<Rightarrow> Inl e
                 | Inr (s2, d2) \<Rightarrow> Inr (s2, d1 @ d2))))"

definition names_CallExpression_exit :: "node \<Rightarrow> names_state \<Rightarrow> error + names_state" where
  "names_CallExpression_exit node s =
     (if length (modulesStack s) > 0 \<and> last (modulesStack s) = ModuleNode node then
        (case map_of (mapModuleNodeToInfo s) (ModuleNode node) of
           None \<Rightarrow> Inr (s\<lparr>modulesStack := butlast (modulesStack s)\<rparr>)
         | Some moduleInfo \<Rightarrow>
             (case moduleHasNestedTests (Suc (size node)) (mapModuleNodeToInfo s) (ModuleNode node) of
                Inl e \<Rightarrow> Inl e
              | Inr nested \<Rightarrow>
                  Inr \<lparr>modulesStack = butlast (modulesStack s),
                       mapModuleNodeToInfo =
                         map_set (mapModuleNodeToInfo s) (ModuleNode node)
                           (moduleInfo\<lparr>hasNestedTests := nested\<rparr>)\<rparr>))
      else Inr s)"

definition names_enter :: "names_state handler" where
  "names_enter ancestors node s =
     (case node of CallExpression _ _ _ \<Rightarrow> names_CallExpression node s | _ \<Rightarrow> Inr (s, []))"

definition names_exit :: "names_state handler" where
  "names_exit ancestors node s =
     (case node of
        CallExpression _ _ _ \<Rightarrow>
          (case names_CallExpression_exit node s of Inl e \<Rightarrow> Inl e | Inr s1 \<Rightarrow> Inr (s1, []))
      | _ \<Rightarrow> Inr (s, []))"

definition no_identical_names :: "node \<Rightarrow> error + (names_state \<times> diagnostic list)" where
  "no_identical_names program = traverse names_enter names_exit [] program names_initial"

text \<open>
  Two sibling modules of the same name inside a module of that name, on three lines:
  \<^verbatim>\<open>module('Same', function () {\<close> / \<^verbatim>\<open>module('Same');\<close> / \<^verbatim>\<open>module('Same'); });\<close>
\<close>

definition sameModule :: "nat \<Rightarrow> nat \<Rightarrow> node list \<Rightarrow> node" where
  "sameModule k line rest =
     CallExpression (k, line) (Identifier (k + 1, line) ''module'')
       (Literal (k + 2, line) (VStr ''Same'') # rest)"

definition sameNamesProgram :: node where
  "sameNamesProgram =
     Program (0, 1)
       [ExpressionStatement (1, 1)
          (sameModule 2 1
             [FunctionExpression (5, 1) []
                (BlockStatement (6, 1)
                   [ExpressionStatement (10, 2) (sameModule 11 2 []),
                    ExpressionStatement (20, 3) (sameModule 21 3 [])])])]"

text \<open>The diagnostics of a run, if it ended without an exception.\<close>

definition diagnostics :: "error + ('s \<times> diagnostic list) \<Rightarrow> diagnostic list option" where
  "diagnostics r = (case r of Inl e \<Rightarrow> None | Inr (s, ds) \<Rightarrow> Some ds)"

text \<open>A call that registers a test, for the rules that also name \<^verbatim>\<open>asyncTest\<close>
  on its own.\<close>

definition isTestRegistration :: "node \<Rightarrow> bool" where
  "isTestRegistration n =
     (case n of CallExpression _ callee _ \<Rightarrow> isTest callee \<or> isAsyncTest callee | _ \<Rightarrow> False)"

definition callArguments :: "node \<Rightarrow> node list" where
  "callArguments n = (case n of CallExpression _ _ args \<Rightarrow> args | _ \<Rightarrow> [])"

section \<open>The nodes of a tree\<close>

lemma member_size: "c \<in> set cs \<Longrightarrow> size c \<le> size_list size cs"
  by (induction cs) auto

lemma child_smaller: "c \<in> set (children n) \<Longrightarrow> size c < size n"
  by (cases n)
     (auto simp: optionChild_def less_Suc_eq_le trans_le_add1 trans_le_add2
        dest: member_size split: option.splits)

text \<open>All nodes of a tree, in the order in which the traversal enters them.\<close>

function allNodes :: "node \<Rightarrow> node list" where
  "allNodes n = n # concat (map allNodes (children n))"
  by pat_completeness auto
termination
  by (relation "measure size") (auto simp: child_smaller)

declare allNodes.simps [simp del]

text \<open>The identifier that an assignment or a declarator with an initial value binds
  directly, if its target is an identifier.\<close>

definition boundName :: "node \<Rightarrow> string option" where
  "boundName n =
     (case n of
        AssignmentExpression _ left _ \<Rightarrow> identifierName left
      | VariableDeclarator _ ident init \<Rightarrow>
          (case init of None \<Rightarrow> None | Some _ \<Rightarrow> identifierName ident)
      | _ \<Rightarrow> None)"

text \<open>The names recorded with the flag false in some frame, and the names that a
  diagnostic reports as not called.\<close>

definition pendingCallbacks :: "AsyncState list \<Rightarrow> string set" where
  "pendingCallbacks asyncStateStack =
     set (map fst (filter (\<lambda>kv. \<not> snd kv) (concat (map asyncCallbackVars asyncStateStack))))"

definition notCalledNames :: "diagnostic \<Rightarrow> string set" where
  "notCalledNames d =
     (if d_messageId d = ''asyncCallbackNotCalled'' then snd ` set (d_data d) else {})"

text \<open>
  A test that binds the result of \<^verbatim>\<open>assert.async()\<close> and never calls it:
  \<^verbatim>\<open>test('t', function (assert) { var done = assert.async(); });\<close>
\<close>

definition pendingCallbackTest :: node where
  "pendingCallbackTest =
     CallExpression (2, 1) (Identifier (3, 1) ''test'')
       [Literal (4, 1) (VStr ''t''),
        FunctionExpression (5, 1) [Identifier (6, 1) ''assert'']
          (BlockStatement (7, 1)
             [VariableDeclaration (8, 1)
                [VariableDeclarator (9, 1) (Identifier (10, 1) ''done'')
                   (Some (CallExpression (11, 1)
                      (MemberExpression (12, 1) (Identifier (13, 1) ''assert'')
                         (Identifier (14, 1) ''async'')) []))]])]"

definition pendingCallbackProgram :: node where
  "pendingCallbackProgram = Program (0, 1) [ExpressionStatement (1, 1) pendingCallbackTest]"

text \<open>A call whose callee is a bare identifier.\<close>

definition isBareCall :: "node \<Rightarrow> bool" where
  "isBareCall n = (case n of CallExpression _ callee _ \<Rightarrow> isIdentifierNode callee | _ \<Rightarrow> False)"

text \<open>
  A test that calls the global \<^verbatim>\<open>equal\<close>:
  \<^verbatim>\<open>test('t', function (assert) { equal(x, y); });\<close>
\<close>

definition globalEqualCall :: node where
  "globalEqualCall =
     CallExpression (10, 1) (Identifier (11, 1) ''equal'')
       [Identifier (12, 1) ''x'', Identifier (13, 1) ''y'']"

definition globalEqualProgram :: node where
  "globalEqualProgram =
     Program (0, 1)
       [ExpressionStatement (1, 1)
          (CallExpression (2, 1) (Identifier (3, 1) ''test'')
             [Literal (4, 1) (VStr ''t''),
              FunctionExpression (5, 1) [Identifier (6, 1) ''assert'']
                (BlockStatement (7, 1) [ExpressionStatement (8, 1) globalEqualCall])])]"

text \<open>The node of a diagnostic, if it is a call of a bare identifier.\<close>

definition bareNode :: "diagnostic \<Rightarrow> node set" where
  "bareNode d = (if isBareCall (d_node d) then {d_node d} else {})"


section \<open>Properties of literal-compare-order\<close>

lemma checkLiteralCompareOrder_two:
  "checkLiteralCompareOrder getText (a0 # a1 # rest) caf =
     Inr (if caf \<and> isLiteral a0 \<and> \<not> isLiteral a1 then
            [\<lparr>d_node = a0, d_messageId = ''actualFirst'',
              d_data = [(''expected'', getText a0), (''actual'', getText a1)],
              d_fix = Some [ReplaceText a0 (getText a1), ReplaceText a1 (getText a0)],
              d_suggest = []\<rparr>]
          else if \<not> caf \<and> \<not> isLiteral a0 \<and> isLiteral a1 then
            [\<lparr>d_node = a0, d_messageId = ''expectedFirst'',
              d_data = [(''expected'', getText a0), (''actual'', getText a1)],
              d_fix = Some [ReplaceText a0 (getText a1), ReplaceText a1 (getText a0)],
              d_suggest = []\<rparr>]
          else [])"
  by (simp add: checkLiteralCompareOrder_def compareOrderReport_def swapFirstTwoNodesInList_def)

text \<open>
  C5. A comparative assertion call with at least two arguments, visited inside a test
  frame: when the assertion compares the actual value first and the first argument is a
  literal while the second is not, the rule reports on the first argument and the fix
  replaces each of the two arguments by the text of the other; when the assertion compares
  the expected value first and the first argument is no literal while the second is one, it
  reports with the same fix; in every other case it reports nothing. The stack is left as it
  was. The second conjunct is the same statement for \<open>checkLiteralCompareOrder\<close> itself, at
  either convention.
\<close>

theorem literal_compare_order_swap:
  assumes "testStack \<noteq> []"
    and "\<not> isTest callee"
    and "getAssertionMetadata callee (last testStack) = Some m"
    and "compareActualFirst m = Some caf"
  shows "compare_order_CallExpression getText (CallExpression i callee (a0 # a1 # rest)) testStack =
           Inr (testStack,
             if caf \<and> isLiteral a0 \<and> \<not> isLiteral a1 then
               [\<lparr>d_node = a0, d_messageId = ''actualFirst'',
                 d_data = [(''expected'', getText a0), (''actual'', getText a1)],
                 d_fix = Some [ReplaceText a0 (getText a1), ReplaceText a1 (getText a0)],
                 d_suggest = []\<rparr>]
             else if \<not> caf \<and> \<not> isLiteral a0 \<and> isLiteral a1 then
               [\<lparr>d_node = a0, d_messageId = ''expectedFirst'',
                 d_data = [(''expected'', getText a0), (''actual'', getText a1)],
                 d_fix = Some [ReplaceText a0 (getText a1), ReplaceText a1 (getText a0)],
                 d_suggest = []\<rparr>]
             else [])
         \<and> checkLiteralCompareOrder getText (a0 # a1 # rest) c =
           Inr (if c \<and> isLiteral a0 \<and> \<not> isLiteral a1 then
                  [\<lparr>d_node = a0, d_messageId = ''actualFirst'',
                    d_data = [(''expected'', getText a0), (''actual'', getText a1)],
                    d_fix = Some [ReplaceText a0 (getText a1), ReplaceText a1 (getText a0)],
                    d_suggest = []\<rparr>]
                else if \<not> c \<and> \<not> isLiteral a0 \<and> isLiteral a1 then
                  [\<lparr>d_node = a0, d_messageId = ''expectedFirst'',
                    d_data = [(''expected'', getText a0), (''actual'', getText a1)],
                    d_fix = Some [ReplaceText a0 (getText a1), ReplaceText a1 (getText a0)],
                    d_suggest = []\<rparr>]
                else [])"
proof -
  have sc: "shouldCompareActualFirst callee (last testStack) = caf"
    using assms(3,4) by (simp add: shouldCompareActualFirst_def)
  have ic: "isComparativeAssertion callee (last testStack) = Inr True"
    using assms(3,4) by (simp add: isComparativeAssertion_def)
  have ia: "isAssertion callee (last testStack)"
    using assms(3) by (simp add: isAssertion_def)
  have "compare_order_CallExpression getText (CallExpression i callee (a0 # a1 # rest)) testStack =
          (case checkLiteralCompareOrder getText (a0 # a1 # rest) caf of
             Inl e \<Rightarrow> Inl e | Inr ds \<Rightarrow> Inr (testStack, ds))"
    using assms(1,2) sc ic ia
    by (simp add: compare_order_CallExpression_def getAssertContext_def processAssertion_def)
  then show ?thesis
    by (simp only: checkLiteralCompareOrder_two sum.case simp_thms)
qed

theorem literal_compare_order_swap_witness:
  "compare_order_CallExpression canonicalText
     (CallExpression (1, 1)
        (MemberExpression (2, 1) (Identifier (3, 1) ''assert'') (Identifier (4, 1) ''equal''))
        [Literal (5, 1) (VNum 1), Identifier (6, 1) ''x''])
     [Some ''assert''] =
   Inr ([Some ''assert''],
        [\<lparr>d_node = Literal (5, 1) (VNum 1), d_messageId = ''actualFirst'',
          d_data = [(''expected'', ''1''), (''actual'', ''x'')],
          d_fix = Some [ReplaceText (Literal (5, 1) (VNum 1)) ''x'',
                        ReplaceText (Identifier (6, 1) ''x'') ''1''],
          d_suggest = []\<rparr>])"
  using literal_compare_order_swap [of "[Some ''assert'']"
      "MemberExpression (2, 1) (Identifier (3, 1) ''assert'') (Identifier (4, 1) ''equal'')"
      "\<lparr>allowedArities = [2], compareActualFirst = Some True\<rparr>" True canonicalText "(1, 1)"
      "Literal (5, 1) (VNum 1)" "Identifier (6, 1) ''x''" "[]" True]
  by (simp add: isTest_def isQUnitMember_def isIdentifierNamed_def getAssertionMetadata_def
      ASSERTION_METADATA_def isLiteral_def nat_toString.simps)

section \<open>Properties of no-assert-equal-boolean\<close>

lemma isEqualityAssertion_not_test:
  assumes "isEqualityAssertion callee testStack = Inr True"
  shows "\<not> isTest callee \<and> \<not> isAsyncTest callee"
  using assms
  by (auto simp: isEqualityAssertion_def isGlobalEqualityAssertion_def isAssertEquality_def
      isTest_def isAsyncTest_def isQUnitMember_def isIdentifierIn_def isIdentifierNamed_def
      EQUALITY_ASSERTIONS_def SUPPORTED_TEST_IDENTIFIERS_def
      split: node.splits if_splits sum.splits)

lemma isEqualityAssertion_prefix:
  assumes "testStack \<noteq> []" and "isEqualityAssertion callee testStack = Inr True"
  shows "(case callee of
            Identifier _ _ \<Rightarrow> Inr []
          | _ \<Rightarrow> (case getCurrentAssertContextVariable testStack of
                     Inl e \<Rightarrow> Inl e
                   | Inr assertVar \<Rightarrow> Inr (templateText assertVar @ ''.''))) =
         (Inr (calleePrefix callee) :: error + string)"
  using assms
  by (auto simp: calleePrefix_def isEqualityAssertion_def isGlobalEqualityAssertion_def isAssertEquality_def
      isIdentifierIn_def getCurrentAssertContextVariable_def templateText_def
      split: node.splits if_splits sum.splits)

theorem equal_boolean_both_literals_fixed:
  "equal_boolean_CallExpression canonicalText
     (CallExpression (1, 1)
        (MemberExpression (2, 1) (Identifier (3, 1) ''assert'') (Identifier (4, 1) ''equal''))
        [Literal (5, 1) (VBool True), Literal (6, 1) (VBool False)])
     [Some ''assert''] =
   Inr ([Some ''assert''],
        [\<lparr>d_node = CallExpression (1, 1)
             (MemberExpression (2, 1) (Identifier (3, 1) ''assert'') (Identifier (4, 1) ''equal''))
             [Literal (5, 1) (VBool True), Literal (6, 1) (VBool False)],
          d_messageId = ''useAssertTrueOrFalse'', d_data = [],
          d_fix = Some [ReplaceText (CallExpression (1, 1)
             (MemberExpression (2, 1) (Identifier (3, 1) ''assert'') (Identifier (4, 1) ''equal''))
             [Literal (5, 1) (VBool True), Literal (6, 1) (VBool False)]) ''assert.true(false)''],
          d_suggest = []\<rparr>])"
  by (simp add: equal_boolean_CallExpression_def isTest_def isAsyncTest_def isQUnitMember_def
      isIdentifierNamed_def isIdentifierIn_def isEqualityAssertion_def
      isGlobalEqualityAssertion_def isAssertEquality_def EQUALITY_ASSERTIONS_def
      getCurrentAssertContextVariable_def getBooleanArgument_def isBooleanLiteral_def
      equal_boolean_reportError_def equal_boolean_fix_def templateText_def)


lemma getBooleanArgument_call:
  "getBooleanArgument (CallExpression i callee args) =
     (case args of
        a0 # a1 # _ \<Rightarrow> if isBooleanLiteral a0 then Some a0
                      else if isBooleanLiteral a1 then Some a1 else None
      | _ \<Rightarrow> None)"
  by (simp add: getBooleanArgument_def split: list.splits)

lemma isBooleanLiteral_cases:
  "isBooleanLiteral a \<Longrightarrow> \<exists>j b. a = Literal j (VBool b)"
  by (auto simp: isBooleanLiteral_def split: node.splits jsval.splits)

lemma equal_boolean_fix_some:
  assumes "testStack \<noteq> []" and "isEqualityAssertion callee testStack = Inr True"
    and "getBooleanArgument (CallExpression i callee args) = Some (Literal j (VBool b))"
  shows "equal_boolean_fix getText (CallExpression i callee args) testStack =
           Inr (Some [ReplaceText (CallExpression i callee args)
                  (calleePrefix callee @ (if b then ''true'' else ''false'') @ ''('' @
                   join '', '' (map getText (filter (\<lambda>arg. arg \<noteq> Literal j (VBool b)) args)) @
                   '')'')])"
  using assms(3) isEqualityAssertion_prefix [OF assms(1,2)]
  by (simp add: equal_boolean_fix_def)

text \<open>
  C2, as amended. An equality-assertion call visited inside a test frame is reported
  exactly when one of its first two arguments is a boolean literal, and every reported call
  carries a fix that replaces the call, also when both arguments are boolean literals. The
  fix function returns no rewrite only for a call with fewer than two arguments or with no
  boolean literal among the first two, and such a call is not reported.
\<close>

theorem equal_boolean_fix_when_reported:
  assumes "testStack \<noteq> []" and "isEqualityAssertion callee testStack = Inr True"
  shows "if (case args of a0 # a1 # _ \<Rightarrow> isBooleanLiteral a0 \<or> isBooleanLiteral a1 | _ \<Rightarrow> False)
         then \<exists>text.
                equal_boolean_fix getText (CallExpression i callee args) testStack =
                  Inr (Some [ReplaceText (CallExpression i callee args) text]) \<and>
                equal_boolean_CallExpression getText (CallExpression i callee args) testStack =
                  Inr (testStack,
                       [\<lparr>d_node = CallExpression i callee args,
                         d_messageId = ''useAssertTrueOrFalse'', d_data = [],
                         d_fix = Some [ReplaceText (CallExpression i callee args) text],
                         d_suggest = []\<rparr>])
         else equal_boolean_fix getText (CallExpression i callee args) testStack = Inr None \<and>
              equal_boolean_CallExpression getText (CallExpression i callee args) testStack =
                Inr (testStack, [])"
proof -
  let ?node = "CallExpression i callee args"
  note nt = isEqualityAssertion_not_test [OF assms(2)]
  show ?thesis
  proof (cases "getBooleanArgument ?node")
    case None
    then have "\<not> (case args of a0 # a1 # _ \<Rightarrow> isBooleanLiteral a0 \<or> isBooleanLiteral a1 | _ \<Rightarrow> False)"
      by (auto simp: getBooleanArgument_call split: list.splits if_splits)
    moreover have "equal_boolean_fix getText ?node testStack = Inr None"
      using None by (simp add: equal_boolean_fix_def)
    moreover have "equal_boolean_CallExpression getText ?node testStack = Inr (testStack, [])"
      using None nt assms by (simp add: equal_boolean_CallExpression_def)
    ultimately show ?thesis by simp
  next
    case (Some a)
    then have lit: "isBooleanLiteral a"
      by (auto simp: getBooleanArgument_call split: list.splits if_splits)
    then obtain j b where a: "a = Literal j (VBool b)"
      using isBooleanLiteral_cases by blast
    have c: "(case args of a0 # a1 # _ \<Rightarrow> isBooleanLiteral a0 \<or> isBooleanLiteral a1 | _ \<Rightarrow> False)"
      using Some by (auto simp: getBooleanArgument_call split: list.splits if_splits)
    note fx = equal_boolean_fix_some [OF assms, of i args j b getText] 
    have f: "equal_boolean_fix getText ?node testStack =
               Inr (Some [ReplaceText ?node
                  (calleePrefix callee @ (if b then ''true'' else ''false'') @ ''('' @
                   join '', '' (map getText (filter (\<lambda>arg. arg \<noteq> Literal j (VBool b)) args)) @
                   '')'')])"
      using fx Some a by simp
    have h: "equal_boolean_CallExpression getText ?node testStack =
               Inr (testStack,
                    [\<lparr>d_node = ?node, d_messageId = ''useAssertTrueOrFalse'', d_data = [],
                      d_fix = Some [ReplaceText ?node
                        (calleePrefix callee @ (if b then ''true'' else ''false'') @ ''('' @
                         join '', '' (map getText (filter (\<lambda>arg. arg \<noteq> Literal j (VBool b)) args)) @
                         '')'')],
                      d_suggest = []\<rparr>])"
      using Some nt assms f
      by (simp add: equal_boolean_CallExpression_def equal_boolean_reportError_def)
    show ?thesis using c f h by simp
  qed
qed

theorem equal_boolean_fix_when_reported_witness:
  "\<exists>text.
     equal_boolean_fix canonicalText
       (CallExpression (1, 1) (Identifier (2, 1) ''strictEqual'')
          [Identifier (3, 1) ''x'', Literal (4, 1) (VBool False)]) [None] =
       Inr (Some [ReplaceText (CallExpression (1, 1) (Identifier (2, 1) ''strictEqual'')
          [Identifier (3, 1) ''x'', Literal (4, 1) (VBool False)]) text]) \<and>
     equal_boolean_CallExpression canonicalText
       (CallExpression (1, 1) (Identifier (2, 1) ''strictEqual'')
          [Identifier (3, 1) ''x'', Literal (4, 1) (VBool False)]) [None] =
       Inr ([None],
            [\<lparr>d_node = CallExpression (1, 1) (Identifier (2, 1) ''strictEqual'')
                 [Identifier (3, 1) ''x'', Literal (4, 1) (VBool False)],
              d_messageId = ''useAssertTrueOrFalse'', d_data = [],
              d_fix = Some [ReplaceText (CallExpression (1, 1) (Identifier (2, 1) ''strictEqual'')
                 [Identifier (3, 1) ''x'', Literal (4, 1) (VBool False)]) text],
              d_suggest = []\<rparr>])"
  using equal_boolean_fix_when_reported [of "[None]" "Identifier (2, 1) ''strictEqual''"
      "[Identifier (3, 1) ''x'', Literal (4, 1) (VBool False)]" canonicalText "(1, 1)"]
  by (simp add: isEqualityAssertion_def isGlobalEqualityAssertion_def isIdentifierIn_def
      EQUALITY_ASSERTIONS_def isBooleanLiteral_def)

text \<open>
  C3. An equality-assertion call visited inside a test frame, whose first two arguments
  are one boolean literal and one argument that is no boolean literal, in either order: the
  rule reports it with a fix that replaces the call by the text made of the prefix of the
  call (empty for a bare call, the assert variable and a dot for a member call),
  \<^verbatim>\<open>true\<close> or \<^verbatim>\<open>false\<close> after the literal's value, and in parentheses the texts of
  the arguments other than the literal, in their order, joined by a comma and a space.
\<close>

theorem equal_boolean_fix_output:
  assumes "testStack \<noteq> []" and "isEqualityAssertion callee testStack = Inr True"
    and "\<not> isBooleanLiteral other" and "distinct args"
    and "args = Literal j (VBool b) # other # rest \<or> args = other # Literal j (VBool b) # rest"
  shows "equal_boolean_CallExpression getText (CallExpression i callee args) testStack =
           Inr (testStack,
                [\<lparr>d_node = CallExpression i callee args,
                  d_messageId = ''useAssertTrueOrFalse'', d_data = [],
                  d_fix = Some [ReplaceText (CallExpression i callee args)
                    (calleePrefix callee @ (if b then ''true'' else ''false'') @ ''('' @
                     join '', '' (map getText (other # rest)) @ '')'')],
                  d_suggest = []\<rparr>])"
proof -
  let ?node = "CallExpression i callee args"
  let ?lit = "Literal j (VBool b)"
  note nt = isEqualityAssertion_not_test [OF assms(2)]
  have bl: "isBooleanLiteral ?lit" by (simp add: isBooleanLiteral_def)
  have g: "getBooleanArgument ?node = Some ?lit"
    using assms(3,5) bl by (auto simp: getBooleanArgument_call)
  have "filter (\<lambda>arg. arg \<noteq> ?lit) args = other # rest"
    using assms(4,5) by (auto simp: filter_id_conv)
  then have f: "equal_boolean_fix getText ?node testStack =
               Inr (Some [ReplaceText ?node
                  (calleePrefix callee @ (if b then ''true'' else ''false'') @ ''('' @
                   join '', '' (map getText (other # rest)) @ '')'')])"
    using equal_boolean_fix_some [OF assms(1,2) g, of getText] by simp
  show ?thesis
    using g nt assms(1,2) f
    by (simp add: equal_boolean_CallExpression_def equal_boolean_reportError_def)
qed

theorem equal_boolean_fix_output_witness:
  "equal_boolean_CallExpression canonicalText
     (CallExpression (1, 1)
        (MemberExpression (2, 1) (Identifier (3, 1) ''assert'') (Identifier (4, 1) ''equal''))
        [Identifier (5, 1) ''a'', Literal (6, 1) (VBool True), Literal (7, 1) (VStr ''msg'')])
     [Some ''assert''] =
   Inr ([Some ''assert''],
        [\<lparr>d_node = CallExpression (1, 1)
             (MemberExpression (2, 1) (Identifier (3, 1) ''assert'') (Identifier (4, 1) ''equal''))
             [Identifier (5, 1) ''a'', Literal (6, 1) (VBool True), Literal (7, 1) (VStr ''msg'')],
          d_messageId = ''useAssertTrueOrFalse'', d_data = [],
          d_fix = Some [ReplaceText (CallExpression (1, 1)
             (MemberExpression (2, 1) (Identifier (3, 1) ''assert'') (Identifier (4, 1) ''equal''))
             [Identifier (5, 1) ''a'', Literal (6, 1) (VBool True), Literal (7, 1) (VStr ''msg'')])
             (''assert.true(a, '' @ [CHR 0x27] @ ''msg'' @ [CHR 0x27] @ '')'')],
          d_suggest = []\<rparr>])"
  using equal_boolean_fix_output [of "[Some ''assert'']"
      "MemberExpression (2, 1) (Identifier (3, 1) ''assert'') (Identifier (4, 1) ''equal'')"
      "Identifier (5, 1) ''a''"
      "[Identifier (5, 1) ''a'', Literal (6, 1) (VBool True), Literal (7, 1) (VStr ''msg'')]"
      "(6, 1)" True "[Literal (7, 1) (VStr ''msg'')]" canonicalText "(1, 1)"]
  by (simp add: isEqualityAssertion_def isGlobalEqualityAssertion_def isAssertEquality_def
      isIdentifierIn_def EQUALITY_ASSERTIONS_def getCurrentAssertContextVariable_def
      isBooleanLiteral_def calleePrefix_def)

section \<open>Properties of no-negated-ok\<close>

lemma getNegationDepth_wrapNot:
  "getNegationDepth (wrapNot ns x) = length ns + getNegationDepth x"
  by (induction ns) simp_all

lemma unwrapNegation_wrapNot:
  "unwrapNegation (wrapNot ns x) = unwrapNegation x"
  by (induction ns) simp_all

lemma not_negation_depth:
  "\<not> isNegation x \<Longrightarrow> getNegationDepth x = 0 \<and> unwrapNegation x = x"
  by (cases x) (simp_all add: isNegation_def)

theorem negated_ok_bare_call_not_reported:
  "isAssertion (Identifier (2, 1) ''ok'') (Some ''assert'') \<and>
   getNegationDepth (UnaryExpression (3, 1) ''!'' (Identifier (4, 1) ''foo'')) = 1 \<and>
   negated_ok_CallExpression canonicalText
     (CallExpression (1, 1) (Identifier (2, 1) ''ok'')
        [UnaryExpression (3, 1) ''!'' (Identifier (4, 1) ''foo'')])
     [Some ''assert''] = ([Some ''assert''], [])"
  by (simp add: isAssertion_def getAssertionMetadata_def ASSERTION_METADATA_def
      negated_ok_CallExpression_def isTest_def isQUnitMember_def SUPPORTED_TEST_IDENTIFIERS_def
      negated_ok_isAssertion_def getAssertVar_def isOkOrNotOk_def)

text \<open>
  C4, as amended. A call of \<^verbatim>\<open>ok\<close>, \<^verbatim>\<open>notOk\<close>, \<^verbatim>\<open>true\<close> or \<^verbatim>\<open>false\<close>
  made as a member of the assert variable bound by the innermost test frame, whose first
  argument is a value \<open>x\<close>, itself no negation, under a chain of \<^verbatim>\<open>!\<close> operators: when
  the chain has odd length the rule reports the call, with a fix that replaces it by the
  opposite assertion (ok and notOk, true and false exchanged) on the same variable, applied
  to the text of \<open>x\<close> followed by the texts of the other arguments; when the chain has even
  length, zero included, it reports nothing. A bare call (without the assert variable) is
  not examined.
\<close>

theorem negated_ok_reports_odd:
  assumes "asyncStateStack \<noteq> []" and "last asyncStateStack = Some v" and "v \<noteq> []"
    and "p = ''ok'' \<or> p = ''notOk'' \<or> p = ''true'' \<or> p = ''false''"
    and "\<not> isNegation x"
  shows "negated_ok_CallExpression getText
           (CallExpression i (MemberExpression k (Identifier k1 v) (Identifier k2 p))
              (wrapNot ns x # rest))
           asyncStateStack =
         (asyncStateStack,
          if odd (length ns) then
            [\<lparr>d_node = CallExpression i (MemberExpression k (Identifier k1 v) (Identifier k2 p))
                 (wrapNot ns x # rest),
              d_messageId = ''noNegationInOk'',
              d_data = [(''callee'', getText (MemberExpression k (Identifier k1 v) (Identifier k2 p)))],
              d_fix = Some [ReplaceText
                 (CallExpression i (MemberExpression k (Identifier k1 v) (Identifier k2 p))
                    (wrapNot ns x # rest))
                 (v @ ''.'' @
                  (if p = ''ok'' then ''notOk'' else if p = ''notOk'' then ''ok''
                   else if p = ''true'' then ''false'' else ''true'') @
                  ''('' @ join '', '' (map getText (x # rest)) @ '')'')],
              d_suggest = []\<rparr>]
          else [])"
proof -
  let ?callee = "MemberExpression k (Identifier k1 v) (Identifier k2 p)"
  have nt: "\<not> isTest ?callee"
    using assms(4)
    by (auto simp: isTest_def isQUnitMember_def isIdentifierIn_def SUPPORTED_TEST_IDENTIFIERS_def)
  have ia: "negated_ok_isAssertion ?callee asyncStateStack"
    using assms(1-4)
    by (auto simp: negated_ok_isAssertion_def getAssertVar_def isAssertion_def
        getAssertionMetadata_def ASSERTION_METADATA_def)
  have ok: "isOkOrNotOk ?callee asyncStateStack"
    using assms(1,2,4)
    by (auto simp: isOkOrNotOk_def getAssertVar_def isIdentifierIn_def ASSERTIONS_TO_CHECK_def)
  have d: "getNegationDepth (wrapNot ns x) = length ns"
    using assms(5) by (simp add: getNegationDepth_wrapNot not_negation_depth)
  have u: "unwrapNegation (wrapNot ns x) = x"
    using assms(5) by (simp add: unwrapNegation_wrapNot not_negation_depth)
  have f: "negated_ok_fix getText (CallExpression i ?callee (wrapNot ns x # rest)) =
             Some [ReplaceText (CallExpression i ?callee (wrapNot ns x # rest))
                 (v @ ''.'' @
                  (if p = ''ok'' then ''notOk'' else if p = ''notOk'' then ''ok''
                   else if p = ''true'' then ''false'' else ''true'') @
                  ''('' @ join '', '' (map getText (x # rest)) @ '')'')]"
    using assms(4) u by (auto simp: negated_ok_fix_def ASSERTION_OPPOSITES_def)
  show ?thesis
    using nt ia ok d f
    by (simp add: negated_ok_CallExpression_def checkForNegation_def odd_iff_mod_2_eq_one)
qed

theorem negated_ok_reports_odd_witness:
  "negated_ok_CallExpression canonicalText
     (CallExpression (1, 1)
        (MemberExpression (2, 1) (Identifier (3, 1) ''assert'') (Identifier (4, 1) ''notOk''))
        [UnaryExpression (5, 1) ''!''
           (UnaryExpression (6, 1) ''!'' (UnaryExpression (7, 1) ''!'' (Identifier (8, 1) ''foo''))),
         Literal (9, 1) (VNum 7)])
     [Some ''assert''] =
   ([Some ''assert''],
    [\<lparr>d_node = CallExpression (1, 1)
         (MemberExpression (2, 1) (Identifier (3, 1) ''assert'') (Identifier (4, 1) ''notOk''))
         [UnaryExpression (5, 1) ''!''
            (UnaryExpression (6, 1) ''!'' (UnaryExpression (7, 1) ''!'' (Identifier (8, 1) ''foo''))),
          Literal (9, 1) (VNum 7)],
      d_messageId = ''noNegationInOk'',
      d_data = [(''callee'', ''assert.notOk'')],
      d_fix = Some [ReplaceText (CallExpression (1, 1)
         (MemberExpression (2, 1) (Identifier (3, 1) ''assert'') (Identifier (4, 1) ''notOk''))
         [UnaryExpression (5, 1) ''!''
            (UnaryExpression (6, 1) ''!'' (UnaryExpression (7, 1) ''!'' (Identifier (8, 1) ''foo''))),
          Literal (9, 1) (VNum 7)]) ''assert.ok(foo, 7)''],
      d_suggest = []\<rparr>])"
  using negated_ok_reports_odd [of "[Some ''assert'']" "''assert''" "''notOk''"
      "Identifier (8, 1) ''foo''" canonicalText "(1, 1)" "(2, 1)" "(3, 1)" "(4, 1)"
      "[(5, 1), (6, 1), (7, 1)]" "[Literal (9, 1) (VNum 7)]"]
  by (simp add: isNegation_def nat_toString.simps)


section \<open>Properties of resolve-async\<close>

lemma isQUnitMember_cases:
  assumes "isQUnitMember c names"
  shows "(\<exists>i n. c = Identifier i n \<and> n \<in> set names) \<or>
         (\<exists>i j k n. c = MemberExpression i (Identifier j ''QUnit'') (Identifier k n) \<and> n \<in> set names)"
  using assms
  by (auto simp: isQUnitMember_def isIdentifierNamed_def isIdentifierIn_def split: node.splits)

lemma resolve_async_enter_other:
  assumes "\<not> (\<exists>i c a. n = CallExpression i c a)" and "\<not> (\<exists>i k v. n = Property i k v)"
    and "\<not> (\<exists>i l r. n = AssignmentExpression i l r)" and "\<not> (\<exists>i d x. n = VariableDeclarator i d x)"
  shows "resolve_async_enter anc n s = Inr (s, [])"
  using assms
  by (cases n)
     (simp_all add: resolve_async_enter_def resolve_async_CallExpression_def
        resolve_async_Property_def resolve_async_AssignmentExpression_def
        resolve_async_VariableDeclarator_def)

lemma resolve_async_exit_other:
  assumes "\<not> (\<exists>i c a. n = CallExpression i c a)" and "\<not> (\<exists>i k v. n = Property i k v)"
  shows "resolve_async_exit anc n s = Inr (s, [])"
  using assms by (cases n) (simp_all add: resolve_async_exit_def)

lemma resolve_async_traverse_callee:
  assumes "isQUnitMember c names"
  shows "traverse resolve_async_enter resolve_async_exit anc c s = Inr (s, [])"
  using isQUnitMember_cases [OF assms]
  by (auto simp: traverse.simps resolve_async_enter_other resolve_async_exit_other)

lemma resolve_async_traverse_identifiers:
  assumes "list_all isIdentifierNode ps"
  shows "traverse_list resolve_async_enter resolve_async_exit anc ps s = Inr (s, [])"
  using assms
proof (induction ps)
  case Nil
  show ?case by simp
next
  case (Cons p ps)
  then obtain i n where "p = Identifier i n"
    by (cases p) (simp_all add: isIdentifierNode_def)
  with Cons show ?case
    by (simp add: traverse.simps resolve_async_enter_other resolve_async_exit_other)
qed

lemma isStop_not_test: "isStop c \<Longrightarrow> \<not> isTest c"
  by (auto simp: isStop_def isTest_def SUPPORTED_TEST_IDENTIFIERS_def dest!: isQUnitMember_cases)

lemma isStart_not_test: "isStart c \<Longrightarrow> \<not> isTest c \<and> \<not> isStop c"
  by (auto simp: isStart_def isStop_def isTest_def SUPPORTED_TEST_IDENTIFIERS_def dest!: isQUnitMember_cases)

lemma stop_call_step:
  assumes "st \<noteq> []" and "isStop c" and "getAsyncCallbackVarOrNull c st = None"
  shows "resolve_async_CallExpression (CallExpression i c []) st =
           butlast st @
           [(last st)\<lparr>stopSemaphoreCount := jsnum_add (stopSemaphoreCount (last st)) (Num 1)\<rparr>]"
  using assms isStop_not_test [OF assms(2)]
  by (simp add: resolve_async_CallExpression_def stopOrStart_def incrementSemaphoreCount_def
      semaphoreDelta_def)

lemma start_call_step:
  assumes "st \<noteq> []" and "isStart c" and "getAsyncCallbackVarOrNull c st = None"
  shows "resolve_async_CallExpression (CallExpression i c []) st =
           butlast st @
           [(last st)\<lparr>stopSemaphoreCount := jsnum_add (stopSemaphoreCount (last st)) (Num (- 1))\<rparr>]"
  using assms isStart_not_test [OF assms(2)]
  by (simp add: resolve_async_CallExpression_def stopOrStart_def incrementSemaphoreCount_def
      semaphoreDelta_def)

lemma test_call_enter:
  assumes "isTest callee"
  shows "resolve_async_CallExpression (CallExpression i callee args) st =
           st @ [\<lparr>stopSemaphoreCount = (if isAsyncTest callee then Num 1 else Num 0),
                  asyncCallbackVars = [],
                  assertContextVar = getAssertContextNameForTest args\<rparr>]"
  using assms by (simp add: resolve_async_CallExpression_def)

lemma test_call_exit:
  assumes "isTest callee" and "st \<noteq> []"
  shows "resolve_async_CallExpression_exit (CallExpression i callee args) st =
           (butlast st, verifyAsyncState (last st) (CallExpression i callee args))"
  using assms by (simp add: resolve_async_CallExpression_exit_def)

lemma needMoreStartCalls_filter:
  "filter (\<lambda>d. d_messageId d = ''needMoreStartCalls'') (verifyAsyncState a node) =
     needMoreStartCalls a node"
proof -
  have "filter (\<lambda>d. d_messageId d = ''needMoreStartCalls'')
          (concat (map (asyncCallbackNotCalled node) vs)) = []" for vs
    by (induction vs) (simp_all add: asyncCallbackNotCalled_def)
  then show ?thesis
    by (simp add: verifyAsyncState_def needMoreStartCalls_def)
qed

lemma fresh_frame_callee:
  assumes "isStop c \<or> isStart c" and "s \<noteq> []" and "asyncCallbackVars (last s) = []"
  shows "getAsyncCallbackVarOrNull c s = None"
  using assms
  by (auto simp: isStop_def isStart_def getAsyncCallbackVarOrNull_def js_in_def
      Object_prototype_names_def isIdentifierIn_def dest!: isQUnitMember_cases)

lemma resolve_async_traverse_identifiers_append:
  assumes "list_all isIdentifierNode ps"
  shows "traverse_list resolve_async_enter resolve_async_exit anc (ps @ rest) s =
         traverse_list resolve_async_enter resolve_async_exit anc rest s"
  using assms
proof (induction ps)
  case Nil
  show ?case by simp
next
  case (Cons p ps)
  then obtain i n where "p = Identifier i n"
    by (cases p) (simp_all add: isIdentifierNode_def)
  with Cons show ?case
    by (simp add: traverse.simps resolve_async_enter_other resolve_async_exit_other
        split: sum.splits prod.splits)
qed

lemma resolve_async_traverse_stop:
  assumes "st \<noteq> []" and "isStop c" and "getAsyncCallbackVarOrNull c st = None"
  shows "traverse resolve_async_enter resolve_async_exit anc (CallExpression i c []) st =
           Inr (butlast st @
             [(last st)\<lparr>stopSemaphoreCount := jsnum_add (stopSemaphoreCount (last st)) (Num 1)\<rparr>], [])"
proof -
  have c: "isQUnitMember c [''stop'']" using assms(2) by (simp add: isStop_def)
  have e: "resolve_async_enter anc (CallExpression i c []) st =
            Inr (butlast st @
             [(last st)\<lparr>stopSemaphoreCount := jsnum_add (stopSemaphoreCount (last st)) (Num 1)\<rparr>], [])"
    using stop_call_step [OF assms, of i]
    by (simp add: resolve_async_enter_def resolve_async_Property_def
        resolve_async_AssignmentExpression_def resolve_async_VariableDeclarator_def)
  have x: "resolve_async_exit anc (CallExpression i c []) s = Inr (s, [])" for s
    using isStop_not_test [OF assms(2)]
    by (simp add: resolve_async_exit_def resolve_async_CallExpression_exit_def)
  show ?thesis
    by (simp add: traverse.simps [of _ _ _ "CallExpression i c []"] e x
        resolve_async_traverse_callee [OF c])
qed

lemma resolve_async_traverse_start:
  assumes "st \<noteq> []" and "isStart c" and "getAsyncCallbackVarOrNull c st = None"
  shows "traverse resolve_async_enter resolve_async_exit anc (CallExpression i c []) st =
           Inr (butlast st @
             [(last st)\<lparr>stopSemaphoreCount := jsnum_add (stopSemaphoreCount (last st)) (Num (- 1))\<rparr>], [])"
proof -
  have c: "isQUnitMember c [''start'']" using assms(2) by (simp add: isStart_def)
  have e: "resolve_async_enter anc (CallExpression i c []) st =
            Inr (butlast st @
             [(last st)\<lparr>stopSemaphoreCount := jsnum_add (stopSemaphoreCount (last st)) (Num (- 1))\<rparr>], [])"
    using start_call_step [OF assms, of i]
    by (simp add: resolve_async_enter_def resolve_async_Property_def
        resolve_async_AssignmentExpression_def resolve_async_VariableDeclarator_def)
  have x: "resolve_async_exit anc (CallExpression i c []) s = Inr (s, [])" for s
    using isStart_not_test [OF assms(2)]
    by (simp add: resolve_async_exit_def resolve_async_CallExpression_exit_def)
  show ?thesis
    by (simp add: traverse.simps [of _ _ _ "CallExpression i c []"] e x
        resolve_async_traverse_callee [OF c])
qed

lemma resolve_async_traverse_statement:
  "traverse resolve_async_enter resolve_async_exit anc (ExpressionStatement i x) s =
     (case traverse resolve_async_enter resolve_async_exit (ExpressionStatement i x # anc) x s of
        Inl e \<Rightarrow> Inl e | Inr (s1, d1) \<Rightarrow> Inr (s1, d1))"
  by (simp add: traverse.simps [of _ _ _ "ExpressionStatement i x"]
      resolve_async_enter_other resolve_async_exit_other split: sum.splits)

lemma stop_start_body:
  assumes "st \<noteq> []" and "asyncCallbackVars (last st) = []"
    and "stopSemaphoreCount (last st) = Num k"
    and "isStop stopCallee" and "isStart startCallee"
  shows "traverse resolve_async_enter resolve_async_exit anc
           (BlockStatement b
              [ExpressionStatement e1 (CallExpression c1 stopCallee []),
               ExpressionStatement e2 (CallExpression c2 startCallee [])]) st = Inr (st, [])"
proof -
  let ?st1 = "butlast st @ [(last st)\<lparr>stopSemaphoreCount := Num (k + 1)\<rparr>]"
  have g0: "getAsyncCallbackVarOrNull stopCallee st = None"
    using fresh_frame_callee assms by blast
  have s1: "traverse resolve_async_enter resolve_async_exit a (CallExpression c1 stopCallee []) st =
              Inr (?st1, [])" for a
    using resolve_async_traverse_stop [OF assms(1,4) g0] assms(3) by simp
  have g1: "getAsyncCallbackVarOrNull startCallee ?st1 = None"
    using fresh_frame_callee [of startCallee ?st1] assms by simp
  have r: "(last st)\<lparr>stopSemaphoreCount := Num k\<rparr> = last st"
    by (simp add: assms(3) [symmetric])
  have "butlast ?st1 @ [(last ?st1)\<lparr>stopSemaphoreCount :=
          jsnum_add (stopSemaphoreCount (last ?st1)) (Num (- 1))\<rparr>] = st"
    using assms(1) r by simp
  then have s2: "traverse resolve_async_enter resolve_async_exit a (CallExpression c2 startCallee []) ?st1 =
              Inr (st, [])" for a
    using resolve_async_traverse_start [OF _ assms(5) g1, of a c2] by simp
  show ?thesis
    by (simp add: traverse.simps [of _ _ _ "BlockStatement b _"] resolve_async_enter_other
        resolve_async_exit_other resolve_async_traverse_statement s1 s2)
qed


lemma resolve_async_enter_call:
  "resolve_async_enter anc (CallExpression i c a) st =
     Inr (resolve_async_CallExpression (CallExpression i c a) st, [])"
  by (simp add: resolve_async_enter_def resolve_async_Property_def
      resolve_async_AssignmentExpression_def resolve_async_VariableDeclarator_def)

lemma resolve_async_traverse_literal:
  assumes "isLiteral n"
  shows "traverse resolve_async_enter resolve_async_exit anc n s = Inr (s, [])"
  using assms
  by (cases n) (simp_all add: isLiteral_def traverse.simps resolve_async_enter_other
      resolve_async_exit_other)

lemma stop_start_frame:
  assumes "isTest callee" and "\<not> isAsyncTest callee"
    and "isStop stopCallee" and "isStart startCallee"
    and "list_all isIdentifierNode params" and "isLiteral nameArg"
    and "fn = FunctionExpression j params
                (BlockStatement b
                   [ExpressionStatement e1 (CallExpression c1 stopCallee []),
                    ExpressionStatement e2 (CallExpression c2 startCallee [])]) \<or>
         fn = ArrowFunctionExpression j params
                (BlockStatement b
                   [ExpressionStatement e1 (CallExpression c1 stopCallee []),
                    ExpressionStatement e2 (CallExpression c2 startCallee [])])"
  shows "traverse resolve_async_enter resolve_async_exit anc
           (CallExpression i callee [nameArg, fn]) st = Inr (st, [])"
proof -
  let ?node = "CallExpression i callee [nameArg, fn]"
  let ?f0 = "\<lparr>stopSemaphoreCount = Num 0, asyncCallbackVars = [],
              assertContextVar = getAssertContextNameForTest [nameArg, fn]\<rparr>"
  let ?body = "BlockStatement b
                   [ExpressionStatement e1 (CallExpression c1 stopCallee []),
                    ExpressionStatement e2 (CallExpression c2 startCallee [])]"
  have c: "isQUnitMember callee SUPPORTED_TEST_IDENTIFIERS"
    using assms(1) by (simp add: isTest_def)
  have en: "resolve_async_enter anc ?node st = Inr (st @ [?f0], [])"
    using assms(1,2) by (simp add: resolve_async_enter_call test_call_enter)
  have bd: "traverse resolve_async_enter resolve_async_exit a ?body
              (st @ [\<lparr>stopSemaphoreCount = Num 0, asyncCallbackVars = [], assertContextVar = v\<rparr>]) =
              Inr (st @ [\<lparr>stopSemaphoreCount = Num 0, asyncCallbackVars = [], assertContextVar = v\<rparr>], [])"
    for a v
    using stop_start_body [of "st @ [\<lparr>stopSemaphoreCount = Num 0, asyncCallbackVars = [],
        assertContextVar = v\<rparr>]" 0 stopCallee startCallee a b e1 c1 e2 c2] assms(3,4)
    by simp
  have f: "traverse resolve_async_enter resolve_async_exit a fn (st @ [?f0]) =
              Inr (st @ [?f0], [])" for a
    using assms(5,7)
    by (auto simp: traverse.simps [of _ _ _ "FunctionExpression j params ?body"]
        traverse.simps [of _ _ _ "ArrowFunctionExpression j params ?body"]
        resolve_async_enter_other resolve_async_exit_other
        resolve_async_traverse_identifiers_append bd)
  have ex: "resolve_async_exit anc ?node (st @ [?f0]) = Inr (st, [])"
    using assms(1)
    by (simp add: resolve_async_exit_def test_call_exit verifyAsyncState_def
        needMoreStartCalls_def)
  show ?thesis
    by (simp add: traverse.simps [of _ _ _ ?node] en ex f
        resolve_async_traverse_callee [OF c] resolve_async_traverse_literal [OF assms(6)])
qed

lemma resolve_async_exit_messages:
  assumes "isTest callee" and "st \<noteq> []" and "stopSemaphoreCount (last st) = Num k"
  shows "fst (resolve_async_CallExpression_exit (CallExpression i callee args) st) = butlast st \<and>
         filter (\<lambda>d. d_messageId d = ''needMoreStartCalls'')
           (snd (resolve_async_CallExpression_exit (CallExpression i callee args) st)) =
         (if k > 0 then
            [\<lparr>d_node = CallExpression i callee args, d_messageId = ''needMoreStartCalls'',
              d_data = [(''semaphore'', nat_toString (nat k)),
                        (''callOrCalls'', if k = 1 then ''call'' else ''calls'')],
              d_fix = None, d_suggest = []\<rparr>]
          else [])"
  using assms
  by (simp add: test_call_exit needMoreStartCalls_filter needMoreStartCalls_def)

theorem resolve_async_asyncTest_stop_start_reported:
  "resolve_async
     (Program (0, 1)
        [ExpressionStatement (1, 1)
           (CallExpression (2, 1) (Identifier (3, 1) ''asyncTest'')
              [Literal (4, 1) (VStr ''x''),
               FunctionExpression (5, 1) []
                 (BlockStatement (6, 1)
                    [ExpressionStatement (7, 1)
                       (CallExpression (8, 1) (Identifier (9, 1) ''stop'') []),
                     ExpressionStatement (10, 1)
                       (CallExpression (11, 1) (Identifier (12, 1) ''start'') [])])])]) =
   Inr ([],
        [\<lparr>d_node =
            CallExpression (2, 1) (Identifier (3, 1) ''asyncTest'')
              [Literal (4, 1) (VStr ''x''),
               FunctionExpression (5, 1) []
                 (BlockStatement (6, 1)
                    [ExpressionStatement (7, 1)
                       (CallExpression (8, 1) (Identifier (9, 1) ''stop'') []),
                     ExpressionStatement (10, 1)
                       (CallExpression (11, 1) (Identifier (12, 1) ''start'') [])])],
          d_messageId = ''needMoreStartCalls'',
          d_data = [(''semaphore'', ''1''), (''callOrCalls'', ''call'')],
          d_fix = None, d_suggest = []\<rparr>])"
  by code_simp

text \<open>
  A stop call with an explicit count: \<^verbatim>\<open>test('x', function () { stop(2); })\<close>. The
  count added is \<^verbatim>\<open>NaN\<close>, the semaphore is \<^verbatim>\<open>NaN\<close> from then on and nothing is
  reported at the end of the test.
\<close>

lemma resolve_async_explicit_count:
  "resolve_async
     (Program (0, 1)
        [ExpressionStatement (1, 1)
           (CallExpression (2, 1) (Identifier (3, 1) ''test'')
              [Literal (4, 1) (VStr ''x''),
               FunctionExpression (5, 1) []
                 (BlockStatement (6, 1)
                    [ExpressionStatement (7, 1)
                       (CallExpression (8, 1) (Identifier (9, 1) ''stop'')
                          [Literal (10, 1) (VNum 2)])])])]) = Inr ([], [])"
  by code_simp

text \<open>
  C1, as amended. In the resolve-async rule, the frame pushed for a test registration
  starts its semaphore at 1 for \<^verbatim>\<open>asyncTest\<close> and at 0 otherwise; a stop call without
  argument whose callee is no tracked callback variable adds 1 to the semaphore of the top
  frame and such a start call subtracts 1; when the registration is left, the frame is
  popped and "need N more start calls" is reported exactly when the semaphore is a positive
  number, with N its value; and a test registration that is not \<^verbatim>\<open>asyncTest\<close>, whose
  callback has identifier parameters and the body \<^verbatim>\<open>stop(); start();\<close> (either call
  bare or on \<^verbatim>\<open>QUnit\<close>), is traversed without any diagnostic and leaves the stack as
  it was.
\<close>

theorem resolve_async_semaphore:
  "(isTest callee \<longrightarrow>
      resolve_async_CallExpression (CallExpression i callee args) st =
        st @ [\<lparr>stopSemaphoreCount = (if isAsyncTest callee then Num 1 else Num 0),
               asyncCallbackVars = [],
               assertContextVar = getAssertContextNameForTest args\<rparr>]) \<and>
   (st \<noteq> [] \<and> isStop stopCallee \<and> getAsyncCallbackVarOrNull stopCallee st = None \<longrightarrow>
      resolve_async_CallExpression (CallExpression i stopCallee []) st =
        butlast st @
        [(last st)\<lparr>stopSemaphoreCount := jsnum_add (stopSemaphoreCount (last st)) (Num 1)\<rparr>]) \<and>
   (st \<noteq> [] \<and> isStart startCallee \<and> getAsyncCallbackVarOrNull startCallee st = None \<longrightarrow>
      resolve_async_CallExpression (CallExpression i startCallee []) st =
        butlast st @
        [(last st)\<lparr>stopSemaphoreCount := jsnum_add (stopSemaphoreCount (last st)) (Num (- 1))\<rparr>]) \<and>
   (isTest callee \<and> st \<noteq> [] \<and> stopSemaphoreCount (last st) = Num k \<longrightarrow>
      fst (resolve_async_CallExpression_exit (CallExpression i callee args) st) = butlast st \<and>
      filter (\<lambda>d. d_messageId d = ''needMoreStartCalls'')
        (snd (resolve_async_CallExpression_exit (CallExpression i callee args) st)) =
      (if k > 0 then
         [\<lparr>d_node = CallExpression i callee args, d_messageId = ''needMoreStartCalls'',
           d_data = [(''semaphore'', nat_toString (nat k)),
                     (''callOrCalls'', if k = 1 then ''call'' else ''calls'')],
           d_fix = None, d_suggest = []\<rparr>]
       else [])) \<and>
   (isTest callee \<and> \<not> isAsyncTest callee \<and> isStop stopCallee \<and> isStart startCallee \<and>
    list_all isIdentifierNode params \<and> isLiteral nameArg \<longrightarrow>
      traverse resolve_async_enter resolve_async_exit anc
        (CallExpression i callee
           [nameArg,
            FunctionExpression j params
              (BlockStatement b
                 [ExpressionStatement e1 (CallExpression c1 stopCallee []),
                  ExpressionStatement e2 (CallExpression c2 startCallee [])])]) st =
      Inr (st, []))"
  using test_call_enter [of callee i args st]
    stop_call_step [of st stopCallee i] start_call_step [of st startCallee i]
    resolve_async_exit_messages [of callee st k i args]
    stop_start_frame [of callee stopCallee startCallee params nameArg _ j b e1 c1 e2 c2 anc i st]
  by blast

theorem resolve_async_semaphore_witness:
  "resolve_async_CallExpression (CallExpression (2, 1) (Identifier (3, 1) ''test'') [])
     [\<lparr>stopSemaphoreCount = Num 2, asyncCallbackVars = [], assertContextVar = None\<rparr>] =
     [\<lparr>stopSemaphoreCount = Num 2, asyncCallbackVars = [], assertContextVar = None\<rparr>,
      \<lparr>stopSemaphoreCount = Num 0, asyncCallbackVars = [], assertContextVar = None\<rparr>] \<and>
   resolve_async_CallExpression (CallExpression (2, 1) (Identifier (9, 1) ''stop'') [])
     [\<lparr>stopSemaphoreCount = Num 2, asyncCallbackVars = [], assertContextVar = None\<rparr>] =
     [\<lparr>stopSemaphoreCount = Num 3, asyncCallbackVars = [], assertContextVar = None\<rparr>] \<and>
   resolve_async_CallExpression
     (CallExpression (2, 1)
        (MemberExpression (12, 1) (Identifier (13, 1) ''QUnit'') (Identifier (14, 1) ''start'')) [])
     [\<lparr>stopSemaphoreCount = Num 2, asyncCallbackVars = [], assertContextVar = None\<rparr>] =
     [\<lparr>stopSemaphoreCount = Num 1, asyncCallbackVars = [], assertContextVar = None\<rparr>] \<and>
   resolve_async_CallExpression_exit (CallExpression (2, 1) (Identifier (3, 1) ''test'') [])
     [\<lparr>stopSemaphoreCount = Num 2, asyncCallbackVars = [], assertContextVar = None\<rparr>] =
     ([], [\<lparr>d_node = CallExpression (2, 1) (Identifier (3, 1) ''test'') [],
            d_messageId = ''needMoreStartCalls'',
            d_data = [(''semaphore'', ''2''), (''callOrCalls'', ''calls'')],
            d_fix = None, d_suggest = []\<rparr>]) \<and>
   traverse resolve_async_enter resolve_async_exit []
     (CallExpression (2, 1) (Identifier (3, 1) ''test'')
        [Literal (4, 1) (VStr ''x''),
         FunctionExpression (5, 1) [Identifier (20, 1) ''assert'']
           (BlockStatement (6, 1)
              [ExpressionStatement (7, 1) (CallExpression (8, 1) (Identifier (9, 1) ''stop'') []),
               ExpressionStatement (10, 1)
                 (CallExpression (11, 1)
                    (MemberExpression (12, 1) (Identifier (13, 1) ''QUnit'')
                       (Identifier (14, 1) ''start'')) [])])])
     [\<lparr>stopSemaphoreCount = Num 2, asyncCallbackVars = [], assertContextVar = None\<rparr>] =
   Inr ([\<lparr>stopSemaphoreCount = Num 2, asyncCallbackVars = [], assertContextVar = None\<rparr>], [])"
  using resolve_async_semaphore [where callee = "Identifier (3, 1) ''test''" and i = "(2, 1)"
      and args = "[]"
      and st = "[\<lparr>stopSemaphoreCount = Num 2, asyncCallbackVars = [], assertContextVar = None\<rparr>]"
      and stopCallee = "Identifier (9, 1) ''stop''"
      and startCallee = "MemberExpression (12, 1) (Identifier (13, 1) ''QUnit'')
                           (Identifier (14, 1) ''start'')"
      and k = 2 and params = "[Identifier (20, 1) ''assert'']"
      and nameArg = "Literal (4, 1) (VStr ''x'')" and anc = "[]" and j = "(5, 1)"
      and b = "(6, 1)" and ?e1.0 = "(7, 1)" and ?c1.0 = "(8, 1)" and ?e2.0 = "(10, 1)"
      and ?c2.0 = "(11, 1)"]
  by (simp add: isTest_def isAsyncTest_def isStop_def isStart_def isQUnitMember_def
      isIdentifierNamed_def isIdentifierIn_def SUPPORTED_TEST_IDENTIFIERS_def
      getAsyncCallbackVarOrNull_def js_in_def Object_prototype_names_def
      isIdentifierNode_def isLiteral_def getAssertContextNameForTest_def nat_toString.simps
      resolve_async_CallExpression_exit_def verifyAsyncState_def needMoreStartCalls_def)

text \<open>
  What a traversal can add: when entering a node adds to a set \<open>K\<close> of the state, and
  mentions in its diagnostics, only members of \<open>K\<close> and of \<open>W\<close> of the node, and leaving a
  node adds nothing, then after the traversal of a tree the set and the diagnostics hold
  only what was there at the start and \<open>W\<close> of the nodes of the tree.
\<close>

lemma allNodes_children: "c \<in> set (children n) \<Longrightarrow> set (allNodes c) \<subseteq> set (allNodes n)"
  by (subst (2) allNodes.simps) auto

lemma allNodes_self: "n \<in> set (allNodes n)"
  by (subst allNodes.simps) simp

lemma traverse_list_accumulates:
  assumes "\<And>c anc s s' ds. c \<in> set cs \<Longrightarrow> traverse enter exit anc c s = Inr (s', ds) \<Longrightarrow>
             K s' \<subseteq> K s \<union> A \<and> \<Union> (M ` set ds) \<subseteq> K s \<union> A"
    and "traverse_list enter exit anc cs s = Inr (s', ds)"
  shows "K s' \<subseteq> K s \<union> A \<and> \<Union> (M ` set ds) \<subseteq> K s \<union> A"
  using assms
proof (induction cs arbitrary: s s' ds)
  case Nil
  then show ?case by simp
next
  case (Cons c cs)
  from Cons.prems(2) obtain s1 d1 s2 d2
    where 1: "traverse enter exit anc c s = Inr (s1, d1)"
      and 2: "traverse_list enter exit anc cs s1 = Inr (s2, d2)"
      and r: "s' = s2" "ds = d1 @ d2"
    by (auto split: sum.splits prod.splits)
  have "c \<in> set (c # cs)" by simp
  from Cons.prems(1) [OF this 1]
  have a: "K s1 \<subseteq> K s \<union> A" "\<Union> (M ` set d1) \<subseteq> K s \<union> A" by auto
  have "K s2 \<subseteq> K s1 \<union> A \<and> \<Union> (M ` set d2) \<subseteq> K s1 \<union> A"
  proof (rule Cons.IH [OF _ 2])
    fix c' anc' t t' dd
    assume "c' \<in> set cs" and "traverse enter exit anc' c' t = Inr (t', dd)"
    then show "K t' \<subseteq> K t \<union> A \<and> \<Union> (M ` set dd) \<subseteq> K t \<union> A"
      using Cons.prems(1) [of c' anc' t t' dd] by simp
  qed
  then have b: "K s2 \<subseteq> K s \<union> A" "\<Union> (M ` set d2) \<subseteq> K s \<union> A"
    using a(1) by blast+
  have "\<Union> (M ` set ds) = \<Union> (M ` set d1) \<union> \<Union> (M ` set d2)"
    by (simp add: r)
  then show ?case using a(2) b r(1) by simp
qed

lemma traverse_accumulates:
  assumes en: "\<And>anc n s s1 d. enter anc n s = Inr (s1, d) \<Longrightarrow>
             K s1 \<subseteq> K s \<union> W n \<and> \<Union> (M ` set d) \<subseteq> K s \<union> W n"
    and ex: "\<And>anc n s s1 d. exit anc n s = Inr (s1, d) \<Longrightarrow>
             K s1 \<subseteq> K s \<and> \<Union> (M ` set d) \<subseteq> K s"
    and "traverse enter exit anc n s = Inr (s', ds)"
  shows "K s' \<subseteq> K s \<union> \<Union> (W ` set (allNodes n)) \<and>
         \<Union> (M ` set ds) \<subseteq> K s \<union> \<Union> (W ` set (allNodes n))"
  using assms(3)
proof (induction n arbitrary: anc s s' ds rule: measure_induct_rule [where f = size])
  case (less n)
  let ?A = "\<Union> (W ` set (allNodes n))"
  from less.prems obtain s1 d1 s2 d2 s3 d3
    where e: "enter anc n s = Inr (s1, d1)"
      and c: "traverse_list enter exit (n # anc) (children n) s1 = Inr (s2, d2)"
      and x: "exit anc n s2 = Inr (s3, d3)"
      and r: "s' = s3" "ds = d1 @ d2 @ d3"
    by (auto simp: traverse.simps [of _ _ _ n] split: sum.splits prod.splits)
  have w: "W n \<subseteq> ?A" using allNodes_self by blast
  from en [OF e] have a: "K s1 \<subseteq> K s \<union> ?A" "\<Union> (M ` set d1) \<subseteq> K s \<union> ?A"
    using w by auto
  have step: "K t' \<subseteq> K t \<union> ?A \<and> \<Union> (M ` set dd) \<subseteq> K t \<union> ?A"
    if "ch \<in> set (children n)" and "traverse enter exit a ch t = Inr (t', dd)" for ch a t t' dd
  proof -
    from less.IH [OF child_smaller [OF that(1)] that(2)]
    have "K t' \<subseteq> K t \<union> \<Union> (W ` set (allNodes ch)) \<and>
          \<Union> (M ` set dd) \<subseteq> K t \<union> \<Union> (W ` set (allNodes ch))" .
    moreover have "\<Union> (W ` set (allNodes ch)) \<subseteq> ?A"
      using allNodes_children [OF that(1)] by blast
    ultimately show ?thesis by blast
  qed
  from traverse_list_accumulates [of "children n" enter exit K ?A M "n # anc" s1 s2 d2] step c
  have b: "K s2 \<subseteq> K s1 \<union> ?A" "\<Union> (M ` set d2) \<subseteq> K s1 \<union> ?A" by auto
  from ex [OF x] have d: "K s3 \<subseteq> K s2" "\<Union> (M ` set d3) \<subseteq> K s2" by auto
  have k2: "K s2 \<subseteq> K s \<union> ?A" using a(1) b(1) by blast
  have m2: "\<Union> (M ` set d2) \<subseteq> K s \<union> ?A" using a(1) b(2) by blast
  have m3: "\<Union> (M ` set d3) \<subseteq> K s \<union> ?A" using d(2) k2 by blast
  have k3: "K s3 \<subseteq> K s \<union> ?A" using d(1) k2 by blast
  have "\<Union> (M ` set ds) = \<Union> (M ` set d1) \<union> \<Union> (M ` set d2) \<union> \<Union> (M ` set d3)"
    by (simp add: r Un_assoc)
  then show ?case using a(2) m2 m3 k3 r(1) by simp
qed


lemma pendingCallbacks_iff:
  "x \<in> pendingCallbacks st \<longleftrightarrow> (\<exists>f\<in>set st. (x, False) \<in> set (asyncCallbackVars f))"
  by (force simp: pendingCallbacks_def)

lemma js_update_member:
  "(k, False) \<in> set (js_update vars name v) \<Longrightarrow> (k, False) \<in> set vars \<or> (k = name \<and> \<not> v)"
  by (induction vars) (auto split: if_splits)

lemma js_assign_member:
  "(k, False) \<in> set (js_assign vars name v) \<Longrightarrow> (k, False) \<in> set vars \<or> (k = name \<and> \<not> v)"
  using js_update_member [of k vars name v] by (simp add: js_assign_def split: if_splits)

lemma pending_replace_last:
  assumes "st \<noteq> []"
    and "\<And>k. (k, False) \<in> set (asyncCallbackVars f') \<Longrightarrow>
           (k, False) \<in> set (asyncCallbackVars (last st)) \<or> k \<in> A"
  shows "pendingCallbacks (butlast st @ [f']) \<subseteq> pendingCallbacks st \<union> A"
proof
  fix x
  assume "x \<in> pendingCallbacks (butlast st @ [f'])"
  then consider f where "f \<in> set (butlast st)" "(x, False) \<in> set (asyncCallbackVars f)"
    | "(x, False) \<in> set (asyncCallbackVars f')"
    by (auto simp: pendingCallbacks_iff)
  then show "x \<in> pendingCallbacks st \<union> A"
  proof cases
    case 1
    then have "f \<in> set st" by (meson in_set_butlastD)
    then show ?thesis using 1(2) by (auto simp: pendingCallbacks_iff)
  next
    case 2
    from assms(2) [OF this] show ?thesis
      using assms(1) last_in_set by (auto simp: pendingCallbacks_iff)
  qed
qed

lemma markAsyncCallbackVarCalled_pending:
  "pendingCallbacks (markAsyncCallbackVarCalled name st) \<subseteq> pendingCallbacks st"
proof (cases "st = []")
  case True
  then show ?thesis by (simp add: markAsyncCallbackVarCalled_def)
next
  case False
  have "pendingCallbacks (butlast st @
          [(last st)\<lparr>asyncCallbackVars := js_assign (asyncCallbackVars (last st)) name True\<rparr>]) \<subseteq>
        pendingCallbacks st \<union> {}"
    by (rule pending_replace_last [OF False]) (use js_assign_member in fastforce)
  then show ?thesis using False by (simp add: markAsyncCallbackVarCalled_def)
qed

lemma addAsyncCallbackVar_pending:
  "pendingCallbacks (addAsyncCallbackVar (Identifier j name) st) \<subseteq> pendingCallbacks st \<union> {name}"
proof (cases "st = []")
  case True
  then show ?thesis by (auto simp: addAsyncCallbackVar_def)
next
  case False
  have "pendingCallbacks (butlast st @
          [(last st)\<lparr>asyncCallbackVars := js_assign (asyncCallbackVars (last st)) name False\<rparr>]) \<subseteq>
        pendingCallbacks st \<union> {name}"
    by (rule pending_replace_last [OF False]) (use js_assign_member in fastforce)
  then show ?thesis using False by (simp add: addAsyncCallbackVar_def)
qed

lemma incrementSemaphoreCount_pending:
  "pendingCallbacks (incrementSemaphoreCount amount st) \<subseteq> pendingCallbacks st"
proof (cases "st = []")
  case True
  then show ?thesis by (simp add: incrementSemaphoreCount_def)
next
  case False
  have "pendingCallbacks (butlast st @
          [(last st)\<lparr>stopSemaphoreCount := jsnum_add (stopSemaphoreCount (last st)) amount\<rparr>]) \<subseteq>
        pendingCallbacks st \<union> {}"
    by (rule pending_replace_last [OF False]) simp
  then show ?thesis using False by (simp add: incrementSemaphoreCount_def)
qed

lemma pending_push_fresh:
  "pendingCallbacks (st @ [\<lparr>stopSemaphoreCount = c, asyncCallbackVars = [], assertContextVar = v\<rparr>]) =
     pendingCallbacks st"
  by (auto simp: pendingCallbacks_iff)

lemma stopOrStart_pending:
  "pendingCallbacks (stopOrStart callee args st) \<subseteq> pendingCallbacks st"
  using incrementSemaphoreCount_pending by (simp add: stopOrStart_def)


lemma resolve_async_CallExpression_pending:
  "pendingCallbacks (resolve_async_CallExpression n st) \<subseteq> pendingCallbacks st"
proof (cases n)
  case (CallExpression i callee args)
  show ?thesis
  proof (cases "isTest callee")
    case True
    then show ?thesis using CallExpression
      by (simp add: resolve_async_CallExpression_def pending_push_fresh)
  next
    case False
    show ?thesis
    proof (cases "getAsyncCallbackVarOrNull callee st")
      case None
      then show ?thesis using CallExpression False stopOrStart_pending
        by (simp add: resolve_async_CallExpression_def)
    next
      case (Some name)
      then show ?thesis
        using CallExpression False stopOrStart_pending markAsyncCallbackVarCalled_pending
        by (simp add: resolve_async_CallExpression_def)
    qed
  qed
qed (simp_all add: resolve_async_CallExpression_def)

lemma resolve_async_Property_pending:
  "pendingCallbacks (resolve_async_Property anc n st) = pendingCallbacks st"
  by (cases n) (simp_all add: resolve_async_Property_def pending_push_fresh)

lemma resolve_async_AssignmentExpression_pending:
  "pendingCallbacks (resolve_async_AssignmentExpression n st) \<subseteq>
     pendingCallbacks st \<union> set_option (boundName n)"
proof (cases n)
  case (AssignmentExpression i left right)
  show ?thesis
  proof (cases left)
    case (Identifier j name)
    then show ?thesis
      using AssignmentExpression addAsyncCallbackVar_pending [of j name st]
      by (auto simp: resolve_async_AssignmentExpression_def boundName_def identifierName_def)
  qed (simp_all add: AssignmentExpression resolve_async_AssignmentExpression_def)
qed (simp_all add: resolve_async_AssignmentExpression_def)

lemma resolve_async_VariableDeclarator_pending:
  "pendingCallbacks (resolve_async_VariableDeclarator n st) \<subseteq>
     pendingCallbacks st \<union> set_option (boundName n)"
proof (cases n)
  case (VariableDeclarator i ident init)
  show ?thesis
  proof (cases init)
    case None
    then show ?thesis using VariableDeclarator
      by (simp add: resolve_async_VariableDeclarator_def)
  next
    case (Some initNode)
    show ?thesis
    proof (cases ident)
      case (Identifier j name)
      then show ?thesis
        using VariableDeclarator Some addAsyncCallbackVar_pending [of j name st]
        by (auto simp: resolve_async_VariableDeclarator_def boundName_def identifierName_def)
    qed (simp_all add: VariableDeclarator Some resolve_async_VariableDeclarator_def)
  qed
qed (simp_all add: resolve_async_VariableDeclarator_def)


lemma resolve_async_enter_pending:
  assumes "resolve_async_enter anc n s = Inr (s1, d)"
  shows "pendingCallbacks s1 \<subseteq> pendingCallbacks s \<union> set_option (boundName n) \<and>
         \<Union> (notCalledNames ` set d) \<subseteq> pendingCallbacks s \<union> set_option (boundName n)"
proof -
  let ?a = "resolve_async_CallExpression n s"
  let ?b = "resolve_async_Property anc n ?a"
  let ?c = "resolve_async_AssignmentExpression n ?b"
  have d: "d = []" and s1: "s1 = resolve_async_VariableDeclarator n ?c"
    using assms by (simp_all add: resolve_async_enter_def)
  have "pendingCallbacks ?b \<subseteq> pendingCallbacks s"
    using resolve_async_CallExpression_pending [of n s] resolve_async_Property_pending [of anc n ?a]
    by simp
  then have "pendingCallbacks ?c \<subseteq> pendingCallbacks s \<union> set_option (boundName n)"
    using resolve_async_AssignmentExpression_pending [of n ?b] by blast
  then have "pendingCallbacks s1 \<subseteq> pendingCallbacks s \<union> set_option (boundName n)"
    using resolve_async_VariableDeclarator_pending [of n ?c] s1 by blast
  then show ?thesis using d by simp
qed

lemma asyncCallbackNotCalled_names:
  "x \<in> \<Union> (notCalledNames ` set (concat (map (asyncCallbackNotCalled node) vs))) \<Longrightarrow>
     (x, False) \<in> set vs"
  by (induction vs) (auto simp: asyncCallbackNotCalled_def notCalledNames_def split: if_splits)

lemma verifyAsyncState_pending:
  "\<Union> (notCalledNames ` set (verifyAsyncState f node)) \<subseteq> pendingCallbacks [f]"
proof
  fix x
  assume "x \<in> \<Union> (notCalledNames ` set (verifyAsyncState f node))"
  then have "x \<in> \<Union> (notCalledNames ` set (concat (map (asyncCallbackNotCalled node)
                 (asyncCallbackVars f))))"
    by (auto simp: verifyAsyncState_def needMoreStartCalls_def notCalledNames_def
        split: if_splits)
  then show "x \<in> pendingCallbacks [f]"
    using asyncCallbackNotCalled_names by (simp add: pendingCallbacks_iff)
qed

lemma resolve_async_pop_pending:
  assumes "st \<noteq> []"
  shows "pendingCallbacks (butlast st) \<subseteq> pendingCallbacks st \<and>
         \<Union> (notCalledNames ` set (verifyAsyncState (last st) node)) \<subseteq> pendingCallbacks st"
proof -
  have "pendingCallbacks (butlast st) \<subseteq> pendingCallbacks st"
    using in_set_butlastD [of _ st] by (fastforce simp: pendingCallbacks_iff)
  moreover have "pendingCallbacks [last st] \<subseteq> pendingCallbacks st"
    using last_in_set [OF assms] by (fastforce simp: pendingCallbacks_iff)
  ultimately show ?thesis
    using verifyAsyncState_pending [of "last st" node] by blast
qed

lemma resolve_async_exit_pending:
  assumes "resolve_async_exit anc n s = Inr (s1, d)"
  shows "pendingCallbacks s1 \<subseteq> pendingCallbacks s \<and>
         \<Union> (notCalledNames ` set d) \<subseteq> pendingCallbacks s"
proof (cases n)
  case (CallExpression i callee args)
  show ?thesis
  proof (cases "isTest callee \<and> s \<noteq> []")
    case True
    then show ?thesis
      using assms CallExpression resolve_async_pop_pending [of s n]
      by (simp add: resolve_async_exit_def resolve_async_CallExpression_exit_def)
  next
    case False
    then have "s1 = s \<and> d = []"
      using assms CallExpression
      by (auto simp: resolve_async_exit_def resolve_async_CallExpression_exit_def
          split: if_splits)
    then show ?thesis by simp
  qed
next
  case (Property i key val)
  show ?thesis
  proof (cases "isModuleHookPropertyKey key \<and> isInModule anc \<and> s \<noteq> []")
    case True
    then show ?thesis
      using assms Property resolve_async_pop_pending [of s n]
      by (simp add: resolve_async_exit_def resolve_async_Property_exit_def)
  next
    case False
    then have "s1 = s \<and> d = []"
      using assms Property
      by (auto simp: resolve_async_exit_def resolve_async_Property_exit_def split: if_splits)
    then show ?thesis by simp
  qed
qed (use assms in \<open>simp_all add: resolve_async_exit_def\<close>)


text \<open>
  Every callback that the rule reports as not called is an identifier bound directly by an
  assignment or a declarator of the program.
\<close>

lemma resolve_async_reports_bound_identifiers:
  assumes "resolve_async program = Inr (s', ds)"
    and "List.member ds d" and "d_messageId d = ''asyncCallbackNotCalled''"
    and "List.member (map snd (d_data d)) name"
  shows "\<exists>m. List.member (allNodes program) m \<and> boundName m = Some name"
proof -
  let ?W = "\<lambda>n. set_option (boundName n)"
  have t: "traverse resolve_async_enter resolve_async_exit [] program [] = Inr (s', ds)"
    using assms(1) by (simp add: resolve_async_def)
  have "pendingCallbacks s' \<subseteq> pendingCallbacks [] \<union> \<Union> (?W ` set (allNodes program)) \<and>
        \<Union> (notCalledNames ` set ds) \<subseteq> pendingCallbacks [] \<union> \<Union> (?W ` set (allNodes program))"
  proof (rule traverse_accumulates [where K = pendingCallbacks and W = ?W
        and M = notCalledNames and enter = resolve_async_enter and exit = resolve_async_exit
        and anc = "[]" and s = "[]"])
    show "traverse resolve_async_enter resolve_async_exit [] program [] = Inr (s', ds)"
      by (rule t)
  next
    fix anc n s s1 d
    assume "resolve_async_enter anc n s = Inr (s1, d)"
    then show "pendingCallbacks s1 \<subseteq> pendingCallbacks s \<union> set_option (boundName n) \<and>
         \<Union> (notCalledNames ` set d) \<subseteq> pendingCallbacks s \<union> set_option (boundName n)"
      by (rule resolve_async_enter_pending)
  next
    fix anc n s s1 d
    assume "resolve_async_exit anc n s = Inr (s1, d)"
    then show "pendingCallbacks s1 \<subseteq> pendingCallbacks s \<and>
         \<Union> (notCalledNames ` set d) \<subseteq> pendingCallbacks s"
      by (rule resolve_async_exit_pending)
  qed
  then have sub: "\<Union> (notCalledNames ` set ds) \<subseteq> \<Union> (?W ` set (allNodes program))"
    by (simp add: pendingCallbacks_def)
  have "name \<in> notCalledNames d"
    using assms(3,4) by (simp add: notCalledNames_def)
  then have "name \<in> \<Union> (notCalledNames ` set ds)"
    using assms(2) by auto
  then have "name \<in> \<Union> (?W ` set (allNodes program))"
    using sub by (rule subsetD [rotated])
  then obtain m where m: "m \<in> set (allNodes program)" and "name \<in> set_option (boundName m)"
    by (rule UnionE) auto
  then have "boundName m = Some name"
    by (cases "boundName m") simp_all
  then show ?thesis using m by auto
qed

lemma js_update_lookup: "map_of (js_update vars name v) name = Some v"
  by (induction vars) auto

lemma asyncCallbackNotCalled_filter:
  "map d_data (filter (\<lambda>d. d_messageId d = ''asyncCallbackNotCalled'') (verifyAsyncState a node)) =
     map (\<lambda>kv. [(''asyncVar'', fst kv)]) (filter (\<lambda>kv. \<not> snd kv) (asyncCallbackVars a))"
proof -
  have "map d_data (filter (\<lambda>d. d_messageId d = ''asyncCallbackNotCalled'')
          (concat (map (asyncCallbackNotCalled node) vs))) =
        map (\<lambda>kv. [(''asyncVar'', fst kv)]) (filter (\<lambda>kv. \<not> snd kv) vs)" for vs
    by (induction vs) (simp_all add: asyncCallbackNotCalled_def)
  then show ?thesis
    by (simp add: verifyAsyncState_def needMoreStartCalls_def)
qed

text \<open>
  C10. In the resolve-async rule the handlers of \<^verbatim>\<open>AssignmentExpression\<close> and
  \<^verbatim>\<open>VariableDeclarator\<close> leave the state as it is when the target is not an Identifier
  node (a destructuring pattern, a member expression) and when the value is not a call of
  \<^verbatim>\<open>async\<close> on the assert variable of the top frame; when the target is an identifier
  and the value is such a call, the identifier is recorded in the top frame as not yet
  called; at the exit of a frame the callbacks reported as not called are exactly the
  recorded names whose flag is still false; and in the run of the rule on a whole program,
  every name reported as not called is the name of an identifier that is the target of an
  assignment or of a declarator with an initial value somewhere in the program.
\<close>

theorem async_callback_tracked_only_for_identifier:
  "(\<not> isIdentifierNode target \<longrightarrow>
      resolve_async_AssignmentExpression (AssignmentExpression i target right) st = st \<and>
      resolve_async_VariableDeclarator (VariableDeclarator i target init) st = st) \<and>
   (\<not> resolve_async_isAsyncCallExpression right st \<longrightarrow>
      resolve_async_AssignmentExpression (AssignmentExpression i target right) st = st \<and>
      resolve_async_VariableDeclarator (VariableDeclarator i target (Some right)) st = st) \<and>
   resolve_async_VariableDeclarator (VariableDeclarator i target None) st = st \<and>
   (resolve_async_isAsyncCallExpression right st \<and> name \<noteq> ''__proto__'' \<longrightarrow>
      resolve_async_AssignmentExpression (AssignmentExpression i (Identifier j name) right) st =
        butlast st @
        [(last st)\<lparr>asyncCallbackVars := js_update (asyncCallbackVars (last st)) name False\<rparr>] \<and>
      resolve_async_VariableDeclarator (VariableDeclarator i (Identifier j name) (Some right)) st =
        butlast st @
        [(last st)\<lparr>asyncCallbackVars := js_update (asyncCallbackVars (last st)) name False\<rparr>] \<and>
      map_of (js_update (asyncCallbackVars (last st)) name False) name = Some False) \<and>
   map d_data (filter (\<lambda>d. d_messageId d = ''asyncCallbackNotCalled'') (verifyAsyncState a node)) =
     map (\<lambda>kv. [(''asyncVar'', fst kv)]) (filter (\<lambda>kv. \<not> snd kv) (asyncCallbackVars a)) \<and>
   (resolve_async program = Inr (s', ds) \<and> List.member ds d \<and>
    d_messageId d = ''asyncCallbackNotCalled'' \<and> List.member (map snd (d_data d)) reported \<longrightarrow>
      (\<exists>m. List.member (allNodes program) m \<and> boundName m = Some reported))"
proof -
  have 1: "\<not> isIdentifierNode target \<Longrightarrow>
      resolve_async_AssignmentExpression (AssignmentExpression i target right) st = st \<and>
      resolve_async_VariableDeclarator (VariableDeclarator i target init) st = st"
    by (cases target)
       (simp_all add: isIdentifierNode_def resolve_async_AssignmentExpression_def
          resolve_async_VariableDeclarator_def split: option.splits)
  have 2: "\<not> resolve_async_isAsyncCallExpression right st \<Longrightarrow>
      resolve_async_AssignmentExpression (AssignmentExpression i target right) st = st \<and>
      resolve_async_VariableDeclarator (VariableDeclarator i target (Some right)) st = st"
    by (simp add: resolve_async_AssignmentExpression_def resolve_async_VariableDeclarator_def)
  have 3: "resolve_async_VariableDeclarator (VariableDeclarator i target None) st = st"
    by (simp add: resolve_async_VariableDeclarator_def)
  have ne: "resolve_async_isAsyncCallExpression right st \<Longrightarrow> st \<noteq> []"
    by (auto simp: resolve_async_isAsyncCallExpression_def)
  have 4: "resolve_async_isAsyncCallExpression right st \<and> name \<noteq> ''__proto__'' \<Longrightarrow>
      resolve_async_AssignmentExpression (AssignmentExpression i (Identifier j name) right) st =
        butlast st @
        [(last st)\<lparr>asyncCallbackVars := js_update (asyncCallbackVars (last st)) name False\<rparr>] \<and>
      resolve_async_VariableDeclarator (VariableDeclarator i (Identifier j name) (Some right)) st =
        butlast st @
        [(last st)\<lparr>asyncCallbackVars := js_update (asyncCallbackVars (last st)) name False\<rparr>]"
    using ne
    by (simp add: resolve_async_AssignmentExpression_def resolve_async_VariableDeclarator_def
        addAsyncCallbackVar_def js_assign_def)
  show ?thesis
    using 1 2 3 4 js_update_lookup [of "asyncCallbackVars (last st)" name False]
      asyncCallbackNotCalled_filter [of a node]
      resolve_async_reports_bound_identifiers [of program s' ds d reported]
    by blast
qed

theorem async_callback_tracked_only_for_identifier_witness:
  "resolve_async_AssignmentExpression
     (AssignmentExpression (1, 1)
        (MemberExpression (2, 1) (Identifier (3, 1) ''obj'') (Identifier (4, 1) ''done''))
        (CallExpression (5, 1)
           (MemberExpression (6, 1) (Identifier (7, 1) ''assert'') (Identifier (8, 1) ''async'')) []))
     [\<lparr>stopSemaphoreCount = Num 0, asyncCallbackVars = [], assertContextVar = Some ''assert''\<rparr>] =
     [\<lparr>stopSemaphoreCount = Num 0, asyncCallbackVars = [], assertContextVar = Some ''assert''\<rparr>] \<and>
   resolve_async_VariableDeclarator
     (VariableDeclarator (1, 1)
        (MemberExpression (2, 1) (Identifier (3, 1) ''obj'') (Identifier (4, 1) ''done''))
        (Some (Identifier (9, 1) ''x'')))
     [\<lparr>stopSemaphoreCount = Num 0, asyncCallbackVars = [], assertContextVar = Some ''assert''\<rparr>] =
     [\<lparr>stopSemaphoreCount = Num 0, asyncCallbackVars = [], assertContextVar = Some ''assert''\<rparr>] \<and>
   resolve_async_VariableDeclarator
     (VariableDeclarator (1, 1) (Identifier (10, 1) ''done'')
        (Some (CallExpression (5, 1)
           (MemberExpression (6, 1) (Identifier (7, 1) ''assert'') (Identifier (8, 1) ''async'')) [])))
     [\<lparr>stopSemaphoreCount = Num 0, asyncCallbackVars = [], assertContextVar = Some ''assert''\<rparr>] =
     [\<lparr>stopSemaphoreCount = Num 0, asyncCallbackVars = [(''done'', False)],
       assertContextVar = Some ''assert''\<rparr>] \<and>
   (\<exists>m. List.member (allNodes pendingCallbackProgram) m \<and> boundName m = Some ''done'')"
proof -
  let ?st = "[\<lparr>stopSemaphoreCount = Num 0, asyncCallbackVars = [],
               assertContextVar = Some ''assert''\<rparr>]"
  let ?d = "\<lparr>d_node = pendingCallbackTest, d_messageId = ''asyncCallbackNotCalled'',
             d_data = [(''asyncVar'', ''done'')], d_fix = None, d_suggest = []\<rparr>"
  have r: "resolve_async pendingCallbackProgram = Inr ([], [?d])"
    by code_simp
  have p: "\<exists>m. List.member (allNodes pendingCallbackProgram) m \<and> boundName m = Some ''done''"
    using async_callback_tracked_only_for_identifier [where program = pendingCallbackProgram
        and s' = "[]" and ds = "[?d]" and d = ?d and reported = "''done''"] r
    by simp
  let ?call = "CallExpression (5, 1)
           (MemberExpression (6, 1) (Identifier (7, 1) ''assert'') (Identifier (8, 1) ''async'')) []"
  let ?member = "MemberExpression (2, 1) (Identifier (3, 1) ''obj'') (Identifier (4, 1) ''done'')"
  have a: "resolve_async_isAsyncCallExpression ?call ?st"
    by (simp add: resolve_async_isAsyncCallExpression_def isAsyncCallExpression_def
        isIdentifierNamed_def)
  have b: "\<not> isIdentifierNode ?member"
    by (simp add: isIdentifierNode_def)
  have c: "\<not> resolve_async_isAsyncCallExpression (Identifier (9, 1) ''x'') ?st"
    by (simp add: resolve_async_isAsyncCallExpression_def isAsyncCallExpression_def)
  show ?thesis
    using async_callback_tracked_only_for_identifier [where target = ?member and i = "(1, 1)"
        and right = ?call and st = ?st and name = "''done''" and j = "(10, 1)"]
      async_callback_tracked_only_for_identifier [where target = ?member and i = "(1, 1)"
        and right = "Identifier (9, 1) ''x''" and st = ?st]
      a b c p
    by simp
qed

section \<open>Properties of no-hooks-from-ancestor-modules\<close>

text \<open>
  C8. On the program of the nested modules A and B the rule reports exactly one
  diagnostic: on the callee \<^verbatim>\<open>hooks.afterEach\<close> of the call made in the callback of
  module B, whose hooks parameter is \<^verbatim>\<open>hooks2\<close>. The two calls on the parameter of
  their own module are not reported, and the stack is empty at the end.
\<close>

theorem ancestor_hooks_nested_modules:
  "ancestor_hooks canonicalText nestedModulesProgram =
     Inr ([], [\<lparr>d_node = hookCallee 42 ''hooks'' ''afterEach'',
                d_messageId = ''noHooksFromAncestorModules'',
                d_data = [(''invokedMethodName'', ''afterEach''),
                          (''usedHooksIdentifierName'', ''hooks'')],
                d_fix = None, d_suggest = []\<rparr>])"
  by code_simp

section \<open>Properties of no-assert-equal\<close>

theorem shadowed_equal_reported_by_boolean_rule:
  "no_assert_equal [] shadowedEqualProgram =
     Inr (\<lparr>ae_testStack = [], globalEqualCallNodes = []\<rparr>, []) \<and>
   equal_boolean canonicalText shadowedEqualProgram =
     Inr ([], [\<lparr>d_node = shadowedEqualCall, d_messageId = ''useAssertTrueOrFalse'', d_data = [],
                d_fix = Some [ReplaceText shadowedEqualCall ''true(x)''], d_suggest = []\<rparr>])"
  by code_simp

lemma foldl_set_add: "set (foldl set_add xs ys) = set xs \<union> set ys"
  by (induction ys arbitrary: xs) (auto simp: set_add_def)

lemma assert_equal_Program_nodes:
  "set (globalEqualCallNodes (assert_equal_Program refs n s)) =
     set (globalEqualCallNodes s) \<union> (case n of Program _ _ \<Rightarrow> set refs | _ \<Rightarrow> {})"
  by (cases n) (simp_all add: assert_equal_Program_def foldl_set_add)

lemma assert_equal_Program_stack:
  "ae_testStack (assert_equal_Program refs n s) = ae_testStack s"
  by (cases n) (simp_all add: assert_equal_Program_def)

lemma isAssertEqual_ok:
  assumes "stk \<noteq> []"
  shows "\<exists>b. isAssertEqual callee stk = Inr b"
  using assms
  by (auto simp: isAssertEqual_def getCurrentAssertContextVariable_def split: node.splits)

lemma isAssertEqual_bare:
  "isIdentifierNode callee \<Longrightarrow> isAssertEqual callee stk = Inr False"
  by (cases callee) (simp_all add: isIdentifierNode_def isAssertEqual_def)

text \<open>What the \<^verbatim>\<open>CallExpression\<close> handler of no-assert-equal returns: the set of global
  calls is never changed, and every diagnostic is on the node visited; on a bare call there
  is one only if the node is in the set.\<close>

lemma assert_equal_CallExpression_result:
  assumes "assert_equal_CallExpression n s = Inr (s1, d)"
  shows "globalEqualCallNodes s1 = globalEqualCallNodes s \<and>
         (\<forall>x. List.member d x \<longrightarrow> d_node x = n \<and>
               (isBareCall n \<longrightarrow> List.member (globalEqualCallNodes s) n))"
proof (cases n)
  case (CallExpression i callee args)
  show ?thesis
  proof (cases "isTest callee \<or> isAsyncTest callee")
    case True
    then show ?thesis using assms CallExpression
      by (auto simp: assert_equal_CallExpression_def)
  next
    case nt: False
    show ?thesis
    proof (cases "ae_testStack s = []")
      case True
      then show ?thesis using assms CallExpression nt
        by (auto simp: assert_equal_CallExpression_def)
    next
      case False
      from isAssertEqual_ok [OF False] obtain b where b: "isAssertEqual callee (ae_testStack s) = Inr b"
        by blast
      have nb: "isBareCall n \<Longrightarrow> \<not> b"
        using b isAssertEqual_bare [of callee "ae_testStack s"] CallExpression
        by (simp add: isBareCall_def)
      show ?thesis
        using assms CallExpression nt False b nb
        by (auto simp: assert_equal_CallExpression_def assert_equal_reportError_def
            getCurrentAssertContextVariable_def split: if_splits)
    qed
  qed
qed (use assms in \<open>auto simp: assert_equal_CallExpression_def\<close>)

lemma assert_equal_enter_nodes:
  assumes "assert_equal_enter refs anc n s = Inr (s1, d)"
  shows "set (globalEqualCallNodes s1) \<subseteq>
           set (globalEqualCallNodes s) \<union> (case n of Program _ _ \<Rightarrow> set refs | _ \<Rightarrow> {}) \<and>
         \<Union> (bareNode ` set d) \<subseteq>
           set (globalEqualCallNodes s) \<union> (case n of Program _ _ \<Rightarrow> set refs | _ \<Rightarrow> {})"
proof -
  let ?s0 = "assert_equal_Program refs n s"
  have r: "assert_equal_CallExpression n ?s0 = Inr (s1, d)"
    using assms by (simp add: assert_equal_enter_def)
  note c = assert_equal_CallExpression_result [OF r]
  have "\<Union> (bareNode ` set d) \<subseteq> set (globalEqualCallNodes ?s0)"
  proof
    fix y
    assume "y \<in> \<Union> (bareNode ` set d)"
    then obtain x where x: "x \<in> set d" "y \<in> bareNode x" by blast
    then have "y = d_node x" "isBareCall (d_node x)"
      by (auto simp: bareNode_def split: if_splits)
    with c x(1) show "y \<in> set (globalEqualCallNodes ?s0)" by auto
  qed
  moreover have "set (globalEqualCallNodes s1) = set (globalEqualCallNodes ?s0)"
    using c by simp
  ultimately show ?thesis
    using assert_equal_Program_nodes [of refs n s] by simp
qed

lemma assert_equal_exit_nodes:
  assumes "assert_equal_exit anc n s = Inr (s1, d)"
  shows "set (globalEqualCallNodes s1) \<subseteq> set (globalEqualCallNodes s) \<and>
         \<Union> (bareNode ` set d) \<subseteq> set (globalEqualCallNodes s)"
  using assms
  by (cases n)
     (auto simp: assert_equal_exit_def assert_equal_CallExpression_exit_def split: if_splits)

text \<open>In a run of no-assert-equal on a program, every diagnostic on a call of a bare
  identifier is on one of the calls that the tracker yielded.\<close>

lemma no_assert_equal_bare_reports:
  assumes "no_assert_equal refs program = Inr (s', ds)"
    and "List.member ds d" and "isBareCall (d_node d)"
  shows "List.member refs (d_node d)"
proof -
  let ?W = "\<lambda>n. case n of Program _ _ \<Rightarrow> set refs | _ \<Rightarrow> {}"
  let ?K = "\<lambda>s. set (globalEqualCallNodes s)"
  let ?s0 = "\<lparr>ae_testStack = [], globalEqualCallNodes = []\<rparr>"
  have t: "traverse (assert_equal_enter refs) assert_equal_exit [] program ?s0 = Inr (s', ds)"
    using assms(1) by (simp add: no_assert_equal_def)
  have "?K s' \<subseteq> ?K ?s0 \<union> \<Union> (?W ` set (allNodes program)) \<and>
        \<Union> (bareNode ` set ds) \<subseteq> ?K ?s0 \<union> \<Union> (?W ` set (allNodes program))"
  proof (rule traverse_accumulates [where K = ?K and W = ?W and M = bareNode
        and enter = "assert_equal_enter refs" and exit = assert_equal_exit
        and anc = "[]" and s = ?s0])
    show "traverse (assert_equal_enter refs) assert_equal_exit [] program ?s0 = Inr (s', ds)"
      by (rule t)
  next
    fix anc n s s1 d
    assume "assert_equal_enter refs anc n s = Inr (s1, d)"
    then show "set (globalEqualCallNodes s1) \<subseteq> set (globalEqualCallNodes s) \<union> ?W n \<and>
         \<Union> (bareNode ` set d) \<subseteq> set (globalEqualCallNodes s) \<union> ?W n"
      by (rule assert_equal_enter_nodes)
  next
    fix anc n s s1 d
    assume "assert_equal_exit anc n s = Inr (s1, d)"
    then show "set (globalEqualCallNodes s1) \<subseteq> set (globalEqualCallNodes s) \<and>
         \<Union> (bareNode ` set d) \<subseteq> set (globalEqualCallNodes s)"
      by (rule assert_equal_exit_nodes)
  qed
  then have sub: "\<Union> (bareNode ` set ds) \<subseteq> \<Union> (?W ` set (allNodes program))"
    by simp
  have "\<Union> (?W ` set (allNodes program)) \<subseteq> set refs"
    by (auto split: node.splits)
  moreover have "d_node d \<in> bareNode d"
    using assms(3) by (simp add: bareNode_def)
  moreover have "d \<in> set ds"
    using assms(2) by simp
  ultimately have "d_node d \<in> set refs"
    using sub by blast
  then show ?thesis by simp
qed


lemma equal_boolean_handler_cases:
  assumes "testStack \<noteq> []" and "isEqualityAssertion callee testStack = Inr True"
  shows "if (case args of a0 # a1 # _ \<Rightarrow> isBooleanLiteral a0 \<or> isBooleanLiteral a1 | _ \<Rightarrow> False)
         then \<exists>text.
                equal_boolean_CallExpression getText (CallExpression i callee args) testStack =
                  Inr (testStack,
                       [\<lparr>d_node = CallExpression i callee args,
                         d_messageId = ''useAssertTrueOrFalse'', d_data = [],
                         d_fix = Some [ReplaceText (CallExpression i callee args) text],
                         d_suggest = []\<rparr>])
         else equal_boolean_CallExpression getText (CallExpression i callee args) testStack =
                Inr (testStack, [])"
proof -
  let ?node = "CallExpression i callee args"
  note nt = isEqualityAssertion_not_test [OF assms(2)]
  show ?thesis
  proof (cases "getBooleanArgument ?node")
    case None
    then have "\<not> (case args of a0 # a1 # _ \<Rightarrow> isBooleanLiteral a0 \<or> isBooleanLiteral a1 | _ \<Rightarrow> False)"
      by (auto simp: getBooleanArgument_call split: list.splits if_splits)
    moreover have "equal_boolean_CallExpression getText ?node testStack = Inr (testStack, [])"
      using None nt assms by (simp add: equal_boolean_CallExpression_def)
    ultimately show ?thesis by simp
  next
    case (Some a)
    then have "isBooleanLiteral a"
      by (auto simp: getBooleanArgument_call split: list.splits if_splits)
    then obtain j b where a: "a = Literal j (VBool b)"
      using isBooleanLiteral_cases by blast
    have c: "(case args of a0 # a1 # _ \<Rightarrow> isBooleanLiteral a0 \<or> isBooleanLiteral a1 | _ \<Rightarrow> False)"
      using Some by (auto simp: getBooleanArgument_call split: list.splits if_splits)
    have f: "equal_boolean_fix getText ?node testStack =
               Inr (Some [ReplaceText ?node
                  (calleePrefix callee @ (if b then ''true'' else ''false'') @ ''('' @
                   join '', '' (map getText (filter (\<lambda>arg. arg \<noteq> Literal j (VBool b)) args)) @
                   '')'')])"
      using equal_boolean_fix_some [OF assms, of i args j b getText] Some a by simp
    have "equal_boolean_CallExpression getText ?node testStack =
               Inr (testStack,
                    [\<lparr>d_node = ?node, d_messageId = ''useAssertTrueOrFalse'', d_data = [],
                      d_fix = Some [ReplaceText ?node
                        (calleePrefix callee @ (if b then ''true'' else ''false'') @ ''('' @
                         join '', '' (map getText (filter (\<lambda>arg. arg \<noteq> Literal j (VBool b)) args)) @
                         '')'')],
                      d_suggest = []\<rparr>])"
      using Some nt assms f
      by (simp add: equal_boolean_CallExpression_def equal_boolean_reportError_def)
    then show ?thesis using c by simp
  qed
qed

lemma bare_equal_handler:
  "assert_equal_CallExpression (CallExpression i (Identifier j ''equal'') args) s =
     Inr (s,
          if ae_testStack s \<noteq> [] \<and>
             List.member (globalEqualCallNodes s) (CallExpression i (Identifier j ''equal'') args)
          then [\<lparr>d_node = CallExpression i (Identifier j ''equal'') args,
                 d_messageId = ''unexpectedGlobalEqual'', d_data = [], d_fix = None,
                 d_suggest =
                   [(''switchToDeepEqual'', Some [ReplaceText (Identifier j ''equal'') ''deepEqual'']),
                    (''switchToPropEqual'', Some [ReplaceText (Identifier j ''equal'') ''propEqual'']),
                    (''switchToStrictEqual'', Some [ReplaceText (Identifier j ''equal'') ''strictEqual''])]\<rparr>]
          else [])"
  by (simp add: assert_equal_CallExpression_def isTest_def isAsyncTest_def isQUnitMember_def
      SUPPORTED_TEST_IDENTIFIERS_def isAssertEqual_def assert_equal_reportError_def
      assert_equal_suggestFix_def)

lemma bare_equal_after_Program:
  "assert_equal_CallExpression (CallExpression i (Identifier j ''equal'') args)
     (assert_equal_Program refs (Program p body) \<lparr>ae_testStack = stk, globalEqualCallNodes = []\<rparr>) =
     Inr (\<lparr>ae_testStack = stk, globalEqualCallNodes = foldl set_add [] refs\<rparr>,
          if stk \<noteq> [] \<and> List.member refs (CallExpression i (Identifier j ''equal'') args)
          then [\<lparr>d_node = CallExpression i (Identifier j ''equal'') args,
                 d_messageId = ''unexpectedGlobalEqual'', d_data = [], d_fix = None,
                 d_suggest =
                   [(''switchToDeepEqual'', Some [ReplaceText (Identifier j ''equal'') ''deepEqual'']),
                    (''switchToPropEqual'', Some [ReplaceText (Identifier j ''equal'') ''propEqual'']),
                    (''switchToStrictEqual'', Some [ReplaceText (Identifier j ''equal'') ''strictEqual''])]\<rparr>]
          else [])"
  by (simp add: bare_equal_handler assert_equal_Program_def foldl_set_add)

lemma member_equal_handler:
  "assert_equal_CallExpression
     (CallExpression i (MemberExpression k (Identifier k1 v) (Identifier k2 ''equal'')) args) s =
     Inr (s,
          if ae_testStack s \<noteq> [] \<and> last (ae_testStack s) = Some v
          then [\<lparr>d_node = CallExpression i
                            (MemberExpression k (Identifier k1 v) (Identifier k2 ''equal'')) args,
                 d_messageId = ''unexpectedAssertEqual'',
                 d_data = (if v = [] then [] else [(''assertVar'', v)]), d_fix = None,
                 d_suggest =
                   [(''switchToDeepEqual'', Some [ReplaceText (Identifier k2 ''equal'') ''deepEqual'']),
                    (''switchToPropEqual'', Some [ReplaceText (Identifier k2 ''equal'') ''propEqual'']),
                    (''switchToStrictEqual'', Some [ReplaceText (Identifier k2 ''equal'') ''strictEqual''])]\<rparr>]
          else if ae_testStack s \<noteq> [] \<and>
                  List.member (globalEqualCallNodes s)
                    (CallExpression i (MemberExpression k (Identifier k1 v) (Identifier k2 ''equal'')) args)
          then [\<lparr>d_node = CallExpression i
                            (MemberExpression k (Identifier k1 v) (Identifier k2 ''equal'')) args,
                 d_messageId = ''unexpectedGlobalEqual'', d_data = [], d_fix = None,
                 d_suggest =
                   [(''switchToDeepEqual'',
                     Some [ReplaceText (MemberExpression k (Identifier k1 v) (Identifier k2 ''equal''))
                             ''deepEqual'']),
                    (''switchToPropEqual'',
                     Some [ReplaceText (MemberExpression k (Identifier k1 v) (Identifier k2 ''equal''))
                             ''propEqual'']),
                    (''switchToStrictEqual'',
                     Some [ReplaceText (MemberExpression k (Identifier k1 v) (Identifier k2 ''equal''))
                             ''strictEqual''])]\<rparr>]
          else [])"
  by (simp add: assert_equal_CallExpression_def isTest_def isAsyncTest_def isQUnitMember_def
      SUPPORTED_TEST_IDENTIFIERS_def isIdentifierIn_def isIdentifierNamed_def isAssertEqual_def
      getCurrentAssertContextVariable_def assert_equal_reportError_def assert_equal_suggestFix_def)


lemma global_equal_program_run:
  "no_assert_equal [globalEqualCall] globalEqualProgram =
     Inr (\<lparr>ae_testStack = [], globalEqualCallNodes = [globalEqualCall]\<rparr>,
          [\<lparr>d_node = globalEqualCall, d_messageId = ''unexpectedGlobalEqual'', d_data = [],
            d_fix = None,
            d_suggest =
              [(''switchToDeepEqual'', Some [ReplaceText (Identifier (11, 1) ''equal'') ''deepEqual'']),
               (''switchToPropEqual'', Some [ReplaceText (Identifier (11, 1) ''equal'') ''propEqual'']),
               (''switchToStrictEqual'', Some [ReplaceText (Identifier (11, 1) ''equal'') ''strictEqual''])]\<rparr>])"
  by code_simp

lemma bare_equal_is_equality_assertion:
  "isEqualityAssertion (Identifier j ''equal'') testStack = Inr True"
  by (simp add: isEqualityAssertion_def isGlobalEqualityAssertion_def isIdentifierIn_def
      EQUALITY_ASSERTIONS_def)

text \<open>
  C6, as amended. The rule no-assert-equal, on a call whose callee is the bare identifier
  \<^verbatim>\<open>equal\<close>: the handler reports it, in the form for the global function, exactly when a
  test frame is active and the call is in the set of calls of the global \<^verbatim>\<open>equal\<close>; on
  the state that the \<^verbatim>\<open>Program\<close> handler builds from the references yielded by the
  tracker, that is exactly when a test frame is active and the tracker yielded the call;
  and in a whole run on a program every diagnostic on a call of a bare identifier is on a
  call that the tracker yielded, so a call of a shadowed \<^verbatim>\<open>equal\<close> is never reported by
  this rule. On a call \<^verbatim>\<open>v.equal(...)\<close> whose object is an identifier: when a test frame
  is active and \<^verbatim>\<open>v\<close> is the assert variable bound by the innermost frame, the rule
  reports it in the member form, with the variable's name as data and the property as the
  node that the suggestions replace; otherwise it reports it, in the global form, exactly
  when a test frame is active and the tracker's set has the call. The rule
  no-assert-equal-boolean does not consult the scopes: it accepts every bare \<^verbatim>\<open>equal\<close>
  as an equality assertion and, inside a test frame, reports and fixes it exactly when one
  of its first two arguments is a boolean literal.
\<close>

theorem bare_equal_classification:
  "assert_equal_CallExpression (CallExpression i (Identifier j ''equal'') args) s =
     Inr (s,
          if ae_testStack s \<noteq> [] \<and>
             List.member (globalEqualCallNodes s) (CallExpression i (Identifier j ''equal'') args)
          then [\<lparr>d_node = CallExpression i (Identifier j ''equal'') args,
                 d_messageId = ''unexpectedGlobalEqual'', d_data = [], d_fix = None,
                 d_suggest =
                   [(''switchToDeepEqual'', Some [ReplaceText (Identifier j ''equal'') ''deepEqual'']),
                    (''switchToPropEqual'', Some [ReplaceText (Identifier j ''equal'') ''propEqual'']),
                    (''switchToStrictEqual'', Some [ReplaceText (Identifier j ''equal'') ''strictEqual''])]\<rparr>]
          else []) \<and>
   assert_equal_CallExpression (CallExpression i (Identifier j ''equal'') args)
     (assert_equal_Program refs (Program p body) \<lparr>ae_testStack = stk, globalEqualCallNodes = []\<rparr>) =
     Inr (\<lparr>ae_testStack = stk, globalEqualCallNodes = foldl set_add [] refs\<rparr>,
          if stk \<noteq> [] \<and> List.member refs (CallExpression i (Identifier j ''equal'') args)
          then [\<lparr>d_node = CallExpression i (Identifier j ''equal'') args,
                 d_messageId = ''unexpectedGlobalEqual'', d_data = [], d_fix = None,
                 d_suggest =
                   [(''switchToDeepEqual'', Some [ReplaceText (Identifier j ''equal'') ''deepEqual'']),
                    (''switchToPropEqual'', Some [ReplaceText (Identifier j ''equal'') ''propEqual'']),
                    (''switchToStrictEqual'', Some [ReplaceText (Identifier j ''equal'') ''strictEqual''])]\<rparr>]
          else []) \<and>
   (no_assert_equal refs program = Inr (final, ds) \<and> List.member ds d \<and> isBareCall (d_node d) \<longrightarrow>
      List.member refs (d_node d)) \<and>
   assert_equal_CallExpression
     (CallExpression m (MemberExpression k (Identifier k1 v) (Identifier k2 ''equal'')) margs) s =
     Inr (s,
          if ae_testStack s \<noteq> [] \<and> last (ae_testStack s) = Some v
          then [\<lparr>d_node = CallExpression m
                            (MemberExpression k (Identifier k1 v) (Identifier k2 ''equal'')) margs,
                 d_messageId = ''unexpectedAssertEqual'',
                 d_data = (if v = [] then [] else [(''assertVar'', v)]), d_fix = None,
                 d_suggest =
                   [(''switchToDeepEqual'', Some [ReplaceText (Identifier k2 ''equal'') ''deepEqual'']),
                    (''switchToPropEqual'', Some [ReplaceText (Identifier k2 ''equal'') ''propEqual'']),
                    (''switchToStrictEqual'', Some [ReplaceText (Identifier k2 ''equal'') ''strictEqual''])]\<rparr>]
          else if ae_testStack s \<noteq> [] \<and>
                  List.member (globalEqualCallNodes s)
                    (CallExpression m (MemberExpression k (Identifier k1 v) (Identifier k2 ''equal'')) margs)
          then [\<lparr>d_node = CallExpression m
                            (MemberExpression k (Identifier k1 v) (Identifier k2 ''equal'')) margs,
                 d_messageId = ''unexpectedGlobalEqual'', d_data = [], d_fix = None,
                 d_suggest =
                   [(''switchToDeepEqual'',
                     Some [ReplaceText (MemberExpression k (Identifier k1 v) (Identifier k2 ''equal''))
                             ''deepEqual'']),
                    (''switchToPropEqual'',
                     Some [ReplaceText (MemberExpression k (Identifier k1 v) (Identifier k2 ''equal''))
                             ''propEqual'']),
                    (''switchToStrictEqual'',
                     Some [ReplaceText (MemberExpression k (Identifier k1 v) (Identifier k2 ''equal''))
                             ''strictEqual''])]\<rparr>]
          else []) \<and>
   isEqualityAssertion (Identifier j ''equal'') testStack = Inr True \<and>
   (testStack \<noteq> [] \<longrightarrow>
      (if (case args of a0 # a1 # _ \<Rightarrow> isBooleanLiteral a0 \<or> isBooleanLiteral a1 | _ \<Rightarrow> False)
       then \<exists>text.
              equal_boolean_CallExpression getText (CallExpression i (Identifier j ''equal'') args)
                  testStack =
                Inr (testStack,
                     [\<lparr>d_node = CallExpression i (Identifier j ''equal'') args,
                       d_messageId = ''useAssertTrueOrFalse'', d_data = [],
                       d_fix = Some [ReplaceText (CallExpression i (Identifier j ''equal'') args) text],
                       d_suggest = []\<rparr>])
       else equal_boolean_CallExpression getText (CallExpression i (Identifier j ''equal'') args)
                testStack =
              Inr (testStack, [])))"
proof -
  have run: "no_assert_equal refs program = Inr (final, ds) \<and> List.member ds d \<and>
               isBareCall (d_node d) \<longrightarrow> List.member refs (d_node d)"
    using no_assert_equal_bare_reports [of refs program final ds d] by blast
  have bool: "testStack \<noteq> [] \<longrightarrow>
      (if (case args of a0 # a1 # _ \<Rightarrow> isBooleanLiteral a0 \<or> isBooleanLiteral a1 | _ \<Rightarrow> False)
       then \<exists>text.
              equal_boolean_CallExpression getText (CallExpression i (Identifier j ''equal'') args)
                  testStack =
                Inr (testStack,
                     [\<lparr>d_node = CallExpression i (Identifier j ''equal'') args,
                       d_messageId = ''useAssertTrueOrFalse'', d_data = [],
                       d_fix = Some [ReplaceText (CallExpression i (Identifier j ''equal'') args) text],
                       d_suggest = []\<rparr>])
       else equal_boolean_CallExpression getText (CallExpression i (Identifier j ''equal'') args)
                testStack =
              Inr (testStack, []))"
    using equal_boolean_handler_cases [OF _ bare_equal_is_equality_assertion] by blast
  show ?thesis
    by (intro conjI, rule bare_equal_handler, rule bare_equal_after_Program, rule run,
        rule member_equal_handler, rule bare_equal_is_equality_assertion, rule bool)
qed

theorem bare_equal_classification_witness:
  "assert_equal_CallExpression shadowedEqualCall
     (assert_equal_Program [] (Program (0, 1) [])
        \<lparr>ae_testStack = [Some ''assert''], globalEqualCallNodes = []\<rparr>) =
     Inr (\<lparr>ae_testStack = [Some ''assert''], globalEqualCallNodes = []\<rparr>, []) \<and>
   (\<exists>d. assert_equal_CallExpression shadowedEqualCall
     (assert_equal_Program [shadowedEqualCall] (Program (0, 1) [])
        \<lparr>ae_testStack = [Some ''assert''], globalEqualCallNodes = []\<rparr>) =
     Inr (\<lparr>ae_testStack = [Some ''assert''], globalEqualCallNodes = [shadowedEqualCall]\<rparr>, [d]) \<and>
     d_messageId d = ''unexpectedGlobalEqual'') \<and>
   (\<exists>final d. no_assert_equal [globalEqualCall] globalEqualProgram = Inr (final, [d]) \<and>
      List.member [d] d \<and> isBareCall (d_node d) \<and> List.member [globalEqualCall] (d_node d)) \<and>
   (\<exists>d. assert_equal_CallExpression
      (CallExpression (30, 1)
         (MemberExpression (31, 1) (Identifier (32, 1) ''assert'') (Identifier (33, 1) ''equal''))
         [Identifier (34, 1) ''a'', Identifier (35, 1) ''b''])
      \<lparr>ae_testStack = [Some ''assert''], globalEqualCallNodes = []\<rparr> =
      Inr (\<lparr>ae_testStack = [Some ''assert''], globalEqualCallNodes = []\<rparr>, [d]) \<and>
      d_messageId d = ''unexpectedAssertEqual'' \<and> d_data d = [(''assertVar'', ''assert'')] \<and>
      d_suggest d =
        [(''switchToDeepEqual'', Some [ReplaceText (Identifier (33, 1) ''equal'') ''deepEqual'']),
         (''switchToPropEqual'', Some [ReplaceText (Identifier (33, 1) ''equal'') ''propEqual'']),
         (''switchToStrictEqual'', Some [ReplaceText (Identifier (33, 1) ''equal'') ''strictEqual''])]) \<and>
   assert_equal_CallExpression
      (CallExpression (30, 1)
         (MemberExpression (31, 1) (Identifier (32, 1) ''assert'') (Identifier (33, 1) ''equal''))
         [Identifier (34, 1) ''a'', Identifier (35, 1) ''b''])
      \<lparr>ae_testStack = [Some ''t''], globalEqualCallNodes = []\<rparr> =
      Inr (\<lparr>ae_testStack = [Some ''t''], globalEqualCallNodes = []\<rparr>, []) \<and>
   [Some ''assert''] \<noteq> [] \<and>
   (\<exists>text. equal_boolean_CallExpression canonicalText shadowedEqualCall [Some ''assert''] =
      Inr ([Some ''assert''],
           [\<lparr>d_node = shadowedEqualCall, d_messageId = ''useAssertTrueOrFalse'', d_data = [],
             d_fix = Some [ReplaceText shadowedEqualCall text], d_suggest = []\<rparr>]))"
  using bare_equal_classification [where i = "(21, 1)" and j = "(22, 1)"
      and args = "[Identifier (23, 1) ''x'', Literal (24, 1) (VBool True)]"
      and refs = "[]" and p = "(0, 1)" and body = "[]" and stk = "[Some ''assert'']"
      and m = "(30, 1)" and k = "(31, 1)" and ?k1.0 = "(32, 1)" and v = "''assert''"
      and ?k2.0 = "(33, 1)" and margs = "[Identifier (34, 1) ''a'', Identifier (35, 1) ''b'']"
      and s = "\<lparr>ae_testStack = [Some ''assert''], globalEqualCallNodes = []\<rparr>"
      and testStack = "[Some ''assert'']" and getText = canonicalText]
    bare_equal_classification [where i = "(21, 1)" and j = "(22, 1)"
      and args = "[Identifier (23, 1) ''x'', Literal (24, 1) (VBool True)]"
      and refs = "[shadowedEqualCall]" and p = "(0, 1)" and body = "[]"
      and stk = "[Some ''assert'']"
      and m = "(30, 1)" and k = "(31, 1)" and ?k1.0 = "(32, 1)" and v = "''assert''"
      and ?k2.0 = "(33, 1)" and margs = "[Identifier (34, 1) ''a'', Identifier (35, 1) ''b'']"
      and s = "\<lparr>ae_testStack = [Some ''t''], globalEqualCallNodes = []\<rparr>"]
    bare_equal_classification [where refs = "[globalEqualCall]" and program = globalEqualProgram
      and final = "\<lparr>ae_testStack = [], globalEqualCallNodes = [globalEqualCall]\<rparr>"
      and ds = "[\<lparr>d_node = globalEqualCall, d_messageId = ''unexpectedGlobalEqual'', d_data = [],
            d_fix = None,
            d_suggest =
              [(''switchToDeepEqual'', Some [ReplaceText (Identifier (11, 1) ''equal'') ''deepEqual'']),
               (''switchToPropEqual'', Some [ReplaceText (Identifier (11, 1) ''equal'') ''propEqual'']),
               (''switchToStrictEqual'', Some [ReplaceText (Identifier (11, 1) ''equal'') ''strictEqual''])]\<rparr>]"
      and d = "\<lparr>d_node = globalEqualCall, d_messageId = ''unexpectedGlobalEqual'', d_data = [],
            d_fix = None,
            d_suggest =
              [(''switchToDeepEqual'', Some [ReplaceText (Identifier (11, 1) ''equal'') ''deepEqual'']),
               (''switchToPropEqual'', Some [ReplaceText (Identifier (11, 1) ''equal'') ''propEqual'']),
               (''switchToStrictEqual'', Some [ReplaceText (Identifier (11, 1) ''equal'') ''strictEqual''])]\<rparr>"]
    global_equal_program_run
  by (simp add: shadowedEqualCall_def set_add_def isBooleanLiteral_def globalEqualCall_def
      isBareCall_def isIdentifierNode_def)

section \<open>Properties of no-async-in-loops\<close>

text \<open>
  C9, at the input where it fails. Without the nested registration the call of
  \<^verbatim>\<open>assert.async()\<close> in the loop is reported. With the nested registration
  \<^verbatim>\<open>test('b', function () {})\<close> in front of the loop, nothing is pushed for the nested
  test (its callback binds no assert variable), its exit pops the frame of the enclosing
  test, and the call in the loop is visited with an empty stack and is not reported.
\<close>

theorem loops_nested_test_pops_outer_frame:
  "no_async_in_loops (asyncInWhile []) =
     Inr (\<lparr>loopStack = [], assertVariableStack = []\<rparr>,
          [\<lparr>d_node = CallExpression (24, 1)
                (MemberExpression (25, 1) (Identifier (26, 1) ''assert'')
                   (Identifier (27, 1) ''async'')) [],
            d_messageId = ''unexpectedAsyncInLoop'',
            d_data = [(''call'', ''assert.async()''), (''loopTypeText'', ''while loop'')],
            d_fix = None, d_suggest = []\<rparr>]) \<and>
   no_async_in_loops (asyncInWhile [nestedTestWithoutAssert]) =
     Inr (\<lparr>loopStack = [], assertVariableStack = []\<rparr>, []) \<and>
   loops_CallExpression_exit (CallExpression (11, 1) (Identifier (12, 1) ''test'')
          [Literal (13, 1) (VStr ''b''),
           FunctionExpression (14, 1) [] (BlockStatement (15, 1) [])])
     \<lparr>loopStack = [], assertVariableStack = [''assert'']\<rparr> =
     \<lparr>loopStack = [], assertVariableStack = []\<rparr>"
  by code_simp

subsection \<open>The stacks that are restored\<close>

text \<open>
  A traversal succeeds and restores a projection of the state, when every call of the
  enter handler succeeds and changes the projection by a push that depends on the node
  only, and every call of the exit handler undoes that push.
\<close>

lemma traverse_list_restores:
  assumes "\<And>c anc s. c \<in> set cs \<Longrightarrow> G (proj s) \<Longrightarrow>
             \<exists>s' ds. traverse enter exit anc c s = Inr (s', ds) \<and> proj s' = proj s"
    and "G (proj s)"
  shows "\<exists>s' ds. traverse_list enter exit anc cs s = Inr (s', ds) \<and> proj s' = proj s"
  using assms
proof (induction cs arbitrary: s)
  case Nil
  show ?case by simp
next
  case (Cons c cs)
  have "c \<in> set (c # cs)" by simp
  from Cons.prems(1) [OF this Cons.prems(2)]
  obtain s1 d1 where 1: "traverse enter exit anc c s = Inr (s1, d1)"
    and l1: "proj s1 = proj s" by blast
  have i1: "G (proj s1)" using l1 Cons.prems(2) by simp
  have "\<exists>s2 d2. traverse_list enter exit anc cs s1 = Inr (s2, d2) \<and> proj s2 = proj s1"
    using Cons.IH [OF _ i1] Cons.prems(1) by simp
  then obtain s2 d2 where 2: "traverse_list enter exit anc cs s1 = Inr (s2, d2)"
    and l2: "proj s2 = proj s1" by blast
  show ?case using 1 2 l1 l2 by simp
qed

lemma traverse_restores:
  assumes en: "\<And>anc n s. G (proj s) \<Longrightarrow>
             \<exists>s1 d. enter anc n s = Inr (s1, d) \<and> proj s1 = push n (proj s) \<and> G (push n (proj s))"
    and ex: "\<And>anc n s2 p. G p \<Longrightarrow> proj s2 = push n p \<Longrightarrow>
             \<exists>s3 d. exit anc n s2 = Inr (s3, d) \<and> proj s3 = p"
    and "G (proj s)"
  shows "\<exists>s' ds. traverse enter exit anc n s = Inr (s', ds) \<and> proj s' = proj s"
  using assms(3)
proof (induction n arbitrary: anc s rule: measure_induct_rule [where f = size])
  case (less n)
  from en [OF less.prems, of anc n]
  obtain s1 d1 where e: "enter anc n s = Inr (s1, d1)"
    and l1: "proj s1 = push n (proj s)" and i1: "G (proj s1)" by auto
  have "\<exists>s' ds. traverse_list enter exit (n # anc) (children n) s1 = Inr (s', ds) \<and>
                  proj s' = proj s1"
    using traverse_list_restores [of "children n" G proj enter exit s1 "n # anc"]
      less.IH child_smaller i1 by blast
  then obtain s2 d2 where c: "traverse_list enter exit (n # anc) (children n) s1 = Inr (s2, d2)"
    and l2: "proj s2 = proj s1" by blast
  from ex [OF less.prems, of s2 n anc] l1 l2
  obtain s3 d3 where x: "exit anc n s2 = Inr (s3, d3)" and l3: "proj s3 = proj s"
    by auto
  show ?case
    using e c x l3 by (simp add: traverse.simps [of _ _ _ n])
qed

lemma loops_enter_ok:
  assumes "list_all isLoop (loopStack s)"
  shows "\<exists>s1 d. loops_enter anc n s = Inr (s1, d) \<and>
           loopStack s1 = (if isLoop n then loopStack s @ [n] else loopStack s)"
proof (cases "isLoop n")
  case True
  then show ?thesis by (simp add: loops_enter_def)
next
  case False
  have "\<exists>t. getLoopTypeText (last (loopStack s)) = Inr t" if "loopStack s \<noteq> []"
  proof -
    have "isLoop (last (loopStack s))"
      using assms that by (simp add: list_all_iff)
    then show ?thesis
      by (cases "last (loopStack s)") (simp_all add: isLoop_def getLoopTypeText_def)
  qed
  then show ?thesis
    using False
    by (cases n)
       (auto simp: loops_enter_def loops_CallExpression_def loops_reportError_def
          split: option.splits)
qed

lemma loops_exit_ok:
  assumes "loopStack s2 = (if isLoop n then stk @ [n] else stk)"
  shows "\<exists>s3 d. loops_exit anc n s2 = Inr (s3, d) \<and> loopStack s3 = stk"
  using assms
  by (cases n) (auto simp: loops_exit_def popAndMatch_def loops_CallExpression_exit_def isLoop_def)

text \<open>
  The loop stack of no-async-in-loops: from a stack of loop nodes, the traversal of any
  tree ends without an exception and with the loop stack it started with. In particular
  every \<open>popAndMatch\<close> finds the node it expects.
\<close>

lemma loops_loopStack_lifo:
  assumes "list_all isLoop (loopStack s)"
  shows "\<exists>s' ds. traverse loops_enter loops_exit anc n s = Inr (s', ds) \<and>
                  loopStack s' = loopStack s"
proof (rule traverse_restores [where G = "list_all isLoop" and proj = loopStack
      and push = "\<lambda>n p. if isLoop n then p @ [n] else p"])
  show "list_all isLoop (loopStack s)" by (rule assms)
next
  fix anc n and s :: loops_state
  assume "list_all isLoop (loopStack s)"
  then show "\<exists>s1 d. loops_enter anc n s = Inr (s1, d) \<and>
              loopStack s1 = (if isLoop n then loopStack s @ [n] else loopStack s) \<and>
              list_all isLoop (if isLoop n then loopStack s @ [n] else loopStack s)"
    using loops_enter_ok [of s anc n] by auto
next
  fix anc n p and s2 :: loops_state
  assume "loopStack s2 = (if isLoop n then p @ [n] else p)"
  then show "\<exists>s3 d. loops_exit anc n s2 = Inr (s3, d) \<and> loopStack s3 = p"
    by (rule loops_exit_ok)
qed

text \<open>
  The test stack of no-assert-equal-boolean: the traversal of any tree from any stack ends
  without an exception and with the stack it started with. In particular the assertion of
  \<open>getCurrentAssertContextVariable\<close> never fails in a traversal.
\<close>

lemma equal_boolean_enter_ok:
  "\<exists>st1 d. equal_boolean_enter getText anc n st = Inr (st1, d) \<and>
     st1 = (if isTestRegistration n then st @ [getAssertContextNameForTest (callArguments n)] else st)"
proof (cases n)
  case (CallExpression i callee args)
  show ?thesis
  proof (cases "isTest callee \<or> isAsyncTest callee")
    case True
    then show ?thesis using CallExpression
      by (simp add: equal_boolean_enter_def equal_boolean_CallExpression_def
          isTestRegistration_def callArguments_def)
  next
    case False
    show ?thesis
    proof (cases "st = []")
      case True
      then show ?thesis using CallExpression False
        by (simp add: equal_boolean_enter_def equal_boolean_CallExpression_def
            isTestRegistration_def)
    next
      case ne: False
      have q: "\<exists>b. isEqualityAssertion callee st = Inr b"
        using ne
        by (auto simp: isEqualityAssertion_def isAssertEquality_def
            getCurrentAssertContextVariable_def split: node.splits)
      have f: "\<exists>f. equal_boolean_fix getText n st = Inr f"
        using ne
        by (auto simp: equal_boolean_fix_def getCurrentAssertContextVariable_def Let_def
            split: option.splits node.splits)
      show ?thesis
        using CallExpression False ne q f
        by (auto simp: equal_boolean_enter_def equal_boolean_CallExpression_def
            isTestRegistration_def equal_boolean_reportError_def)
    qed
  qed
qed (simp_all add: equal_boolean_enter_def equal_boolean_CallExpression_def
      isTestRegistration_def)

lemma equal_boolean_exit_ok:
  assumes "st2 = (if isTestRegistration n then st @ [v] else st)"
  shows "equal_boolean_exit anc n st2 = Inr (st, [])"
  using assms
  by (cases n)
     (auto simp: equal_boolean_exit_def equal_boolean_CallExpression_exit_def
        isTestRegistration_def)

lemma equal_boolean_stack_lifo:
  "\<exists>st' ds. traverse (equal_boolean_enter getText) equal_boolean_exit anc n st = Inr (st', ds) \<and>
             st' = st"
proof (rule traverse_restores [where G = "\<lambda>p. True" and proj = "\<lambda>p. p"
      and push = "\<lambda>n p. if isTestRegistration n
                          then p @ [getAssertContextNameForTest (callArguments n)] else p"])
  show True by simp
next
  fix anc n and s :: "string option list"
  show "\<exists>s1 d. equal_boolean_enter getText anc n s = Inr (s1, d) \<and>
          s1 = (if isTestRegistration n
                then s @ [getAssertContextNameForTest (callArguments n)] else s) \<and> True"
    using equal_boolean_enter_ok [of getText anc n s] by simp
next
  fix anc n p and s2 :: "string option list"
  assume "s2 = (if isTestRegistration n
                then p @ [getAssertContextNameForTest (callArguments n)] else p)"
  then show "\<exists>s3 d. equal_boolean_exit anc n s2 = Inr (s3, d) \<and> s3 = p"
    using equal_boolean_exit_ok by blast
qed

text \<open>
  The module stack of no-hooks-from-ancestor-modules has the same early return as the test
  stack of no-async-in-loops: \<^verbatim>\<open>QUnit.module('B')\<close> pushes nothing, its exit pops the
  frame of module A, and the hook call that follows reads the top of an empty stack:
  \<^verbatim>\<open>QUnit.module('A', function (hooks) { QUnit.module('B'); hooks.beforeEach(function () {}); });\<close>
\<close>

lemma ancestor_hooks_module_without_callback:
  "ancestor_hooks canonicalText
     (Program (0, 1)
        [ExpressionStatement (1, 1)
           (CallExpression (2, 1) (qunitModule 3)
              [Literal (6, 1) (VStr ''A''),
               FunctionExpression (7, 1) [Identifier (8, 1) ''hooks'']
                 (BlockStatement (9, 1)
                    [ExpressionStatement (20, 1)
                       (CallExpression (21, 1) (qunitModule 22) [Literal (25, 1) (VStr ''B'')]),
                     hookCall 30 ''hooks'' ''beforeEach''])])]) =
   Inl (TypeError ''Cannot read properties of undefined'')"
  by code_simp

section \<open>Properties of no-identical-names\<close>

lemma find_e_none:
  "list_all (\<lambda>m. p m = Inr False) xs \<Longrightarrow> find_e p xs = Inr None"
  by (induction xs) simp_all

lemma find_e_first:
  assumes "list_all (\<lambda>m. p m = Inr False) pre" and "p x = Inr True"
  shows "find_e p (pre @ x # post) = Inr (Some x)"
  using assms by (induction pre) simp_all

lemma module_not_test: "isModule c \<Longrightarrow> \<not> isTest c"
  by (auto simp: isModule_def isTest_def SUPPORTED_TEST_IDENTIFIERS_def dest!: isQUnitMember_cases)

theorem same_name_under_same_name:
  "diagnostics (no_identical_names sameNamesProgram) =
     Some [\<lparr>d_node = Literal (13, 2) (VStr ''Same''), d_messageId = ''duplicateModuleAncestor'',
            d_data = [(''line'', ''1'')], d_fix = None, d_suggest = []\<rparr>,
           \<lparr>d_node = Literal (23, 3) (VStr ''Same''), d_messageId = ''duplicateModule'',
            d_data = [(''line'', ''2'')], d_fix = None, d_suggest = []\<rparr>,
           \<lparr>d_node = Literal (23, 3) (VStr ''Same''), d_messageId = ''duplicateModuleAncestor'',
            d_data = [(''line'', ''1'')], d_fix = None, d_suggest = []\<rparr>]"
  by code_simp

lemma names_module_enter:
  assumes "isModule c"
    and "modulesStack s = stk @ [parent]"
    and "map_of (mapModuleNodeToInfo s) parent = Some pinfo"
    and "find_e (hasTitle v) (modules pinfo) = Inr sibling"
    and "find_e (hasTitle v) (stackNodes (modulesStack s)) = Inr ancestor"
  shows "diagnostics (names_CallExpression (CallExpression i c (Literal l v # a)) s) =
           Some ((case sibling of None \<Rightarrow> []
                  | Some d \<Rightarrow> [duplicateReport ''duplicateModule'' (Literal l v) d]) @
                 (case ancestor of None \<Rightarrow> []
                  | Some d \<Rightarrow> [duplicateReport ''duplicateModuleAncestor'' (Literal l v) d]))"
  using assms module_not_test [OF assms(1)]
  by (simp add: names_CallExpression_def isFirstArgLiteral_def isLiteral_def
      handleModuleNames_def handleTestNames_def stackTop_def diagnostics_def Let_def)

lemma map_of_map_set:
  "map_of (map_set m k v) k' = (if k' = k then Some v else map_of m k')"
  by (induction m) auto

lemma names_module_enter_state:
  assumes "isModule c"
    and "modulesStack s = stk @ [parent]"
    and "map_of (mapModuleNodeToInfo s) parent = Some pinfo"
    and "find_e (hasTitle v) (modules pinfo) = Inr sibling"
    and "find_e (hasTitle v) (stackNodes (modulesStack s)) = Inr ancestor"
    and "parent \<noteq> ModuleNode (CallExpression i c (Literal l v # a))"
  shows "names_CallExpression (CallExpression i c (Literal l v # a)) s =
           Inr (\<lparr>modulesStack = stk @ [parent, ModuleNode (CallExpression i c (Literal l v # a))],
                 mapModuleNodeToInfo =
                   map_set (map_set (mapModuleNodeToInfo s)
                              (ModuleNode (CallExpression i c (Literal l v # a)))
                              \<lparr>modules = [], tests = [], hasNestedTests = False\<rparr>)
                     parent (pinfo\<lparr>modules := modules pinfo @ [CallExpression i c (Literal l v # a)]\<rparr>)\<rparr>,
                (case sibling of None \<Rightarrow> []
                  | Some d \<Rightarrow> [duplicateReport ''duplicateModule'' (Literal l v) d]) @
                 (case ancestor of None \<Rightarrow> []
                  | Some d \<Rightarrow> [duplicateReport ''duplicateModuleAncestor'' (Literal l v) d]))"
  using assms module_not_test [OF assms(1)]
  by (simp add: names_CallExpression_def isFirstArgLiteral_def isLiteral_def
      handleModuleNames_def handleTestNames_def stackTop_def Let_def)

lemma names_leaf_module_exit:
  assumes "modulesStack s = stk @ [ModuleNode node]"
    and "map_of (mapModuleNodeToInfo s) (ModuleNode node) =
           Some \<lparr>modules = [], tests = [], hasNestedTests = False\<rparr>"
  shows "names_CallExpression_exit node s =
           Inr \<lparr>modulesStack = stk,
                mapModuleNodeToInfo =
                  map_set (mapModuleNodeToInfo s) (ModuleNode node)
                    \<lparr>modules = [], tests = [], hasNestedTests = False\<rparr>\<rparr>"
  using assms by (simp add: names_CallExpression_exit_def)

lemma names_traverse_callee:
  assumes "isQUnitMember c names"
  shows "traverse names_enter names_exit anc c s = Inr (s, [])"
  using isQUnitMember_cases [OF assms]
  by (auto simp: traverse.simps names_enter_def names_exit_def)

lemma names_traverse_leaf_module:
  assumes "isModule c"
    and "modulesStack s = stk @ [parent]"
    and "map_of (mapModuleNodeToInfo s) parent = Some pinfo"
    and "find_e (hasTitle v) (modules pinfo) = Inr sibling"
    and "find_e (hasTitle v) (stackNodes (modulesStack s)) = Inr ancestor"
    and "parent \<noteq> ModuleNode (CallExpression i c [Literal l v])"
  shows "traverse names_enter names_exit anc (ExpressionStatement e (CallExpression i c [Literal l v])) s =
           Inr (\<lparr>modulesStack = stk @ [parent],
                 mapModuleNodeToInfo =
                   map_set
                     (map_set (map_set (mapModuleNodeToInfo s)
                              (ModuleNode (CallExpression i c [Literal l v]))
                              \<lparr>modules = [], tests = [], hasNestedTests = False\<rparr>)
                        parent (pinfo\<lparr>modules := modules pinfo @ [CallExpression i c [Literal l v]]\<rparr>))
                     (ModuleNode (CallExpression i c [Literal l v]))
                     \<lparr>modules = [], tests = [], hasNestedTests = False\<rparr>\<rparr>,
                (case sibling of None \<Rightarrow> []
                  | Some d \<Rightarrow> [duplicateReport ''duplicateModule'' (Literal l v) d]) @
                 (case ancestor of None \<Rightarrow> []
                  | Some d \<Rightarrow> [duplicateReport ''duplicateModuleAncestor'' (Literal l v) d]))"
proof -
  let ?node = "CallExpression i c [Literal l v]"
  let ?fresh = "\<lparr>modules = [], tests = [], hasNestedTests = False\<rparr>"
  let ?m1 = "map_set (map_set (mapModuleNodeToInfo s) (ModuleNode ?node) ?fresh)
               parent (pinfo\<lparr>modules := modules pinfo @ [?node]\<rparr>)"
  let ?s1 = "\<lparr>modulesStack = stk @ [parent, ModuleNode ?node], mapModuleNodeToInfo = ?m1\<rparr>"
  have c: "isQUnitMember c [''module'']" using assms(1) by (simp add: isModule_def)
  note en = names_module_enter_state [OF assms(1-5), of i l "[]", OF assms(6)]
  have "map_of ?m1 (ModuleNode ?node) = Some ?fresh"
    using assms(6) by (simp add: map_of_map_set)
  then have ex: "names_CallExpression_exit ?node ?s1 =
                  Inr \<lparr>modulesStack = stk @ [parent],
                       mapModuleNodeToInfo = map_set ?m1 (ModuleNode ?node) ?fresh\<rparr>"
    using names_leaf_module_exit [of ?s1 "stk @ [parent]" ?node] by simp
  have lit: "traverse names_enter names_exit a (Literal l v) s' = Inr (s', [])" for a s'
    by (simp add: traverse.simps names_enter_def names_exit_def)
  have "traverse names_enter names_exit a ?node s =
          Inr (\<lparr>modulesStack = stk @ [parent],
                 mapModuleNodeToInfo = map_set ?m1 (ModuleNode ?node) ?fresh\<rparr>,
               (case sibling of None \<Rightarrow> []
                  | Some d \<Rightarrow> [duplicateReport ''duplicateModule'' (Literal l v) d]) @
                 (case ancestor of None \<Rightarrow> []
                  | Some d \<Rightarrow> [duplicateReport ''duplicateModuleAncestor'' (Literal l v) d]))" for a
    by (simp add: traverse.simps [of _ _ _ ?node] names_enter_def names_exit_def en ex lit
        names_traverse_callee [OF c])
  then show ?thesis
    by (simp add: traverse.simps [of _ _ _ "ExpressionStatement e ?node"] names_enter_def
        names_exit_def)
qed

lemma sibling_leaf_modules:
  assumes "isModule c1" and "isModule c2"
    and "modulesStack s = stk @ [parent]"
    and "map_of (mapModuleNodeToInfo s) parent = Some pinfo"
    and "list_all (\<lambda>m. hasTitle (VStr t) m = Inr False) (stackNodes (modulesStack s))"
    and "list_all (\<lambda>m. hasTitle (VStr t) m = Inr False) (modules pinfo)"
    and "parent \<noteq> ModuleNode (CallExpression i1 c1 [Literal l1 (VStr t)])"
    and "parent \<noteq> ModuleNode (CallExpression i2 c2 [Literal l2 (VStr t)])"
  shows "diagnostics (traverse_list names_enter names_exit anc
           [ExpressionStatement e1 (CallExpression i1 c1 [Literal l1 (VStr t)]),
            ExpressionStatement e2 (CallExpression i2 c2 [Literal l2 (VStr t)])] s) =
         Some [\<lparr>d_node = Literal l2 (VStr t), d_messageId = ''duplicateModule'',
                d_data = [(''line'', nat_toString (snd l1))], d_fix = None, d_suggest = []\<rparr>]"
proof -
  let ?n1 = "CallExpression i1 c1 [Literal l1 (VStr t)]"
  let ?n2 = "CallExpression i2 c2 [Literal l2 (VStr t)]"
  let ?fresh = "\<lparr>modules = [], tests = [], hasNestedTests = False\<rparr>"
  let ?p1 = "pinfo\<lparr>modules := modules pinfo @ [?n1]\<rparr>"
  let ?m1 = "map_set (map_set (map_set (mapModuleNodeToInfo s) (ModuleNode ?n1) ?fresh) parent ?p1)
               (ModuleNode ?n1) ?fresh"
  let ?s1 = "\<lparr>modulesStack = stk @ [parent], mapModuleNodeToInfo = ?m1\<rparr>"
  note anc = find_e_none [OF assms(5)]
  note t1 = names_traverse_leaf_module [OF assms(1,3,4) find_e_none [OF assms(6)] anc assms(7),
      of anc e1]
  have p: "map_of ?m1 parent = Some ?p1"
    using assms(7) by (simp add: map_of_map_set)
  have h: "hasTitle (VStr t) ?n1 = Inr True" by (simp add: hasTitle_def)
  have f: "find_e (hasTitle (VStr t)) (modules ?p1) = Inr (Some ?n1)"
    using find_e_first [OF assms(6) h, of "[]"] by simp
  have a: "find_e (hasTitle (VStr t)) (stackNodes (modulesStack ?s1)) = Inr None"
    using anc assms(3) by simp
  have t2: "diagnostics (traverse names_enter names_exit anc (ExpressionStatement e2 ?n2) ?s1) =
              Some [duplicateReport ''duplicateModule'' (Literal l2 (VStr t)) ?n1]"
    using names_traverse_leaf_module [of c2 ?s1 stk parent ?p1 "VStr t" "Some ?n1" None i2 l2 anc e2]
      assms(2,8) p f a
    by (simp add: diagnostics_def)
  show ?thesis
    using t1 t2
    by (simp add: diagnostics_def duplicateReport_def firstArgLine_def loc_start_line_def
        split: sum.splits prod.splits)
qed

text \<open>
  C7, as amended. A module registration with a string-literal name is entered while its
  parent module is on top of the stack and no module on the stack carries that name. When
  the first child of the parent recorded with that name is the call \<open>first\<close>, the rule
  reports exactly one diagnostic, on the name argument of the entered call, whose data is
  the line of the name argument of \<open>first\<close>. When no recorded child carries the name (the
  entered call is the first occurrence), it reports nothing. And the traversal of two
  sibling statements \<^verbatim>\<open>module('t'); module('t');\<close> (either callee bare or on
  \<^verbatim>\<open>QUnit\<close>), at a nesting level where no child recorded so far carries the name,
  reports exactly one diagnostic: on the name argument of the second call, with the line of
  the name argument of the first.
\<close>

theorem sibling_module_duplicate:
  assumes "isModule c1" and "isModule c2"
    and "modulesStack s = stk @ [parent]"
    and "map_of (mapModuleNodeToInfo s) parent = Some pinfo"
    and "list_all (\<lambda>m. hasTitle (VStr t) m = Inr False) (stackNodes (modulesStack s))"
  shows "(modules pinfo = pre @ CallExpression i1 c1 (Literal l1 (VStr t) # a1) # post \<and>
          list_all (\<lambda>m. hasTitle (VStr t) m = Inr False) pre \<longrightarrow>
            diagnostics (names_CallExpression (CallExpression i2 c2 (Literal l2 (VStr t) # a2)) s) =
              Some [\<lparr>d_node = Literal l2 (VStr t), d_messageId = ''duplicateModule'',
                     d_data = [(''line'', nat_toString (snd l1))],
                     d_fix = None, d_suggest = []\<rparr>]) \<and>
         (list_all (\<lambda>m. hasTitle (VStr t) m = Inr False) (modules pinfo) \<longrightarrow>
            diagnostics (names_CallExpression (CallExpression i2 c2 (Literal l2 (VStr t) # a2)) s) =
              Some []) \<and>
         (list_all (\<lambda>m. hasTitle (VStr t) m = Inr False) (modules pinfo) \<and>
          parent \<noteq> ModuleNode (CallExpression i1 c1 [Literal l1 (VStr t)]) \<and>
          parent \<noteq> ModuleNode (CallExpression i2 c2 [Literal l2 (VStr t)]) \<longrightarrow>
            diagnostics (traverse_list names_enter names_exit anc
               [ExpressionStatement e1 (CallExpression i1 c1 [Literal l1 (VStr t)]),
                ExpressionStatement e2 (CallExpression i2 c2 [Literal l2 (VStr t)])] s) =
              Some [\<lparr>d_node = Literal l2 (VStr t), d_messageId = ''duplicateModule'',
                     d_data = [(''line'', nat_toString (snd l1))],
                     d_fix = None, d_suggest = []\<rparr>])"
proof -
  let ?first = "CallExpression i1 c1 (Literal l1 (VStr t) # a1)"
  note anc = find_e_none [OF assms(5)]
  have t: "hasTitle (VStr t) ?first = Inr True"
    by (simp add: hasTitle_def)
  have a: "diagnostics (names_CallExpression (CallExpression i2 c2 (Literal l2 (VStr t) # a2)) s) =
              Some [\<lparr>d_node = Literal l2 (VStr t), d_messageId = ''duplicateModule'',
                     d_data = [(''line'', nat_toString (snd l1))],
                     d_fix = None, d_suggest = []\<rparr>]"
    if "modules pinfo = pre @ ?first # post"
      and "list_all (\<lambda>m. hasTitle (VStr t) m = Inr False) pre"
  proof -
    have "find_e (hasTitle (VStr t)) (modules pinfo) = Inr (Some ?first)"
      using find_e_first [OF that(2) t] that(1) by simp
    from names_module_enter [OF assms(2-4) this anc]
    show ?thesis
      by (simp add: duplicateReport_def firstArgLine_def loc_start_line_def)
  qed
  have b: "diagnostics (names_CallExpression (CallExpression i2 c2 (Literal l2 (VStr t) # a2)) s) =
              Some []"
    if "list_all (\<lambda>m. hasTitle (VStr t) m = Inr False) (modules pinfo)"
    using names_module_enter [OF assms(2-4) find_e_none [OF that] anc] by simp
  show ?thesis
    using a b sibling_leaf_modules [OF assms, of i1 l1 i2 l2 anc e1 e2] by blast
qed

theorem sibling_module_duplicate_witness:
  "diagnostics (names_CallExpression (sameModule 21 3 [])
     \<lparr>modulesStack = [TOP_LEVEL_MODULE_NODE],
      mapModuleNodeToInfo =
        [(TOP_LEVEL_MODULE_NODE,
          \<lparr>modules = [sameModule 11 2 []], tests = [], hasNestedTests = False\<rparr>),
         (ModuleNode (sameModule 11 2 []),
          \<lparr>modules = [], tests = [], hasNestedTests = False\<rparr>)]\<rparr>) =
     Some [\<lparr>d_node = Literal (23, 3) (VStr ''Same''), d_messageId = ''duplicateModule'',
            d_data = [(''line'', ''2'')], d_fix = None, d_suggest = []\<rparr>] \<and>
   diagnostics (names_CallExpression (sameModule 21 3 []) names_initial) = Some [] \<and>
   diagnostics (traverse_list names_enter names_exit []
     [ExpressionStatement (10, 2) (sameModule 11 2 []),
      ExpressionStatement (20, 3) (sameModule 21 3 [])] names_initial) =
     Some [\<lparr>d_node = Literal (23, 3) (VStr ''Same''), d_messageId = ''duplicateModule'',
            d_data = [(''line'', ''2'')], d_fix = None, d_suggest = []\<rparr>]"
proof -
  let ?s1 = "\<lparr>modulesStack = [TOP_LEVEL_MODULE_NODE],
      mapModuleNodeToInfo =
        [(TOP_LEVEL_MODULE_NODE,
          \<lparr>modules = [sameModule 11 2 []], tests = [], hasNestedTests = False\<rparr>),
         (ModuleNode (sameModule 11 2 []),
          \<lparr>modules = [], tests = [], hasNestedTests = False\<rparr>)]\<rparr>"
  have m: "isModule (Identifier (12, 2) ''module'')" "isModule (Identifier (22, 3) ''module'')"
    by (simp_all add: isModule_def isQUnitMember_def)
  have 1: "diagnostics (names_CallExpression (sameModule 21 3 []) ?s1) =
     Some [\<lparr>d_node = Literal (23, 3) (VStr ''Same''), d_messageId = ''duplicateModule'',
            d_data = [(''line'', ''2'')], d_fix = None, d_suggest = []\<rparr>]"
    using sibling_module_duplicate [OF m, of ?s1 "[]" TOP_LEVEL_MODULE_NODE
        "\<lparr>modules = [sameModule 11 2 []], tests = [], hasNestedTests = False\<rparr>" "''Same''"
        "[]" "(11, 2)" "(13, 2)" "[]" "[]" "(21, 3)" "(23, 3)" "[]"]
    by (simp add: sameModule_def stackNodes_def nat_toString.simps)
  have 2: "diagnostics (names_CallExpression (sameModule 21 3 []) names_initial) = Some [] \<and>
   diagnostics (traverse_list names_enter names_exit []
     [ExpressionStatement (10, 2) (sameModule 11 2 []),
      ExpressionStatement (20, 3) (sameModule 21 3 [])] names_initial) =
     Some [\<lparr>d_node = Literal (23, 3) (VStr ''Same''), d_messageId = ''duplicateModule'',
            d_data = [(''line'', ''2'')], d_fix = None, d_suggest = []\<rparr>]"
    using sibling_module_duplicate [OF m, where s = names_initial and stk = "[]"
        and parent = TOP_LEVEL_MODULE_NODE
        and pinfo = "\<lparr>modules = [], tests = [], hasNestedTests = False\<rparr>" and t = "''Same''"
        and ?i1.0 = "(11, 2)" and ?l1.0 = "(13, 2)" and ?i2.0 = "(21, 3)" and ?l2.0 = "(23, 3)"
        and ?a2.0 = "[]" and anc = "[]" and ?e1.0 = "(10, 2)" and ?e2.0 = "(20, 3)"]
    by (simp add: sameModule_def stackNodes_def names_initial_def nat_toString.simps
        del: traverse_list.simps)
  show ?thesis using 1 2 by simp
qed

end
